(* ===== verification/Go_Prelude.thy ===== *)
theory Go_Prelude
  imports Main "HOL-Library.Word" "HOL-Library.Sublist" "HOL-Library.Char_ord"
    "HOL-Library.List_Lexorder"
begin

section \<open>The Go vocabulary the components share\<close>

text \<open>
  What every other theory uses of Go: results that are an error or a value, strings as lists of
  bytes with the operations of package \<^verbatim>\<open>strings\<close> the sources call, decimal rendering and
  \<^verbatim>\<open>strconv.Atoi\<close>, byte slices with their bounds check, and little/big-endian reads.
  A Go string and a Go byte slice are both a \<^typ>\<open>string\<close>: a \<^typ>\<open>char\<close> is one byte.
  A slice expression out of range panics in Go; here it is the value \<^term>\<open>None\<close>.
\<close>

named_theorems result_simps \<open>inversion of sequenced results\<close>
named_theorems go_string_simps \<open>characterisations of the string operations\<close>

subsection \<open>Results\<close>

type_synonym ('e, 'a) result = "'e + 'a"

definition and_then :: "'e + 'a \<Rightarrow> ('a \<Rightarrow> 'e + 'b) \<Rightarrow> 'e + 'b" where
  "and_then r f = (case r of Inl e \<Rightarrow> Inl e | Inr x \<Rightarrow> f x)"

definition map_error :: "('e \<Rightarrow> 'f) \<Rightarrow> 'e + 'a \<Rightarrow> 'f + 'a" where
  "map_error g r = (case r of Inl e \<Rightarrow> Inl (g e) | Inr x \<Rightarrow> Inr x)"

definition is_ok :: "'e + 'a \<Rightarrow> bool" where
  "is_ok r = (case r of Inl _ \<Rightarrow> False | Inr _ \<Rightarrow> True)"

lemma and_then_Inl [simp]: "and_then (Inl e) f = Inl e"
  and and_then_Inr [simp]: "and_then (Inr x) f = f x"
  by (simp_all add: and_then_def)

lemma map_error_Inl [simp]: "map_error g (Inl e) = Inl (g e)"
  and map_error_Inr [simp]: "map_error g (Inr x) = Inr x"
  by (simp_all add: map_error_def)

lemma is_ok_Inl [simp]: "\<not> is_ok (Inl e)"
  and is_ok_Inr [simp]: "is_ok (Inr x)"
  by (simp_all add: is_ok_def)

lemma and_then_eq_Inr [result_simps]:
  "and_then r f = Inr y \<longleftrightarrow> (\<exists>x. r = Inr x \<and> f x = Inr y)"
  by (cases r) simp_all

lemma and_then_eq_Inl [result_simps]:
  "and_then r f = Inl e \<longleftrightarrow> r = Inl e \<or> (\<exists>x. r = Inr x \<and> f x = Inl e)"
  by (cases r) simp_all

lemma map_error_eq_Inr [result_simps]: "map_error g r = Inr x \<longleftrightarrow> r = Inr x"
  by (cases r) simp_all

lemma map_error_eq_Inl [result_simps]: "map_error g r = Inl e \<longleftrightarrow> (\<exists>e'. r = Inl e' \<and> e = g e')"
  by (cases r) auto

text \<open>A \<^verbatim>\<open>for\<close> loop that returns at its first error and collects what each turn yields.\<close>

fun collect :: "('a \<Rightarrow> 'e + 'b) \<Rightarrow> 'a list \<Rightarrow> 'e + 'b list" where
  "collect f [] = Inr []"
| "collect f (x # xs) =
     (case f x of Inl e \<Rightarrow> Inl e
      | Inr y \<Rightarrow> (case collect f xs of Inl e \<Rightarrow> Inl e | Inr ys \<Rightarrow> Inr (y # ys)))"

lemma collect_eq_Inr [result_simps]:
  "collect f xs = Inr ys \<longleftrightarrow> list_all2 (\<lambda>x y. f x = Inr y) xs ys"
proof (induction xs arbitrary: ys)
  case Nil
  then show ?case by auto
next
  case (Cons x xs)
  show ?case
  proof (cases "f x")
    case (Inl e)
    then show ?thesis by (auto simp: list_all2_Cons1)
  next
    case (Inr y)
    with Cons.IH show ?thesis
      by (cases "collect f xs") (auto simp: list_all2_Cons1)
  qed
qed

lemma collect_length: "collect f xs = Inr ys \<Longrightarrow> length ys = length xs"
  by (auto simp: result_simps dest: list_all2_lengthD)

lemma collect_sound: "collect f xs = Inr ys \<Longrightarrow> y \<in> set ys \<Longrightarrow> \<exists>x \<in> set xs. f x = Inr y"
  by (auto simp: result_simps list_all2_conv_all_nth in_set_conv_nth) (metis nth_mem)

lemma find_SomeD: "find P xs = Some x \<Longrightarrow> P x \<and> x \<in> set xs"
  by (induction xs) (auto split: if_splits)

subsection \<open>Package strings\<close>

definition has_prefix :: "string \<Rightarrow> string \<Rightarrow> bool" where
  "has_prefix s p = (take (length p) s = p)"

definition has_suffix :: "string \<Rightarrow> string \<Rightarrow> bool" where
  "has_suffix s p = (length p \<le> length s \<and> drop (length s - length p) s = p)"

definition cut_prefix :: "string \<Rightarrow> string \<Rightarrow> string option" where
  "cut_prefix s p = (if has_prefix s p then Some (drop (length p) s) else None)"

definition trim_suffix :: "string \<Rightarrow> string \<Rightarrow> string" where
  "trim_suffix s p = (if has_suffix s p then take (length s - length p) s else s)"

fun str_contains :: "string \<Rightarrow> string \<Rightarrow> bool" where
  "str_contains [] sub = (sub = [])"
| "str_contains (c # s) sub = (has_prefix (c # s) sub \<or> str_contains s sub)"

lemma has_prefix_iff [go_string_simps]: "has_prefix s p \<longleftrightarrow> (\<exists>t. s = p @ t)"
  unfolding has_prefix_def
  by (metis append_eq_conv_conj append_take_drop_id)

lemma has_suffix_iff [go_string_simps]: "has_suffix s p \<longleftrightarrow> (\<exists>t. s = t @ p)"
proof
  assume "has_suffix s p"
  then have "drop (length s - length p) s = p" by (simp add: has_suffix_def)
  then have "s = take (length s - length p) s @ p" by (metis append_take_drop_id)
  then show "\<exists>t. s = t @ p" by blast
next
  assume "\<exists>t. s = t @ p"
  then show "has_suffix s p" by (auto simp: has_suffix_def)
qed

lemma str_contains_iff [go_string_simps]:
  "str_contains s sub \<longleftrightarrow> (\<exists>u v. s = u @ sub @ v)"
proof (induction s)
  case Nil
  then show ?case by auto
next
  case (Cons c s)
  have "(\<exists>u v. c # s = u @ sub @ v) \<longleftrightarrow> (\<exists>v. c # s = sub @ v) \<or> (\<exists>u v. s = u @ sub @ v)"
  proof
    assume "\<exists>u v. c # s = u @ sub @ v"
    then obtain u v where "c # s = u @ sub @ v" by blast
    then show "(\<exists>v. c # s = sub @ v) \<or> (\<exists>u v. s = u @ sub @ v)"
      by (cases u) auto
  next
    assume "(\<exists>v. c # s = sub @ v) \<or> (\<exists>u v. s = u @ sub @ v)"
    then show "\<exists>u v. c # s = u @ sub @ v"
    proof
      assume "\<exists>v. c # s = sub @ v"
      then obtain v where "c # s = [] @ sub @ v" by auto
      then show ?thesis by blast
    next
      assume "\<exists>u v. s = u @ sub @ v"
      then obtain u v where "c # s = (c # u) @ sub @ v" by auto
      then show ?thesis by blast
    qed
  qed
  with Cons.IH show ?case by (simp add: has_prefix_iff)
qed

lemma trim_suffix_append [simp]: "trim_suffix (s @ p) p = s"
  by (auto simp: trim_suffix_def has_suffix_def)

lemma trim_suffix_neq_iff [go_string_simps]:
  "p \<noteq> [] \<Longrightarrow> trim_suffix s p \<noteq> s \<longleftrightarrow> has_suffix s p"
  by (auto simp: trim_suffix_def has_suffix_def)

lemma cut_prefix_eq_Some [go_string_simps]: "cut_prefix s p = Some t \<longleftrightarrow> s = p @ t"
  by (auto simp: cut_prefix_def has_prefix_iff)

text \<open>\<^verbatim>\<open>strings.Split\<close> with a one-byte separator, and \<^verbatim>\<open>strings.Join\<close>.\<close>

fun split_on :: "char \<Rightarrow> string \<Rightarrow> string list" where
  "split_on c [] = [[]]"
| "split_on c (x # xs) =
     (if x = c then [] # split_on c xs
      else (case split_on c xs of [] \<Rightarrow> [[x]] | w # ws \<Rightarrow> (x # w) # ws))"

fun join :: "string \<Rightarrow> string list \<Rightarrow> string" where
  "join sep [] = []"
| "join sep [w] = w"
| "join sep (w # v # ws) = w @ sep @ join sep (v # ws)"

lemma split_on_not_Nil [simp]: "split_on c s \<noteq> []"
  by (induction s) (auto split: list.splits)

lemma split_on_no_sep: "w \<in> set (split_on c s) \<Longrightarrow> c \<notin> set w"
proof (induction s arbitrary: w)
  case Nil
  then show ?case by simp
next
  case (Cons x xs)
  then show ?case
    by (cases "split_on c xs") (auto split: if_splits)
qed

lemma split_on_append: "c \<notin> set w \<Longrightarrow> split_on c (w @ c # s) = w # split_on c s"
  by (induction w) auto

lemma split_on_plain: "c \<notin> set w \<Longrightarrow> split_on c w = [w]"
  by (induction w) auto

lemma split_on_app:
  "split_on c (u @ [c] @ v) = split_on c u @ split_on c v"
proof (induction u)
  case (Cons x u)
  then show ?case by (cases "split_on c u") auto
qed simp

lemma split_on_join:
  "ws \<noteq> [] \<Longrightarrow> (\<And>w. w \<in> set ws \<Longrightarrow> c \<notin> set w) \<Longrightarrow> split_on c (join [c] ws) = ws"
  by (induction "[c]" ws rule: join.induct) (simp_all add: split_on_plain split_on_append)

lemma join_split_on: "join [c] (split_on c s) = s"
proof (induction s)
  case Nil
  then show ?case by simp
next
  case (Cons x xs)
  then show ?case
    by (cases "split_on c xs" rule: list.exhaust) (auto, (metis join.simps append_Cons list.exhaust)+)
qed

text \<open>
  \<^verbatim>\<open>strings.TrimSpace\<close>: the UTF-8 encodings of the code points \<^verbatim>\<open>unicode.IsSpace\<close> accepts,
  removed from both ends. Every one of them is non-empty, so \<^term>\<open>length s\<close> removals are enough.
\<close>

definition space_seqs :: "string list" where
  "space_seqs =
     [[CHR '' ''], [CHR 0x09], [CHR 0x0A], [CHR 0x0B], [CHR 0x0C], [CHR 0x0D],
      [CHR 0xC2, CHR 0x85], [CHR 0xC2, CHR 0xA0], [CHR 0xE1, CHR 0x9A, CHR 0x80],
      [CHR 0xE2, CHR 0x80, CHR 0x80], [CHR 0xE2, CHR 0x80, CHR 0x81], [CHR 0xE2, CHR 0x80, CHR 0x82],
      [CHR 0xE2, CHR 0x80, CHR 0x83], [CHR 0xE2, CHR 0x80, CHR 0x84], [CHR 0xE2, CHR 0x80, CHR 0x85],
      [CHR 0xE2, CHR 0x80, CHR 0x86], [CHR 0xE2, CHR 0x80, CHR 0x87], [CHR 0xE2, CHR 0x80, CHR 0x88],
      [CHR 0xE2, CHR 0x80, CHR 0x89], [CHR 0xE2, CHR 0x80, CHR 0x8A], [CHR 0xE2, CHR 0x80, CHR 0xA8],
      [CHR 0xE2, CHR 0x80, CHR 0xA9], [CHR 0xE2, CHR 0x80, CHR 0xAF], [CHR 0xE2, CHR 0x81, CHR 0x9F],
      [CHR 0xE3, CHR 0x80, CHR 0x80]]"

fun trim_seqs :: "nat \<Rightarrow> string list \<Rightarrow> string \<Rightarrow> string" where
  "trim_seqs 0 ss s = s"
| "trim_seqs (Suc n) ss s =
     (case find (has_prefix s) ss of None \<Rightarrow> s | Some p \<Rightarrow> trim_seqs n ss (drop (length p) s))"

definition trim_left :: "string \<Rightarrow> string" where
  "trim_left s = trim_seqs (length s) space_seqs s"

definition trim_right :: "string \<Rightarrow> string" where
  "trim_right s = rev (trim_seqs (length s) (map rev space_seqs) (rev s))"

definition trim_space :: "string \<Rightarrow> string" where
  "trim_space s = trim_right (trim_left s)"

text \<open>A byte no white space starts or ends with: visible ASCII.\<close>

definition visible :: "char \<Rightarrow> bool" where
  "visible c = (let n = (of_char c :: nat) in 32 < n \<and> n < 127)"

lemma trim_seqs_fixed:
  assumes "\<And>p. p \<in> set ss \<Longrightarrow> \<not> has_prefix s p"
  shows "trim_seqs n ss s = s"
proof (cases n)
  case (Suc m)
  from assms have "find (has_prefix s) ss = None" by (auto simp: find_None_iff)
  with Suc show ?thesis by simp
qed simp

lemma visible_not_space_seq:
  "visible c \<Longrightarrow> p \<in> set space_seqs \<or> p \<in> set (map rev space_seqs) \<Longrightarrow> \<not> has_prefix (c # s) p"
  by (auto simp: space_seqs_def has_prefix_def visible_def)

lemma has_prefix_space_seqs_Nil:
  "p \<in> set space_seqs \<or> p \<in> set (map rev space_seqs) \<Longrightarrow> \<not> has_prefix [] p"
  by (auto simp: space_seqs_def has_prefix_def)

lemma trim_left_visible: "s = [] \<or> visible (hd s) \<Longrightarrow> trim_left s = s"
  unfolding trim_left_def
  by (rule trim_seqs_fixed)
    (metis has_prefix_space_seqs_Nil list.collapse visible_not_space_seq)

lemma trim_seqs_blanks:
  assumes "s = [] \<or> visible (hd s)" and "k \<le> n"
  shows "trim_seqs n (map rev space_seqs) (replicate k (CHR '' '') @ s) = s"
  using assms(2)
proof (induction k arbitrary: n)
  case 0
  have "trim_seqs n (map rev space_seqs) s = s"
    using assms(1)
    by (intro trim_seqs_fixed)
      (metis has_prefix_space_seqs_Nil list.collapse visible_not_space_seq)
  then show ?case by simp
next
  case (Suc k)
  then obtain m where m: "n = Suc m" "k \<le> m" by (cases n) auto
  have "find (has_prefix (CHR '' '' # t)) (map rev space_seqs) = Some [CHR '' '']" for t
    by (simp add: space_seqs_def has_prefix_def)
  with m Suc.IH [of m] show ?case by simp
qed

lemma trim_space_padded:
  assumes "s = [] \<or> visible (hd s) \<and> visible (last s)" and "s = [] \<Longrightarrow> k = 0"
  shows "trim_space (s @ replicate k (CHR '' '')) = s"
proof -
  from assms have "trim_left (s @ replicate k (CHR '' '')) = s @ replicate k (CHR '' '')"
    by (intro trim_left_visible) (cases s, auto)
  moreover have "rev s = [] \<or> visible (hd (rev s))" using assms(1) by (auto simp: hd_rev)
  ultimately show ?thesis
    using trim_seqs_blanks [of "rev s" k "length (s @ replicate k (CHR '' ''))"]
    by (simp add: trim_space_def trim_right_def)
qed

lemma trim_space_visible:
  "s = [] \<or> visible (hd s) \<and> visible (last s) \<Longrightarrow> trim_space s = s"
  using trim_space_padded [of s 0] by simp

definition ascii_upper :: "char \<Rightarrow> bool" where
  "ascii_upper c = (let n = (of_char c :: nat) in 65 \<le> n \<and> n \<le> 90)"

definition ascii_digit :: "char \<Rightarrow> bool" where
  "ascii_digit c = (let n = (of_char c :: nat) in 48 \<le> n \<and> n \<le> 57)"

definition lower_char :: "char \<Rightarrow> char" where
  "lower_char c = (if ascii_upper c then char_of ((of_char c :: nat) + 32) else c)"

definition to_lower :: "string \<Rightarrow> string" where
  "to_lower s = map lower_char s"

subsection \<open>Hexadecimal and quoting\<close>

definition hex_digit :: "nat \<Rightarrow> char" where
  "hex_digit d = (if d < 10 then char_of (48 + d) else char_of (87 + d))"

definition hex :: "string \<Rightarrow> string" where
  "hex b = concat (map (\<lambda>c. [hex_digit (of_char c div 16), hex_digit (of_char c mod 16)]) b)"

text \<open>
  \<^verbatim>\<open>strconv.Quote\<close>, the rendering of \<^verbatim>\<open>%q\<close>, byte by byte: the ASCII escapes, \<^verbatim>\<open>\x..\<close> for the other
  control bytes, and every other byte as it is. Runes beyond ASCII that Go does not count as
  printable are outside of this rendering.
\<close>

definition quote_byte :: "char \<Rightarrow> string" where
  "quote_byte c =
     (let n = (of_char c :: nat) in
      if n = 34 \<or> n = 92 then [CHR 0x5C, c]
      else if n = 7 then [CHR 0x5C, CHR ''a''] else if n = 8 then [CHR 0x5C, CHR ''b'']
      else if n = 9 then [CHR 0x5C, CHR ''t''] else if n = 10 then [CHR 0x5C, CHR ''n'']
      else if n = 11 then [CHR 0x5C, CHR ''v''] else if n = 12 then [CHR 0x5C, CHR ''f'']
      else if n = 13 then [CHR 0x5C, CHR ''r'']
      else if n < 32 \<or> n = 127 then [CHR 0x5C, CHR ''x''] @ hex [c]
      else [c])"

definition quote :: "string \<Rightarrow> string" where
  "quote s = [CHR 0x22] @ concat (map quote_byte s) @ [CHR 0x22]"

lemma quote_plain:
  assumes "\<forall>c \<in> set s. 32 \<le> (of_char c :: nat) \<and> of_char c \<notin> {34, 92, 127 :: nat}"
  shows "quote s = [CHR 0x22] @ s @ [CHR 0x22]"
proof -
  have "concat (map quote_byte s) = concat (map (\<lambda>c. [c]) s)"
    using assms by (intro arg_cong [where f = concat] map_cong) (auto simp: quote_byte_def Let_def)
  then show ?thesis by (simp add: quote_def)
qed

subsection \<open>Decimal numbers\<close>

definition digit_char :: "nat \<Rightarrow> char" where
  "digit_char d = char_of (48 + d)"

definition digit_val :: "char \<Rightarrow> nat" where
  "digit_val c = of_char c - 48"

fun dec_of_nat :: "nat \<Rightarrow> string" where
  "dec_of_nat n = (if n < 10 then [digit_char n] else dec_of_nat (n div 10) @ [digit_char (n mod 10)])"

declare dec_of_nat.simps [simp del]

definition itoa :: "int \<Rightarrow> string" where
  "itoa i = (if i < 0 then CHR ''-'' # dec_of_nat (nat (- i)) else dec_of_nat (nat i))"

text \<open>The value of a run of digits, or \<^term>\<open>None\<close> when a byte is not one.\<close>

fun digits_val :: "nat \<Rightarrow> string \<Rightarrow> nat option" where
  "digits_val acc [] = Some acc"
| "digits_val acc (c # cs) = (if ascii_digit c then digits_val (acc * 10 + digit_val c) cs else None)"

text \<open>
  \<^verbatim>\<open>strconv.Atoi\<close>: the value beside whether the error is nil. A syntax error yields 0, a
  value outside the 64-bit \<^verbatim>\<open>int\<close> yields the nearest end of the range, both with an error.
\<close>

definition atoi_digits :: "bool \<Rightarrow> string \<Rightarrow> int \<times> bool" where
  "atoi_digits neg ds =
     (if ds = [] then (0, False)
      else case digits_val 0 ds of
          None \<Rightarrow> (0, False)
        | Some n \<Rightarrow>
            if neg then (if n \<le> 2 ^ 63 then (- int n, True) else (- (2 ^ 63), False))
            else (if n < 2 ^ 63 then (int n, True) else (2 ^ 63 - 1, False)))"

definition atoi :: "string \<Rightarrow> int \<times> bool" where
  "atoi s =
     (case s of
        [] \<Rightarrow> (0, False)
      | c # cs \<Rightarrow>
          if c = CHR ''-'' then atoi_digits True cs
          else if c = CHR ''+'' then atoi_digits False cs
          else atoi_digits False s)"

lemma digit_char_eval:
  "digit_char 0 = CHR ''0''" "digit_char 1 = CHR ''1''" "digit_char 2 = CHR ''2''"
  "digit_char 3 = CHR ''3''" "digit_char 4 = CHR ''4''" "digit_char 5 = CHR ''5''"
  "digit_char 6 = CHR ''6''" "digit_char 7 = CHR ''7''" "digit_char 8 = CHR ''8''"
  "digit_char 9 = CHR ''9''" "digit_char (Suc 0) = CHR ''1''"
  by code_simp+

lemmas dec_eval = dec_of_nat.simps digit_char_eval

lemma of_char_digit_char [simp]: "d < 10 \<Longrightarrow> (of_char (digit_char d) :: nat) = 48 + d"
  by (simp add: digit_char_def)

lemma ascii_digit_digit_char [simp]: "d < 10 \<Longrightarrow> ascii_digit (digit_char d)"
  by (simp add: ascii_digit_def)

lemma digit_val_digit_char [simp]: "d < 10 \<Longrightarrow> digit_val (digit_char d) = d"
  by (simp add: digit_val_def)

lemma digits_val_append:
  "digits_val acc (xs @ ys) = (case digits_val acc xs of None \<Rightarrow> None | Some a \<Rightarrow> digits_val a ys)"
  by (induction xs arbitrary: acc) auto

lemma digits_val_dec_of_nat [simp]: "digits_val 0 (dec_of_nat n) = Some n"
proof (induction n rule: dec_of_nat.induct)
  case (1 n)
  show ?case
  proof (cases "n < 10")
    case True
    then show ?thesis by (simp add: dec_of_nat.simps [of n])
  next
    case False
    with 1 have "digits_val 0 (dec_of_nat (n div 10)) = Some (n div 10)" by simp
    with False show ?thesis
      by (simp add: dec_of_nat.simps [of n] digits_val_append)
  qed
qed

lemma dec_of_nat_digits: "c \<in> set (dec_of_nat n) \<Longrightarrow> ascii_digit c"
proof (induction n rule: dec_of_nat.induct)
  case (1 n)
  then show ?case
    by (cases "n < 10") (auto simp: dec_of_nat.simps [of n])
qed

lemma dec_of_nat_not_Nil [simp]: "dec_of_nat n \<noteq> []"
  by (simp add: dec_of_nat.simps [of n])

lemma dec_of_nat_inj [simp]: "dec_of_nat m = dec_of_nat n \<longleftrightarrow> m = n"
  by (metis digits_val_dec_of_nat option.inject)

lemma not_digit_sep: "c \<in> set ''.:-/_ '' \<Longrightarrow> c \<notin> set (dec_of_nat n)"
  by (auto dest!: dec_of_nat_digits simp: ascii_digit_def)

lemma hd_dec_of_nat: "ascii_digit (hd (dec_of_nat n))"
  by (rule dec_of_nat_digits [of _ n]) simp

lemma atoi_dec_of_nat: "n < 2 ^ 63 \<Longrightarrow> atoi (dec_of_nat n) = (int n, True)"
proof -
  assume "n < 2 ^ 63"
  obtain c cs where ds: "dec_of_nat n = c # cs" by (cases "dec_of_nat n") auto
  then have "ascii_digit c" using hd_dec_of_nat [of n] by simp
  then have "c \<noteq> CHR ''-''" and "c \<noteq> CHR ''+''" by (auto simp: ascii_digit_def)
  with ds \<open>n < 2 ^ 63\<close> digits_val_dec_of_nat [of n] show ?thesis
    by (simp add: atoi_def atoi_digits_def)
qed

lemma atoi_range: "atoi s = (v, ok) \<Longrightarrow> - (2 ^ 63) \<le> v \<and> v < 2 ^ 63"
  by (auto simp: atoi_def atoi_digits_def split: list.splits if_splits option.splits)

text \<open>The wrap-around of a 64-bit \<^verbatim>\<open>int\<close>.\<close>

definition int64 :: "int \<Rightarrow> int" where
  "int64 x = (x + 2 ^ 63) mod 2 ^ 64 - 2 ^ 63"

lemma int64_id: "- (2 ^ 63) \<le> x \<Longrightarrow> x < 2 ^ 63 \<Longrightarrow> int64 x = x"
  by (simp add: int64_def)

subsection \<open>Byte slices\<close>

type_synonym bytes = "char list"

text \<open>\<^verbatim>\<open>b[lo:hi]\<close> of a slice whose capacity is its length: a panic is \<^term>\<open>None\<close>.\<close>

definition slice :: "bytes \<Rightarrow> nat \<Rightarrow> nat \<Rightarrow> bytes option" where
  "slice b lo hi = (if lo \<le> hi \<and> hi \<le> length b then Some (take (hi - lo) (drop lo b)) else None)"

definition byte_at :: "bytes \<Rightarrow> nat \<Rightarrow> nat option" where
  "byte_at b i = (if i < length b then Some (of_char (b ! i)) else None)"

lemma slice_Some [simp]:
  "lo \<le> hi \<Longrightarrow> hi \<le> length b \<Longrightarrow> slice b lo hi = Some (take (hi - lo) (drop lo b))"
  by (simp add: slice_def)

lemma byte_at_Some [simp]: "i < length b \<Longrightarrow> byte_at b i = Some (of_char (b ! i))"
  by (simp add: byte_at_def)

lemma slice_length: "slice b lo hi = Some r \<Longrightarrow> length r = hi - lo"
  by (auto simp: slice_def split: if_splits)

definition le16 :: "bytes \<Rightarrow> 16 word option" where
  "le16 b = (case b of
       b0 # b1 # _ \<Rightarrow> Some (word_of_nat (of_char b0 + 256 * of_char b1)) | _ \<Rightarrow> None)"

definition le32 :: "bytes \<Rightarrow> 32 word option" where
  "le32 b = (case b of
       b0 # b1 # b2 # b3 # _ \<Rightarrow>
         Some (word_of_nat (of_char b0 + 256 * of_char b1 + 65536 * of_char b2 + 16777216 * of_char b3))
     | _ \<Rightarrow> None)"

definition be16 :: "bytes \<Rightarrow> 16 word option" where
  "be16 b = (case b of
       b0 # b1 # _ \<Rightarrow> Some (word_of_nat (256 * of_char b0 + of_char b1)) | _ \<Rightarrow> None)"

lemma le32_Some: "4 \<le> length b \<Longrightarrow> \<exists>w. le32 b = Some w"
  by (cases b; cases "tl b"; cases "tl (tl b)"; cases "tl (tl (tl b))") (simp_all add: le32_def)

lemma le16_Some: "2 \<le> length b \<Longrightarrow> \<exists>w. le16 b = Some w"
  by (cases b; cases "tl b") (simp_all add: le16_def)

lemma be16_Some: "2 \<le> length b \<Longrightarrow> \<exists>w. be16 b = Some w"
  by (cases b; cases "tl b") (simp_all add: be16_def)

lemma find_append: "find P (xs @ ys) = (case find P xs of Some x \<Rightarrow> Some x | None \<Rightarrow> find P ys)"
  by (induction xs) auto

end
