(* ===== verification/Platform_Image.thy ===== *)
theory Platform_Image
  imports Go_Prelude
begin

section \<open>Boot images: architecture and version of a Talos ISO\<close>

text \<open>
  Models \<^verbatim>\<open>src/platform/image.go\<close>: the ISO9660 walk that finds the kernel and reads the COFF
  machine word of its PE header (\<^verbatim>\<open>InspectImageArch\<close>), and the volume identifier that carries
  the Talos version (\<^verbatim>\<open>InspectImageVersion\<close>). An image is the byte list of its file, or
  \<^term>\<open>None\<close> when it cannot be opened. Every length and extent comes from the file, so each
  slice expression goes through \<^const>\<open>slice\<close>, whose \<^term>\<open>None\<close> is Go's panic; a result is
  \<^term>\<open>Some r\<close> when the function returns \<open>r\<close>. The theorems show that no image makes the
  reader panic, that it answers one of the documented values, and that it reads back what a
  well-formed image holds.
\<close>

subsection \<open>Definitions\<close>

definition sectorSize :: nat where
  "sectorSize = 2048"

text \<open>\<^verbatim>\<open>(*os.File).ReadAt\<close>: the bytes read, and whether the whole buffer was filled.\<close>

definition read_at :: "bytes \<Rightarrow> nat \<Rightarrow> nat \<Rightarrow> bytes \<times> bool" where
  "read_at f n off = (let r = take n (drop off f) in (r, length r = n))"

definition recordExtent :: "bytes \<Rightarrow> (32 word \<times> 32 word) option" where
  "recordExtent rec =
     (if length rec < 18 then Some (0, 0)
      else Option.bind (slice rec 2 6) (\<lambda>a. Option.bind (le32 a) (\<lambda>e.
           Option.bind (slice rec 10 14) (\<lambda>b. Option.bind (le32 b) (\<lambda>l. Some (e, l))))))"

text \<open>
  The directory walk of \<^verbatim>\<open>findChild\<close>: \<^term>\<open>None\<close> is a panic, \<^term>\<open>Some None\<close> "not found".
\<close>

function find_record :: "bytes \<Rightarrow> nat \<Rightarrow> (string \<Rightarrow> bool) \<Rightarrow> (32 word \<times> 32 word) option option" where
  "find_record buf off match =
     (if off < length buf then
        (let rl = of_char (buf ! off) in
         if rl < 33 \<or> off + rl > length buf then Some None
         else Option.bind (slice buf off (off + rl)) (\<lambda>rec.
              Option.bind (byte_at rec 32) (\<lambda>nameLen.
              if 33 + nameLen \<le> rl then
                Option.bind (slice rec 33 (33 + nameLen)) (\<lambda>name.
                if match name then map_option Some (recordExtent rec)
                else find_record buf (off + rl) match)
              else find_record buf (off + rl) match)))
      else Some None)"
  by pat_completeness auto
termination
  by (relation "measure (\<lambda>(buf, off, match). length buf - off)") auto

declare find_record.simps [simp del]

definition findChild ::
  "bytes \<Rightarrow> 32 word \<Rightarrow> 32 word \<Rightarrow> (string \<Rightarrow> bool) \<Rightarrow> (32 word \<times> 32 word) option option" where
  "findChild f extent len match =
     (if unat len > 2 ^ 20 then Some None
      else let (buf, ok) = read_at f (unat len) (unat extent * sectorSize) in
           if \<not> ok then Some None else find_record buf 0 match)"

definition peMachine :: "bytes \<Rightarrow> 16 word option" where
  "peMachine head =
     (if length head < 0x40 \<or> head ! 0 \<noteq> CHR ''M'' \<or> head ! 1 \<noteq> CHR ''Z'' then Some 0
      else Option.bind (slice head 0x3c 0x40) (\<lambda>b. Option.bind (le32 b) (\<lambda>lfanew.
        if lfanew > word_of_nat (length head - 6) then Some 0
        else Option.bind (slice head (unat lfanew) (unat (lfanew + 4))) (\<lambda>sig.
          if sig \<noteq> [CHR ''P'', CHR ''E'', CHR 0x00, CHR 0x00] then Some 0
          else Option.bind (slice head (unat (lfanew + 4)) (unat (lfanew + 6))) le16))))"

text \<open>The primary volume descriptor at sector 16, when the image has one.\<close>

definition read_pvd :: "bytes \<Rightarrow> bytes option" where
  "read_pvd f =
     (let (pvd, ok) = read_at f sectorSize (16 * sectorSize) in
      if ok \<and> take 5 (drop 1 pvd) = ''CD001'' \<and> of_char (pvd ! 0) = (1 :: nat) then Some pvd else None)"

definition InspectImageArch :: "bytes option \<Rightarrow> string option" where
  "InspectImageArch img =
     (case img of None \<Rightarrow> Some ''''
      | Some f \<Rightarrow>
        (case read_pvd f of None \<Rightarrow> Some ''''
         | Some pvd \<Rightarrow>
           Option.bind (slice pvd 156 (length pvd)) (\<lambda>root.
           Option.bind (recordExtent root) (\<lambda>(rootExtent, rootLen).
           Option.bind (findChild f rootExtent rootLen (\<lambda>n. n = ''BOOT'')) (\<lambda>boot.
           case boot of None \<Rightarrow> Some ''''
           | Some (bootExtent, bootLen) \<Rightarrow>
             Option.bind (findChild f bootExtent bootLen (\<lambda>n. has_prefix n ''VMLINUZ'')) (\<lambda>kernel.
             case kernel of None \<Rightarrow> Some ''''
             | Some (kExtent, _) \<Rightarrow>
               Option.bind (peMachine (fst (read_at f 1024 (unat kExtent * sectorSize)))) (\<lambda>mach.
                 Some (if mach = 0x8664 then ''amd64'' else if mach = 0xaa64 then ''arm64''
                       else '''')))))) ))"

definition version_part_ok :: "nat \<Rightarrow> string \<Rightarrow> bool" where
  "version_part_ok i p =
     (p \<noteq> '''' \<and> (if i = 3 then list_all ascii_upper p else list_all ascii_digit p))"

definition version_of_volid :: "string \<Rightarrow> string" where
  "version_of_volid volID =
     (case cut_prefix volID ''TALOS_V'' of
        None \<Rightarrow> ''''
      | Some rest \<Rightarrow>
          (let parts = split_on (CHR ''_'') rest in
           if length parts \<noteq> 3 \<and> length parts \<noteq> 5 then ''''
           else if \<not> list_all (\<lambda>(i, p). version_part_ok i p) (enumerate 0 parts) then ''''
           else if length parts = 5
             then ''v'' @ join ''.'' (take 3 parts) @ ''-'' @ to_lower (parts ! 3) @ ''.'' @ parts ! 4
             else ''v'' @ join ''.'' parts))"

definition InspectImageVersion :: "bytes option \<Rightarrow> string option" where
  "InspectImageVersion img =
     (case img of None \<Rightarrow> Some ''''
      | Some f \<Rightarrow>
        (case read_pvd f of None \<Rightarrow> Some ''''
         | Some pvd \<Rightarrow> map_option (\<lambda>raw. version_of_volid (trim_space raw)) (slice pvd 40 72)))"

subsection \<open>No image makes the reader panic\<close>

lemma recordExtent_Some: "\<exists>e l. recordExtent rec = Some (e, l)"
proof (cases "length rec < 18")
  case False
  then obtain a b where "le32 (take 4 (drop 2 rec)) = Some a" "le32 (take 4 (drop 10 rec)) = Some b"
    using le32_Some [of "take 4 (drop 2 rec)"] le32_Some [of "take 4 (drop 10 rec)"] by auto
  with False show ?thesis by (simp add: recordExtent_def)
qed (simp add: recordExtent_def)

text \<open>One turn of the walk, on a record that fits: what the loop body does with it.\<close>

definition record_at :: "bytes \<Rightarrow> nat \<Rightarrow> bytes" where
  "record_at buf off = take (of_char (buf ! off)) (drop off buf)"

definition record_fits :: "bytes \<Rightarrow> nat \<Rightarrow> bool" where
  "record_fits buf off =
     (off < length buf \<and> 33 \<le> (of_char (buf ! off) :: nat) \<and> off + of_char (buf ! off) \<le> length buf)"

definition record_name :: "bytes \<Rightarrow> string option" where
  "record_name rec =
     (let n = of_char (rec ! 32) in
      if 33 + n \<le> length rec then Some (take n (drop 33 rec)) else None)"

lemma record_at_length: "record_fits buf off \<Longrightarrow> length (record_at buf off) = of_char (buf ! off)"
  by (auto simp: record_fits_def record_at_def)

lemma find_record_stop: "\<not> record_fits buf off \<Longrightarrow> find_record buf off match = Some None"
  by (subst find_record.simps) (auto simp: Let_def record_fits_def)

lemma find_record_step:
  assumes "record_fits buf off"
  shows "find_record buf off match =
    (case record_name (record_at buf off) of
       Some name \<Rightarrow> if match name then map_option Some (recordExtent (record_at buf off))
                    else find_record buf (off + of_char (buf ! off)) match
     | None \<Rightarrow> find_record buf (off + of_char (buf ! off)) match)"
proof -
  have rec: "slice buf off (off + of_char (buf ! off)) = Some (record_at buf off)"
    using assms by (simp add: record_fits_def record_at_def)
  have "32 < length (record_at buf off)" "length (record_at buf off) = of_char (buf ! off)"
    using assms record_at_length [OF assms] by (simp_all add: record_fits_def)
  with assms show ?thesis
    by (subst find_record.simps)
      (simp add: Let_def record_fits_def rec record_name_def not_less not_le)
qed

lemma find_record_Some: "\<exists>r. find_record buf off match = Some r"
proof (induction "length buf - off" arbitrary: off rule: less_induct)
  case less
  show ?case
  proof (cases "record_fits buf off")
    case False
    then show ?thesis by (simp add: find_record_stop)
  next
    case True
    then have "length buf - (off + of_char (buf ! off)) < length buf - off"
      by (auto simp: record_fits_def)
    then have "\<exists>r. find_record buf (off + of_char (buf ! off)) match = Some r" by (rule less)
    with recordExtent_Some [of "record_at buf off"] show ?thesis
      by (auto simp: find_record_step [OF True] split: option.splits)
  qed
qed

lemma findChild_Some: "\<exists>r. findChild f extent len match = Some r"
  using find_record_Some by (auto simp: findChild_def Let_def split: prod.splits)

lemma peMachine_Some:
  assumes "length head < 2 ^ 32"
  shows "\<exists>m. peMachine head = Some m"
proof (cases "length head < 0x40 \<or> head ! 0 \<noteq> CHR ''M'' \<or> head ! 1 \<noteq> CHR ''Z''")
  case False
  then have "4 \<le> length (take 4 (drop 60 head))" by auto
  then obtain lf where lf: "le32 (take 4 (drop 60 head)) = Some lf"
    using le32_Some by blast
  show ?thesis
  proof (cases "lf > word_of_nat (length head - 6)")
    case True
    with False lf show ?thesis by (simp add: peMachine_def)
  next
    case le: False
    then have "unat lf \<le> length head - 6"
      using assms by (simp add: not_less word_le_nat_alt unat_of_nat)
    then have bound: "unat lf + 6 \<le> length head" using False by auto
    then have sums: "unat (lf + 4) = unat lf + 4" "unat (lf + 6) = unat lf + 6"
      using assms by (simp_all add: unat_word_ariths)
    obtain m where "le16 (take 2 (drop (unat lf + 4) head)) = Some m"
      using le16_Some [of "take 2 (drop (unat lf + 4) head)"] bound by auto
    with False lf le bound show ?thesis by (simp add: peMachine_def sums)
  qed
qed (auto simp: peMachine_def)

lemma read_at_length: "length (fst (read_at f n off)) \<le> n"
  by (simp add: read_at_def Let_def)

lemma peMachine_head_Some: "\<exists>m. peMachine (fst (read_at f 1024 off)) = Some m"
  by (rule peMachine_Some) (rule le_less_trans [OF read_at_length], simp)

lemma read_pvd_length: "read_pvd f = Some pvd \<Longrightarrow> length pvd = 2048"
  by (auto simp: read_pvd_def read_at_def sectorSize_def Let_def split: if_splits)

text \<open>
  C36. \<open>InspectImageArch\<close> never panics, whatever bytes the image holds, and answers
  \<^verbatim>\<open>amd64\<close>, \<^verbatim>\<open>arm64\<close> or the empty string.
\<close>

theorem InspectImageArch_total:
  "\<exists>r. InspectImageArch img = Some r \<and> r \<in> {'''', ''amd64'', ''arm64''}"
proof (cases "img = None \<or> read_pvd (the img) = None")
  case True
  then show ?thesis by (cases img) (auto simp: InspectImageArch_def)
next
  case False
  then obtain f pvd where f: "img = Some f" "read_pvd f = Some pvd" by auto
  obtain e l where root: "recordExtent (drop 156 pvd) = Some (e, l)" using recordExtent_Some by blast
  obtain boot where boot: "findChild f e l (\<lambda>n. n = ''BOOT'') = Some boot"
    using findChild_Some by blast
  show ?thesis
  proof (cases boot)
    case None
    with f root boot read_pvd_length [OF f(2)] show ?thesis by (simp add: InspectImageArch_def)
  next
    case (Some be)
    obtain k where k: "findChild f (fst be) (snd be) (\<lambda>n. has_prefix n ''VMLINUZ'') = Some k"
      using findChild_Some by blast
    obtain m where m: "peMachine (fst (read_at f 1024 (unat (fst (the k)) * sectorSize))) = Some m"
      using peMachine_head_Some by blast
    from f root boot Some k m read_pvd_length [OF f(2)] show ?thesis
      by (cases k) (auto simp: InspectImageArch_def split_beta)
  qed
qed

subsection \<open>The version read from the volume identifier\<close>

definition numeric :: "string \<Rightarrow> bool" where
  "numeric p = (p \<noteq> '''' \<and> list_all ascii_digit p)"

text \<open>The shapes a reported version can have: a release, or a pre-release of a channel.\<close>

definition release_version :: "string \<Rightarrow> bool" where
  "release_version v = (\<exists>a b c. numeric a \<and> numeric b \<and> numeric c \<and> v = ''v'' @ join ''.'' [a, b, c])"

definition prerelease_version :: "string \<Rightarrow> bool" where
  "prerelease_version v =
     (\<exists>a b c ch n. numeric a \<and> numeric b \<and> numeric c \<and> numeric n \<and> ch \<noteq> '''' \<and> list_all ascii_upper ch \<and>
        v = ''v'' @ join ''.'' [a, b, c] @ ''-'' @ to_lower ch @ ''.'' @ n)"

lemma length_eq_3: "length xs = 3 \<longleftrightarrow> (\<exists>a b c. xs = [a, b, c])"
  by (auto simp: numeral_3_eq_3 length_Suc_conv)

lemma length_eq_5: "length xs = 5 \<longleftrightarrow> (\<exists>a b c d e. xs = [a, b, c, d, e])"
  by (auto simp: numeral_eq_Suc length_Suc_conv)

lemma version_of_volid_shape:
  "version_of_volid volID = '''' \<or> release_version (version_of_volid volID)
     \<or> prerelease_version (version_of_volid volID)"
proof (cases "cut_prefix volID ''TALOS_V''")
  case None
  then show ?thesis by (simp add: version_of_volid_def)
next
  case (Some rest)
  let ?parts = "split_on (CHR ''_'') rest"
  consider "length ?parts = 3" | "length ?parts = 5" | "length ?parts \<noteq> 3" "length ?parts \<noteq> 5" by blast
  then show ?thesis
  proof cases
    case 1
    then obtain a b c where "?parts = [a, b, c]" by (auto simp: length_eq_3)
    with Some show ?thesis
      by (auto simp: version_of_volid_def Let_def version_part_ok_def release_version_def numeric_def)
  next
    case 2
    then obtain a b c ch n where "?parts = [a, b, c, ch, n]" by (auto simp: length_eq_5)
    with Some have "version_of_volid volID \<noteq> '''' \<Longrightarrow>
        numeric a \<and> numeric b \<and> numeric c \<and> numeric n \<and> ch \<noteq> '''' \<and> list_all ascii_upper ch \<and>
        version_of_volid volID = ''v'' @ join ''.'' [a, b, c] @ ''-'' @ to_lower ch @ ''.'' @ n"
      by (simp add: version_of_volid_def Let_def version_part_ok_def numeric_def split: if_splits)
    then show ?thesis unfolding prerelease_version_def by blast
  qed (use Some in \<open>simp add: version_of_volid_def Let_def\<close>)
qed

text \<open>
  \<open>InspectImageVersion\<close> never panics, and what it answers is the empty string, a version
  \<^verbatim>\<open>vA.B.C\<close> of numeric components or a pre-release \<^verbatim>\<open>vA.B.C-channel.N\<close>: no other
  text of a volume identifier ever reaches a version string.
\<close>

theorem InspectImageVersion_total:
  "\<exists>v. InspectImageVersion img = Some v \<and> (v = '''' \<or> release_version v \<or> prerelease_version v)"
proof (cases "img = None \<or> read_pvd (the img) = None")
  case True
  then show ?thesis by (cases img) (auto simp: InspectImageVersion_def)
next
  case False
  then obtain f pvd where f: "img = Some f" "read_pvd f = Some pvd" by auto
  then have "InspectImageVersion img = Some (version_of_volid (trim_space (take 32 (drop 40 pvd))))"
    using read_pvd_length [OF f(2)] by (simp add: InspectImageVersion_def)
  then show ?thesis using version_of_volid_shape by auto
qed

text \<open>What Talos writes: the label of a release, and an image whose sector 16 carries it.\<close>

definition talos_label :: "nat \<Rightarrow> nat \<Rightarrow> nat \<Rightarrow> string" where
  "talos_label a b c = ''TALOS_V'' @ join ''_'' [dec_of_nat a, dec_of_nat b, dec_of_nat c]"

definition pvd_labelled :: "string \<Rightarrow> bytes \<Rightarrow> bytes \<Rightarrow> bytes" where
  "pvd_labelled label system_id rest =
     CHR 0x01 # ''CD001'' @ system_id @ label @ replicate (32 - length label) (CHR '' '') @ rest"

lemma numeric_dec_of_nat [simp]: "numeric (dec_of_nat n)"
  by (auto simp: numeric_def list_all_iff dest: dec_of_nat_digits)

lemma version_of_talos_label:
  "version_of_volid (talos_label a b c) = ''v'' @ join ''.'' [dec_of_nat a, dec_of_nat b, dec_of_nat c]"
proof -
  let ?ws = "[dec_of_nat a, dec_of_nat b, dec_of_nat c]"
  have "split_on (CHR ''_'') (join ''_'' ?ws) = ?ws"
    by (rule split_on_join) (use not_digit_sep [of "CHR ''_''"] in auto)
  moreover have "cut_prefix (talos_label a b c) ''TALOS_V'' = Some (join ''_'' ?ws)"
    by (simp add: talos_label_def cut_prefix_eq_Some)
  moreover have "version_part_ok i (dec_of_nat n)" if "i \<noteq> 3" for i n
    using numeric_dec_of_nat [of n] that by (simp add: version_part_ok_def numeric_def)
  ultimately show ?thesis by (simp add: version_of_volid_def)
qed

lemma visible_digit: "ascii_digit c \<Longrightarrow> visible c"
  by (simp add: ascii_digit_def visible_def Let_def)

lemma trim_talos_label:
  "trim_space (talos_label a b c @ replicate k (CHR '' '')) = talos_label a b c"
proof (rule trim_space_padded)
  have "visible (last (dec_of_nat c))"
    by (intro visible_digit dec_of_nat_digits [of _ c]) simp
  then show "talos_label a b c = [] \<or>
      visible (hd (talos_label a b c)) \<and> visible (last (talos_label a b c))"
    by (simp add: talos_label_def) (simp add: visible_def)
qed (simp add: talos_label_def)

text \<open>
  C37. Round trip of the volume identifier: an image whose sixteenth sector is a primary volume
  descriptor with the identifier Talos writes for release A.B.C is reported as \<^verbatim>\<open>vA.B.C\<close>.
\<close>

theorem InspectImageVersion_label:
  assumes "length pre = 16 * sectorSize" and "length system_id = 34"
    and "length (talos_label a b c) \<le> 32" and "length rest = sectorSize - 72"
  shows "InspectImageVersion (Some (pre @ pvd_labelled (talos_label a b c) system_id rest @ post))
           = Some (''v'' @ join ''.'' [dec_of_nat a, dec_of_nat b, dec_of_nat c])"
proof -
  let ?l = "talos_label a b c"
  let ?pad = "replicate (32 - length ?l) (CHR '' '')"
  let ?pvd = "pvd_labelled ?l system_id rest"
  have len: "length ?pvd = sectorSize"
    using assms by (simp add: pvd_labelled_def sectorSize_def)
  then have "read_pvd (pre @ ?pvd @ post) = Some ?pvd"
    using assms(1) by (simp add: read_pvd_def read_at_def) (simp add: pvd_labelled_def)
  moreover have "take 32 (drop 40 ?pvd) = ?l @ ?pad"
    using assms(2,3) by (simp add: pvd_labelled_def)
  ultimately show ?thesis
    using len by (simp add: InspectImageVersion_def sectorSize_def trim_talos_label version_of_talos_label)
qed

theorem InspectImageVersion_label_witness:
  "InspectImageVersion (Some (replicate 32768 (CHR 0x00)
      @ pvd_labelled (talos_label 1 13 7) (replicate 34 (CHR '' '')) (replicate 1976 (CHR 0x00)) @ ''tail''))
     = Some ''v1.13.7''"
  using InspectImageVersion_label [of "replicate 32768 (CHR 0x00)" "replicate 34 (CHR '' '')" 1 13 7
      "replicate 1976 (CHR 0x00)" "''tail''"]
  by (simp add: sectorSize_def talos_label_def dec_eval)

subsection \<open>The directory walk reads back a directory\<close>

text \<open>
  An ISO9660 directory as \<^verbatim>\<open>xorriso\<close> lays it out: one record per entry, each with the
  little-endian extent and length at bytes 2 and 10, then the name behind its length at byte 32.
\<close>

definition le32_bytes :: "32 word \<Rightarrow> bytes" where
  "le32_bytes w = map (\<lambda>i. char_of (unat w div 256 ^ i mod 256)) [0, 1, 2, 3]"

definition iso_record :: "string \<times> 32 word \<times> 32 word \<Rightarrow> bytes" where
  "iso_record ent = (case ent of (name, e, l) \<Rightarrow>
     [char_of (33 + length name), CHR 0x00] @ le32_bytes e @ replicate 4 (CHR 0x00)
       @ le32_bytes l @ replicate 18 (CHR 0x00) @ [char_of (length name)] @ name)"

lemma length_le32_bytes [simp]: "length (le32_bytes w) = 4"
  by (simp add: le32_bytes_def)

lemma base256_digits:
  "a * 256 + r0 = n \<Longrightarrow> b * 256 + r1 = a \<Longrightarrow> c * 256 + r2 = b \<Longrightarrow>
   r0 + 256 * r1 + 65536 * r2 + 16777216 * c = (n :: nat)"
  by (elim subst) (simp add: algebra_simps)

lemma base256: "n < 4294967296 \<Longrightarrow>
  n mod 256 + 256 * (n div 256 mod 256) + 65536 * (n div 65536 mod 256) + 16777216 * (n div 16777216 mod 256) = (n :: nat)"
proof -
  assume "n < 4294967296"
  then have "n div 16777216 mod 256 = n div 16777216" by simp
  moreover have "n div 65536 = n div 256 div 256" "n div 16777216 = n div 256 div 256 div 256"
    by (simp_all add: div_mult2_eq [symmetric])
  ultimately show ?thesis
    by (simp only: base256_digits [OF div_mult_mod_eq [of n 256] div_mult_mod_eq div_mult_mod_eq])
qed

lemma le32_le32_bytes [simp]: "le32 (le32_bytes w) = Some w"
proof -
  have "unat w < 4294967296" using unsigned_less [of w] by simp
  then have "word_of_nat (unat w mod 256 + 256 * (unat w div 256 mod 256) + 65536 * (unat w div 65536 mod 256)
      + 16777216 * (unat w div 16777216 mod 256)) = w"
    by (simp only: base256) simp
  then show ?thesis
    by (simp only: le32_bytes_def le32_def list.map list.case of_char_of power_0 power_one_right
        div_by_1 mod_mod_trivial) (simp add: power2_eq_square power3_eq_cube)
qed

lemma iso_record_length: "length (iso_record ent) = 33 + length (fst ent)"
  by (simp add: iso_record_def split: prod.split)

lemma iso_record_extent: "recordExtent (iso_record (name, e, l)) = Some (e, l)"
  by (simp add: recordExtent_def iso_record_def)

lemma iso_record_nth32:
  "length name < 223 \<Longrightarrow> of_char (iso_record (name, e, l) ! 32) = length name"
  by (simp add: iso_record_def nth_append)

lemma iso_record_hd:
  "length name < 223 \<Longrightarrow> of_char (iso_record (name, e, l) ! 0) = 33 + length name"
  by (simp add: iso_record_def)

lemma iso_record_name: "length name < 223 \<Longrightarrow> record_name (iso_record (name, e, l)) = Some name"
  by (simp add: record_name_def iso_record_nth32 iso_record_length) (simp add: iso_record_def)

lemma find_record_shift:
  "find_record (pre @ buf) (length pre + off) match = find_record buf off match"
proof (induction "length buf - off" arbitrary: off rule: less_induct)
  case less
  have same: "(pre @ buf) ! (length pre + off) = buf ! off" by (simp add: nth_append)
  show ?case
  proof (cases "record_fits buf off")
    case True
    then have fits: "record_fits (pre @ buf) (length pre + off)"
      by (auto simp: record_fits_def same)
    have rec: "record_at (pre @ buf) (length pre + off) = record_at buf off"
      by (simp add: record_at_def same)
    from True have "length buf - (off + of_char (buf ! off)) < length buf - off"
      by (auto simp: record_fits_def)
    note IH = less [OF this]
    show ?thesis
      unfolding find_record_step [OF True] find_record_step [OF fits] rec same
      by (simp add: IH add.assoc split: option.split)
  next
    case False
    then have "\<not> record_fits (pre @ buf) (length pre + off)"
      by (auto simp: record_fits_def same)
    with False show ?thesis by (simp add: find_record_stop)
  qed
qed

lemma find_record_iso:
  assumes "length name < 223"
  shows "find_record (iso_record (name, e, l) @ rest) 0 match =
     (if match name then Some (Some (e, l)) else find_record rest 0 match)"
proof -
  let ?r = "iso_record (name, e, l)"
  have first: "(of_char ((?r @ rest) ! 0) :: nat) = length ?r"
    using iso_record_hd [OF assms] iso_record_length [of "(name, e, l)"] by (simp add: nth_append)
  then have fits: "record_fits (?r @ rest) 0"
    by (simp add: record_fits_def iso_record_length)
  have "record_at (?r @ rest) 0 = ?r" by (simp add: record_at_def first)
  with find_record_shift [of ?r rest 0 match] show ?thesis
    by (simp add: find_record_step [OF fits] first iso_record_name [OF assms] iso_record_extent)
qed

text \<open>
  The directory walk finds what a directory holds: on the records of a directory, followed by
  the zero padding that ends its sector, it returns the extent of the first entry whose name
  matches, and "not found" when no entry does.
\<close>

theorem find_record_directory:
  assumes "\<forall>ent \<in> set entries. length (fst ent) < 223"
  shows "find_record (concat (map iso_record entries) @ replicate k (CHR 0x00)) 0 match
           = Some (map_option snd (find (\<lambda>ent. match (fst ent)) entries))"
  using assms
proof (induction entries)
  case Nil
  have "\<not> record_fits (replicate k (CHR 0x00)) 0" by (auto simp: record_fits_def)
  then show ?case by (simp add: find_record_stop)
next
  case (Cons ent entries)
  obtain name e l where ent: "ent = (name, e, l)" by (cases ent)
  with Cons show ?case by (simp add: find_record_iso)
qed

theorem find_record_directory_witness:
  "find_record (concat (map iso_record [(''EFI'', 9, 1), (''BOOT'', 20, 2048)]) @ replicate 7 (CHR 0x00)) 0
      (\<lambda>n. n = ''BOOT'') = Some (Some (20, 2048))"
  using find_record_directory [of "[(''EFI'', 9, 1), (''BOOT'', 20, 2048)]" 7 "\<lambda>n. n = ''BOOT''"]
  by simp

end
