(* ===== verification/Go_Filepath.thy ===== *)
theory Go_Filepath
  imports Go_Prelude
begin

section \<open>Package path/filepath on a Unix host\<close>

text \<open>
  The lexical path operations the sources call: \<^verbatim>\<open>filepath.Clean\<close> and \<^verbatim>\<open>filepath.Join\<close>
  on the components of a path, \<^verbatim>\<open>filepath.Match\<close> chunk by chunk as the standard library
  does it, and the UTF-8 decoding its character classes use. A small file system (\<open>fsys\<close>)
  holds what the readers see of the host.
\<close>

subsection \<open>Clean and Join\<close>

fun clean_step :: "bool \<Rightarrow> string list \<Rightarrow> string \<Rightarrow> string list" where
  "clean_step rooted stack c =
     (if c = '''' \<or> c = ''.'' then stack
      else if c = ''..'' then
        (case stack of
           [] \<Rightarrow> if rooted then [] else [''..'']
         | t # rest \<Rightarrow> if t = ''..'' then ''..'' # stack else rest)
      else c # stack)"

definition clean_comps :: "bool \<Rightarrow> string list \<Rightarrow> string list" where
  "clean_comps rooted cs = rev (foldl (clean_step rooted) [] cs)"

definition clean :: "string \<Rightarrow> string" where
  "clean path =
     (if path = '''' then ''.''
      else let rooted = (hd path = CHR ''/'');
               out = join ''/'' (clean_comps rooted (split_on (CHR ''/'') path))
           in if rooted then ''/'' @ out else if out = '''' then ''.'' else out)"

definition path_join :: "string list \<Rightarrow> string" where
  "path_join elems =
     (let es = dropWhile (\<lambda>e. e = '''') elems in if es = [] then '''' else clean (join ''/'' es))"

text \<open>A path component that no path operation rewrites.\<close>

definition plain_comp :: "string \<Rightarrow> bool" where
  "plain_comp c = (c \<noteq> '''' \<and> c \<noteq> ''.'' \<and> c \<noteq> ''..'' \<and> CHR ''/'' \<notin> set c)"

lemma clean_comps_plain_aux:
  "list_all plain_comp cs \<Longrightarrow> foldl (clean_step rooted) st cs = rev cs @ st"
  by (induction cs arbitrary: st) (auto simp: plain_comp_def)

lemma clean_comps_plain: "list_all plain_comp cs \<Longrightarrow> clean_comps rooted cs = cs"
  by (simp add: clean_comps_def clean_comps_plain_aux)

text \<open>An absolute path written from its components, with or without a trailing slash.\<close>

definition abs_path :: "string list \<Rightarrow> string" where
  "abs_path cs = ''/'' @ join ''/'' cs"

lemma split_abs_path:
  "list_all plain_comp cs \<Longrightarrow> cs \<noteq> [] \<Longrightarrow> split_on (CHR ''/'') (abs_path cs) = '''' # cs"
  by (simp add: abs_path_def) (rule split_on_join, auto simp: plain_comp_def list_all_iff)

lemma clean_comps_Nil_Cons: "clean_comps rooted ('''' # cs) = clean_comps rooted cs"
  by (simp add: clean_comps_def)

lemma clean_abs_path: "list_all plain_comp cs \<Longrightarrow> cs \<noteq> [] \<Longrightarrow> clean (abs_path cs) = abs_path cs"
  by (simp add: clean_def Let_def split_abs_path clean_comps_Nil_Cons clean_comps_plain)
    (simp add: abs_path_def)

lemma split_on_snoc_sep: "split_on c (s @ [c]) = split_on c s @ [[]]"
proof (induction s)
  case Nil
  then show ?case by simp
next
  case (Cons x s)
  then show ?case by (cases "split_on c s") auto
qed

lemma clean_abs_path_slash:
  "list_all plain_comp cs \<Longrightarrow> cs \<noteq> [] \<Longrightarrow> clean (abs_path cs @ ''/'') = abs_path cs"
  by (simp add: clean_def Let_def split_on_snoc_sep split_abs_path)
    (simp add: abs_path_def clean_comps_def clean_comps_plain_aux)

lemma join_append: "xs \<noteq> [] \<Longrightarrow> ys \<noteq> [] \<Longrightarrow> join sep (xs @ ys) = join sep xs @ sep @ join sep ys"
  by (induction sep xs rule: join.induct) (auto simp: neq_Nil_conv)

lemma path_join_abs:
  assumes "list_all plain_comp cs" "cs \<noteq> []" "list_all plain_comp ds"
  shows "path_join (abs_path cs # ds) = abs_path (cs @ ds)"
proof -
  have "join ''/'' (abs_path cs # ds) = abs_path (cs @ ds)"
    using assms(2) by (cases "ds = []") (auto simp: abs_path_def join_append neq_Nil_conv)
  moreover have "abs_path cs \<noteq> ''''" by (simp add: abs_path_def)
  ultimately show ?thesis
    using assms by (simp add: path_join_def clean_abs_path)
qed

text \<open>Whatever is before it, a plain last component stays the end of a joined path.\<close>

lemma join_snoc: "\<exists>pre. join sep (xs @ [f]) = pre @ f"
  by (cases "xs = []") (simp_all add: join_append)

lemma clean_last:
  assumes "plain_comp f"
  shows "\<exists>pre. clean (d @ CHR ''/'' # f) = pre @ f"
proof -
  have "split_on CHR ''/'' (d @ CHR ''/'' # f) = split_on CHR ''/'' d @ [f]"
    using assms split_on_app [of "CHR ''/''" d f] by (simp add: plain_comp_def split_on_plain)
  then have "\<exists>cs. clean_comps rooted (split_on CHR ''/'' (d @ CHR ''/'' # f)) = cs @ [f]" for rooted
    using assms by (auto simp: clean_comps_def plain_comp_def)
  then have "\<exists>pre. join ''/'' (clean_comps rooted (split_on CHR ''/'' (d @ CHR ''/'' # f))) = pre @ f" for rooted
    using join_snoc by metis
  then show ?thesis using assms unfolding clean_def Let_def by (auto simp: plain_comp_def) (metis append_Cons append_is_Nil_conv)+
qed

lemma path_join_last: "plain_comp f \<Longrightarrow> \<exists>pre. path_join [d, f] = pre @ f"
  using clean_last [of f d] clean_comps_plain [of "[f]"]
  by (cases "d = []") (auto simp: path_join_def clean_def split_on_plain plain_comp_def Let_def)

subsection \<open>UTF-8 decoding\<close>

definition cont_byte :: "nat \<Rightarrow> nat \<Rightarrow> nat \<Rightarrow> bool" where
  "cont_byte lo hi b = (lo \<le> b \<and> b \<le> hi)"

text \<open>
  \<^verbatim>\<open>utf8.DecodeRuneInString\<close>: the rune and its width; an invalid byte is the error rune
  \<^verbatim>\<open>U+FFFD\<close> with width 1, and the empty string has width 0.
\<close>

definition decode_rune :: "string \<Rightarrow> nat \<times> nat" where
  "decode_rune s =
     (case map of_char (take 4 s) of
        [] \<Rightarrow> (0xFFFD, 0)
      | b0 # bs \<Rightarrow>
        if b0 < 0x80 then (b0, 1)
        else if 0xC2 \<le> b0 \<and> b0 \<le> 0xDF then
          (case bs of b1 # _ \<Rightarrow> if cont_byte 0x80 0xBF b1 then ((b0 - 0xC0) * 64 + (b1 - 0x80), 2) else (0xFFFD, 1)
           | [] \<Rightarrow> (0xFFFD, 1))
        else if 0xE0 \<le> b0 \<and> b0 \<le> 0xEF then
          (case bs of b1 # b2 # _ \<Rightarrow>
             if cont_byte (if b0 = 0xE0 then 0xA0 else 0x80) (if b0 = 0xED then 0x9F else 0xBF) b1 \<and> cont_byte 0x80 0xBF b2
             then ((b0 - 0xE0) * 4096 + (b1 - 0x80) * 64 + (b2 - 0x80), 3) else (0xFFFD, 1)
           | _ \<Rightarrow> (0xFFFD, 1))
        else if 0xF0 \<le> b0 \<and> b0 \<le> 0xF4 then
          (case bs of b1 # b2 # b3 # _ \<Rightarrow>
             if cont_byte (if b0 = 0xF0 then 0x90 else 0x80) (if b0 = 0xF4 then 0x8F else 0xBF) b1
                \<and> cont_byte 0x80 0xBF b2 \<and> cont_byte 0x80 0xBF b3
             then ((b0 - 0xF0) * 262144 + (b1 - 0x80) * 4096 + (b2 - 0x80) * 64 + (b3 - 0x80), 4) else (0xFFFD, 1)
           | _ \<Rightarrow> (0xFFFD, 1))
        else (0xFFFD, 1))"

lemma decode_rune_width: "s \<noteq> [] \<Longrightarrow> 1 \<le> snd (decode_rune s)"
  by (cases s) (auto simp: decode_rune_def split: list.splits)

subsection \<open>Match\<close>

text \<open>\<^verbatim>\<open>getEsc\<close>: one possibly escaped rune of a class; \<^term>\<open>None\<close> is \<^verbatim>\<open>ErrBadPattern\<close>.\<close>

definition getEsc :: "string \<Rightarrow> (nat \<times> string) option" where
  "getEsc chunk =
     (if chunk = '''' \<or> hd chunk = CHR ''-'' \<or> hd chunk = CHR '']'' then None
      else let c = (if hd chunk = CHR 0x5C then tl chunk else chunk) in
        if c = '''' then None
        else let (r, n) = decode_rune c in
          if r = 0xFFFD \<and> n = 1 then None
          else if drop n c = '''' then None else Some (r, drop n c))"

lemma getEsc_shorter: "getEsc chunk = Some (r, rest) \<Longrightarrow> length rest < length chunk"
proof -
  assume esc: "getEsc chunk = Some (r, rest)"
  define c where "c = (if hd chunk = CHR 0x5C then tl chunk else chunk)"
  from esc have "c \<noteq> []" "chunk \<noteq> []" "rest = drop (snd (decode_rune c)) c"
    by (auto simp: getEsc_def Let_def c_def split: if_splits prod.splits)
  moreover from this have "1 \<le> snd (decode_rune c)" using decode_rune_width by blast
  moreover have "length c \<le> length chunk" by (simp add: c_def)
  ultimately show ?thesis by (cases c) auto
qed

text \<open>The ranges of a character class, up to and including its closing bracket.\<close>

function class_ranges :: "nat \<Rightarrow> bool \<Rightarrow> bool \<Rightarrow> string \<Rightarrow> (bool \<times> string) option" where
  "class_ranges r matched any chunk =
     (if chunk \<noteq> '''' \<and> hd chunk = CHR '']'' \<and> any then Some (matched, tl chunk)
      else case getEsc chunk of
          None \<Rightarrow> None
        | Some (lo, rest) \<Rightarrow>
            if hd rest = CHR ''-'' then
              (case getEsc (tl rest) of
                 None \<Rightarrow> None
               | Some (hi, rest2) \<Rightarrow> class_ranges r (matched \<or> lo \<le> r \<and> r \<le> hi) True rest2)
            else class_ranges r (matched \<or> lo = r) True rest)"
  by pat_completeness auto
termination
  by (relation "measure (\<lambda>(r, m, a, chunk). length chunk)")
    (auto dest!: getEsc_shorter simp: less_Suc_eq_le)

declare class_ranges.simps [simp del]

lemma class_ranges_shorter:
  "class_ranges r m any chunk = Some (m', rest) \<Longrightarrow> length rest < length chunk"
proof (induction r m any chunk arbitrary: m' rest rule: class_ranges.induct)
  case (1 r m any chunk)
  show ?case
  proof (cases "chunk \<noteq> '''' \<and> hd chunk = CHR '']'' \<and> any")
    case True
    with 1 show ?thesis by (subst (asm) (3) class_ranges.simps) auto
  next
    case False
    with 1(3) obtain lo r1 where esc: "getEsc chunk = Some (lo, r1)"
      by (subst (asm) class_ranges.simps) (auto split: option.splits if_splits)
    note l1 = getEsc_shorter [OF esc]
    show ?thesis
    proof (cases "hd r1 = CHR ''-''")
      case True
      with False 1(3) esc obtain hi r2 where esc2: "getEsc (tl r1) = Some (hi, r2)"
        and rec: "class_ranges r (m \<or> lo \<le> r \<and> r \<le> hi) True r2 = Some (m', rest)"
        by (subst (asm) class_ranges.simps) (auto split: option.splits if_splits)
      from 1(1) [OF False esc refl True esc2 refl rec] getEsc_shorter [OF esc2] l1 show ?thesis
        by simp
    next
      case minus: False
      with False 1(3) esc have rec: "class_ranges r (m \<or> lo = r) True r1 = Some (m', rest)"
        by (subst (asm) class_ranges.simps) (auto split: option.splits if_splits)
      from 1(2) [OF False esc refl minus rec] l1 show ?thesis by simp
    qed
  qed
qed
text \<open>
  \<^verbatim>\<open>matchChunk\<close>: \<^term>\<open>None\<close> for a malformed chunk, \<^term>\<open>Some None\<close> for a mismatch,
  otherwise what is left of the name. After a mismatch the chunk is still parsed to its end.
\<close>

function match_chunk :: "bool \<Rightarrow> string \<Rightarrow> string \<Rightarrow> string option option" where
  "match_chunk failed0 chunk s =
     (case chunk of
        [] \<Rightarrow> Some (if failed0 then None else Some s)
      | c # cs \<Rightarrow>
        let failed = failed0 \<or> s = '''' in
        if c = CHR ''['' then
          (let (r, n) = (if failed then (0, 0) else decode_rune s);
               negated = (cs \<noteq> '''' \<and> hd cs = CHR ''^'') in
           case class_ranges r False False (if negated then tl cs else cs) of
             None \<Rightarrow> None
           | Some (matched, rest) \<Rightarrow> match_chunk (failed \<or> matched = negated) rest (drop n s))
        else if c = CHR ''?'' then
          match_chunk (failed \<or> hd s = CHR ''/'') cs (if failed then s else drop (snd (decode_rune s)) s)
        else if c = CHR 0x5C then
          (case cs of [] \<Rightarrow> None
           | d # ds \<Rightarrow> match_chunk (failed \<or> d \<noteq> hd s) ds (if failed then s else tl s))
        else match_chunk (failed \<or> c \<noteq> hd s) cs (if failed then s else tl s))"
  by pat_completeness auto
termination
proof (relation "measure (\<lambda>(failed, chunk, s). length chunk)", goal_cases)
  case (2 failed0 chunk s c cs failed x r n negated x2 matched rest)
  then have "class_ranges r False False (if negated then tl cs else cs) = Some (matched, rest)" by simp
  then have "length rest < length (if negated then tl cs else cs)" by (rule class_ranges_shorter)
  also have "\<dots> \<le> length cs" by simp
  finally show ?case using 2(1) by simp
qed auto

declare match_chunk.simps [simp del]

fun scan_body :: "bool \<Rightarrow> string \<Rightarrow> string \<times> string" where
  "scan_body inrange [] = ('''', '''')"
| "scan_body inrange (c # cs) =
     (if c = CHR 0x5C then
        (case cs of [] \<Rightarrow> ([c], '''')
         | d # ds \<Rightarrow> (let (x, y) = scan_body inrange ds in (c # d # x, y)))
      else if c = CHR ''*'' \<and> \<not> inrange then ('''', c # cs)
      else (let (x, y) = scan_body (if c = CHR ''['' then True else if c = CHR '']'' then False else inrange) cs
            in (c # x, y)))"

fun star_skip :: "string \<Rightarrow> bool \<Rightarrow> string \<Rightarrow> string option" where
  "star_skip chunk final [] = None"
| "star_skip chunk final (c # cs) =
     (if c = CHR ''/'' then None
      else case match_chunk False chunk cs of
          None \<Rightarrow> None
        | Some None \<Rightarrow> star_skip chunk final cs
        | Some (Some t) \<Rightarrow> if final \<and> t \<noteq> '''' then star_skip chunk final cs else Some t)"

lemma scan_body_append: "scan_body inr s = (x, y) \<Longrightarrow> s = x @ y"
proof (induction inr s arbitrary: x y rule: scan_body.induct)
  case (2 inr c cs)
  consider "c = CHR 0x5C" | "c \<noteq> CHR 0x5C" "c = CHR ''*'' \<and> \<not> inr" | "c \<noteq> CHR 0x5C" "\<not> (c = CHR ''*'' \<and> \<not> inr)"
    by blast
  then show ?case
  proof cases
    case 1
    with 2 show ?thesis by (cases cs) (simp_all split: prod.splits)
  next
    case 2
    with "2.prems" show ?thesis by simp
  next
    case 3
    with "2.prems" obtain x' where "scan_body (if c = CHR ''['' then True else if c = CHR '']'' then False else inr) cs
        = (x', y)" "x = c # x'"
      by (simp split: prod.splits if_splits)
    with "2.IH"(2) [OF 3] show ?thesis by simp
  qed
qed simp

lemma scan_body_shorter:
  assumes "pattern \<noteq> ''''"
    and "scan_body False (dropWhile (\<lambda>c. c = CHR ''*'') pattern) = (chunk, rest)"
  shows "length rest < length pattern"
proof (cases "hd pattern = CHR ''*''")
  case True
  with assms(1) have "length (dropWhile (\<lambda>c. c = CHR ''*'') pattern) < length pattern"
    by (cases pattern) (auto simp: less_Suc_eq_le length_dropWhile_le)
  with scan_body_append [OF assms(2)] show ?thesis by simp
next
  case False
  with assms(1) obtain c cs where p: "pattern = c # cs" "c \<noteq> CHR ''*''" by (cases pattern) auto
  with assms(2) have "chunk \<noteq> ''''" by (auto split: if_splits list.splits prod.splits)
  with scan_body_append [OF assms(2)] p show ?thesis by simp
qed

text \<open>
  \<^verbatim>\<open>filepath.Match\<close>, its first result: the callers drop the error of a malformed pattern,
  which always comes with "no match".
\<close>

function glob :: "string \<Rightarrow> string \<Rightarrow> bool" where
  "glob pattern name =
     (if pattern = '''' then name = ''''
      else let star = (hd pattern = CHR ''*'');
               (chunk, rest) = scan_body False (dropWhile (\<lambda>c. c = CHR ''*'') pattern) in
        if star \<and> chunk = '''' then CHR ''/'' \<notin> set name
        else case match_chunk False chunk name of
            None \<Rightarrow> False
          | Some r \<Rightarrow>
              if r \<noteq> None \<and> (the r = '''' \<or> rest \<noteq> '''') then glob rest (the r)
              else if star then
                (case star_skip chunk (rest = '''') name of None \<Rightarrow> False | Some t \<Rightarrow> glob rest t)
              else False)"
  by pat_completeness auto
termination
  by (relation "measure (\<lambda>(pattern, name). length pattern)") (auto dest: scan_body_shorter [OF _ sym])

declare glob.simps [simp del]

subsection \<open>Globs without meta characters\<close>

definition literal :: "string \<Rightarrow> bool" where
  "literal p = list_all (\<lambda>c. c \<notin> set ''*?['' \<and> c \<noteq> CHR 0x5C) p"

lemma literal_simps [simp]:
  "literal []" "literal (c # cs) \<longleftrightarrow> c \<notin> set ''*?['' \<and> c \<noteq> CHR 0x5C \<and> literal cs"
  "literal (p @ q) \<longleftrightarrow> literal p \<and> literal q"
  by (auto simp: literal_def)

lemma scan_body_literal: "literal p \<Longrightarrow> scan_body False (p @ ''*'') = (p, ''*'')"
  by (induction p) auto

lemma match_chunk_literal:
  "literal p \<Longrightarrow> match_chunk failed p s = Some (if failed then None else cut_prefix s p)"
proof (induction p arbitrary: failed s)
  case Nil
  then show ?case by (simp add: match_chunk.simps cut_prefix_def has_prefix_def)
next
  case (Cons c p)
  then show ?case
    by (cases s) (simp_all add: match_chunk.simps [of failed "c # p"] cut_prefix_def has_prefix_def)
qed

lemma glob_literal_star:
  assumes "literal p" "p \<noteq> ''''"
  shows "glob (p @ ''*'') name \<longleftrightarrow> (\<exists>t. name = p @ t \<and> CHR ''/'' \<notin> set t)"
proof -
  have nonstar: "hd (p @ ''*'') \<noteq> CHR ''*''" "p \<noteq> ''''" using assms by (cases p; auto)+
  have star: "glob ''*'' t \<longleftrightarrow> CHR ''/'' \<notin> set t" for t by (simp add: glob.simps)
  have "scan_body False (dropWhile (\<lambda>c. c = CHR ''*'') (p @ ''*'')) = (p, ''*'')"
    using scan_body_literal [OF assms(1)] nonstar by (cases p) simp_all
  then have "glob (p @ ''*'') name \<longleftrightarrow> cut_prefix name p \<noteq> None \<and> glob ''*'' (the (cut_prefix name p))"
    using nonstar by (subst glob.simps) (simp add: match_chunk_literal [OF assms(1)] del: hd_append)
  then show ?thesis by (auto simp: star cut_prefix_def has_prefix_iff)
qed

subsection \<open>What a reader sees of the host's files\<close>

text \<open>
  \<^verbatim>\<open>fs_dir\<close> is \<^verbatim>\<open>os.ReadDir\<close> (the names, sorted by the library), \<^verbatim>\<open>fs_file\<close> is
  \<^verbatim>\<open>os.ReadFile\<close> and \<^verbatim>\<open>fs_stat\<close> is \<^verbatim>\<open>os.Stat\<close> (whether it is a directory); \<^term>\<open>None\<close>
  is the call's error.
\<close>

record fsys =
  fs_dir :: "string \<Rightarrow> string list option"
  fs_file :: "string \<Rightarrow> bytes option"
  fs_stat :: "string \<Rightarrow> bool option"

definition fileExists :: "fsys \<Rightarrow> string \<Rightarrow> bool" where
  "fileExists fs p = (fs_stat fs p = Some False)"

end
