(* ===== verification/Platform_Firmware.thy ===== *)
theory Platform_Firmware
  imports Go_Filepath
begin

section \<open>UEFI firmware: the descriptor registry and the fallback table\<close>

text \<open>
  Models \<^verbatim>\<open>src/platform/firmware.go\<close>. The directories, files and \<^verbatim>\<open>os.Stat\<close> answers come
  from an \<open>fsys\<close>; decoding a descriptor's JSON is the argument \<open>unmarshal\<close>, with \<^term>\<open>None\<close>
  for a decoding error. The theorems give the exact candidate list of the registry (sorted base
  names, an earlier directory masking a later one), the exact answer of \<open>resolveFirmware\<close>, and
  which descriptors may contribute with and without secure boot.
\<close>

subsection \<open>Definitions\<close>

record target =
  Architecture :: string
  Machines :: "string list"

record descriptor =
  Description :: string
  InterfaceTypes :: "string list"
  Device :: string
  Executable :: string
  NVRAMTemplate :: string
  Targets :: "target list"
  Features :: "string list"

type_synonym pair = "string \<times> string"

definition machineMatches :: "string \<Rightarrow> string \<Rightarrow> bool" where
  "machineMatches pattern machine =
     (if glob pattern machine then True
      else let base = trim_suffix pattern ''-*'' in
        if base \<noteq> pattern then base = machine \<or> has_suffix base (''-'' @ machine) else False)"

fun matchesTarget_loop :: "target list \<Rightarrow> string \<Rightarrow> string \<Rightarrow> bool" where
  "matchesTarget_loop [] fwArch machine = False"
| "matchesTarget_loop (t # ts) fwArch machine =
     (if Architecture t \<noteq> fwArch then matchesTarget_loop ts fwArch machine
      else if list_ex (\<lambda>m. machineMatches m machine) (Machines t) then True
      else matchesTarget_loop ts fwArch machine)"

definition matchesTarget :: "descriptor \<Rightarrow> string \<Rightarrow> string \<Rightarrow> bool" where
  "matchesTarget d fwArch machine = matchesTarget_loop (Targets d) fwArch machine"

definition suitable :: "descriptor \<Rightarrow> string \<Rightarrow> string \<Rightarrow> bool \<Rightarrow> bool" where
  "suitable d fwArch machine secureBoot =
     (if Device d \<noteq> ''flash'' \<or> Executable d = '''' \<or> NVRAMTemplate d = '''' then False
      else if ''uefi'' \<notin> set (InterfaceTypes d) then False
      else if secureBoot then ''secure-boot'' \<in> set (Features d) \<and> matchesTarget d fwArch machine
      else if ''requires-smm'' \<in> set (Features d) \<or> ''secure-boot'' \<in> set (Features d) then False
      else matchesTarget d fwArch machine)"

text \<open>The two loops over the directories: \<open>seen\<close> maps a base name to the file that won it.\<close>

fun scan_entries ::
  "string \<Rightarrow> string list \<Rightarrow> (string \<rightharpoonup> string) \<times> string list \<Rightarrow> (string \<rightharpoonup> string) \<times> string list" where
  "scan_entries dir [] st = st"
| "scan_entries dir (n # ns) (seen, names) =
     (if \<not> has_suffix n ''.json'' then scan_entries dir ns (seen, names)
      else if seen n \<noteq> None then scan_entries dir ns (seen, names)
      else scan_entries dir ns (seen(n \<mapsto> path_join [dir, n]), names @ [n]))"

fun scan_dirs ::
  "fsys \<Rightarrow> string list \<Rightarrow> (string \<rightharpoonup> string) \<times> string list \<Rightarrow> (string \<rightharpoonup> string) \<times> string list" where
  "scan_dirs fs [] st = st"
| "scan_dirs fs (dir # dirs) st =
     (case fs_dir fs dir of
        None \<Rightarrow> scan_dirs fs dirs st
      | Some entries \<Rightarrow> scan_dirs fs dirs (scan_entries dir entries st))"

definition descriptor_pair ::
  "fsys \<Rightarrow> (bytes \<Rightarrow> descriptor option) \<Rightarrow> string \<Rightarrow> string \<Rightarrow> bool \<Rightarrow> string \<Rightarrow> pair option" where
  "descriptor_pair fs unmarshal fwArch machine secureBoot path =
     (case fs_file fs path of
        None \<Rightarrow> None
      | Some b \<Rightarrow>
        (case unmarshal b of
           None \<Rightarrow> None
         | Some d \<Rightarrow>
             if suitable d fwArch machine secureBoot then Some (Executable d, NVRAMTemplate d) else None))"

definition scanRegistry ::
  "fsys \<Rightarrow> (bytes \<Rightarrow> descriptor option) \<Rightarrow> string list \<Rightarrow> string \<Rightarrow> string \<Rightarrow> bool \<Rightarrow> pair list" where
  "scanRegistry fs unmarshal dirs fwArch machine secureBoot =
     (let (seen, names) = scan_dirs fs dirs (Map.empty, []) in
      List.map_filter (\<lambda>n. descriptor_pair fs unmarshal fwArch machine secureBoot (the (seen n))) (sort names))"

definition registryDirs :: "string list" where
  "registryDirs = [''/etc/qemu/firmware'', ''/usr/share/qemu/firmware'',
     ''/opt/homebrew/share/qemu/firmware'', ''/usr/local/share/qemu/firmware'']"

definition fallbackTable :: "string \<Rightarrow> pair list" where
  "fallbackTable arch =
     (if arch = ''aarch64'' then
        [(''/opt/homebrew/share/qemu/edk2-aarch64-code.fd'', ''/opt/homebrew/share/qemu/edk2-arm-vars.fd''),
         (''/usr/local/share/qemu/edk2-aarch64-code.fd'', ''/usr/local/share/qemu/edk2-arm-vars.fd''),
         (''/usr/share/AAVMF/AAVMF_CODE.fd'', ''/usr/share/AAVMF/AAVMF_VARS.fd''),
         (''/usr/share/edk2/aarch64/QEMU_EFI.fd'', ''/usr/share/edk2/aarch64/QEMU_VARS.fd'')]
      else if arch = ''x86_64'' then
        [(''/opt/homebrew/share/qemu/edk2-x86_64-code.fd'', ''/opt/homebrew/share/qemu/edk2-i386-vars.fd''),
         (''/usr/local/share/qemu/edk2-x86_64-code.fd'', ''/usr/local/share/qemu/edk2-i386-vars.fd''),
         (''/usr/share/edk2/x64/OVMF_CODE.4m.fd'', ''/usr/share/edk2/x64/OVMF_VARS.4m.fd''),
         (''/usr/share/OVMF/OVMF_CODE_4M.fd'', ''/usr/share/OVMF/OVMF_VARS_4M.fd''),
         (''/usr/share/edk2/ovmf/OVMF_CODE.fd'', ''/usr/share/edk2/ovmf/OVMF_VARS.fd''),
         (''/usr/share/OVMF/OVMF_CODE.fd'', ''/usr/share/OVMF/OVMF_VARS.fd'')]
      else [])"

definition secureFallbackTable :: "string \<Rightarrow> pair list" where
  "secureFallbackTable arch =
     (if arch = ''x86_64'' then
        [(''/usr/share/edk2/x64/OVMF_CODE.secboot.4m.fd'', ''/usr/share/edk2/x64/OVMF_VARS.4m.fd''),
         (''/usr/share/OVMF/OVMF_CODE_4M.secboot.fd'', ''/usr/share/OVMF/OVMF_VARS_4M.fd''),
         (''/usr/share/edk2/ovmf/OVMF_CODE.secboot.fd'', ''/usr/share/edk2/ovmf/OVMF_VARS.fd''),
         (''/usr/share/OVMF/OVMF_CODE.secboot.fd'', ''/usr/share/OVMF/OVMF_VARS.fd'')]
      else [])"

text \<open>What the error names: a pair, and whether a descriptor or the table proposed it.\<close>

datatype tried = Named_by_descriptor pair | Table_path pair

datatype firmware_error =
  No_firmware (nf_arch: string) (nf_machine: string) (nf_goos: string) (nf_dirs: "string list") (nf_tried: "tried list")

definition pair_exists :: "fsys \<Rightarrow> pair \<Rightarrow> bool" where
  "pair_exists fs p = (fileExists fs (fst p) \<and> fileExists fs (snd p))"

text \<open>One of the two candidate loops: it returns from the function at the first usable pair.\<close>

fun try_pairs :: "fsys \<Rightarrow> (pair \<Rightarrow> tried) \<Rightarrow> pair list \<Rightarrow> tried list \<Rightarrow> pair + tried list" where
  "try_pairs fs note_as [] tr = Inr tr"
| "try_pairs fs note_as (p # ps) tr =
     (if pair_exists fs p then Inl p else try_pairs fs note_as ps (tr @ [note_as p]))"

definition resolveFirmware ::
  "fsys \<Rightarrow> (bytes \<Rightarrow> descriptor option) \<Rightarrow> string list \<Rightarrow> (string \<Rightarrow> pair list) \<Rightarrow> string \<Rightarrow> string \<Rightarrow>
     string \<Rightarrow> bool \<Rightarrow> firmware_error + pair" where
  "resolveFirmware fs unmarshal dirs table goos fwArch machine secureBoot =
     (case try_pairs fs Named_by_descriptor (scanRegistry fs unmarshal dirs fwArch machine secureBoot) [] of
        Inl p \<Rightarrow> Inr p
      | Inr tr1 \<Rightarrow>
        (case try_pairs fs Table_path (table fwArch) tr1 of
           Inl p \<Rightarrow> Inr p
         | Inr tr2 \<Rightarrow> Inl (No_firmware fwArch machine goos dirs tr2)))"

subsection \<open>Machine globs\<close>

text \<open>
  A descriptor glob \<^verbatim>\<open>STEM-*\<close> whose stem has no meta character matches exactly the
  versioned machine types \<^verbatim>\<open>STEM-...\<close>, the stem itself, and every alias the stem ends in
  behind a dash: \<^verbatim>\<open>pc-q35-*\<close> matches \<^verbatim>\<open>q35\<close> although \<^verbatim>\<open>filepath.Match\<close> does not.
\<close>

theorem machineMatches_stem:
  assumes "literal stem"
  shows "machineMatches (stem @ ''-*'') machine \<longleftrightarrow>
     (\<exists>t. machine = stem @ ''-'' @ t \<and> CHR ''/'' \<notin> set t) \<or> machine = stem
       \<or> (\<exists>t. stem = t @ ''-'' @ machine)"
proof -
  have "glob (stem @ ''-*'') machine \<longleftrightarrow> (\<exists>t. machine = (stem @ ''-'') @ t \<and> CHR ''/'' \<notin> set t)"
    using glob_literal_star [of "stem @ ''-''" machine] assms by simp
  then show ?thesis
    by (simp add: machineMatches_def Let_def has_suffix_iff) blast
qed

theorem machineMatches_stem_witness:
  "literal ''pc-q35'' \<and> machineMatches (''pc-q35'' @ ''-*'') ''q35'' \<and> \<not> machineMatches (''pc-i440fx'' @ ''-*'') ''q35''"
proof -
  have "machineMatches (''pc-q35'' @ ''-*'') ''q35''"
  proof -
    have "\<exists>t. ''pc-q35'' = t @ ''-'' @ ''q35''" by (rule exI [of _ "''pc''"]) simp
    then show ?thesis using machineMatches_stem [of "''pc-q35''" "''q35''"] by simp
  qed
  moreover have "\<not> (\<exists>t. ''pc-i440fx'' = t @ ''-'' @ ''q35'')"
  proof
    assume "\<exists>t. ''pc-i440fx'' = t @ ''-'' @ ''q35''"
    then have "has_suffix ''pc-i440fx'' ''-q35''" by (simp add: has_suffix_iff)
    then show False by (simp add: has_suffix_def)
  qed
  ultimately show ?thesis using machineMatches_stem [of "''pc-i440fx''" "''q35''"] by simp
qed

subsection \<open>The registry\<close>

text \<open>The reference reading of the registry: what is listed, who wins a base name, in which order.\<close>

definition lists :: "fsys \<Rightarrow> string \<Rightarrow> string \<Rightarrow> bool" where
  "lists fs n dir = (case fs_dir fs dir of None \<Rightarrow> False | Some es \<Rightarrow> n \<in> set es)"

definition registry_names :: "fsys \<Rightarrow> string list \<Rightarrow> string set" where
  "registry_names fs dirs = {n. has_suffix n ''.json'' \<and> (\<exists>dir \<in> set dirs. lists fs n dir)}"

definition registry_winner :: "fsys \<Rightarrow> string list \<Rightarrow> string \<Rightarrow> string option" where
  "registry_winner fs dirs n =
     (if has_suffix n ''.json'' then map_option (\<lambda>dir. path_join [dir, n]) (find (lists fs n) dirs) else None)"

definition scan_inv :: "(string \<rightharpoonup> string) \<times> string list \<Rightarrow> bool" where
  "scan_inv st = (distinct (snd st) \<and> set (snd st) = dom (fst st))"

lemma scan_entries_inv: "scan_inv st \<Longrightarrow> scan_inv (scan_entries dir ns st)"
  by (induction dir ns st rule: scan_entries.induct) (auto simp: scan_inv_def)

lemma scan_dirs_inv: "scan_inv st \<Longrightarrow> scan_inv (scan_dirs fs dirs st)"
proof (induction dirs arbitrary: st)
  case (Cons dir dirs)
  then show ?case by (cases "fs_dir fs dir") (simp_all add: scan_entries_inv)
qed simp

lemma scan_entries_seen:
  "fst (scan_entries dir ns st) n =
     (case fst st n of Some p \<Rightarrow> Some p
      | None \<Rightarrow> if has_suffix n ''.json'' \<and> n \<in> set ns then Some (path_join [dir, n]) else None)"
  by (induction dir ns st rule: scan_entries.induct) (auto split: option.splits)

lemma scan_dirs_seen:
  "fst (scan_dirs fs dirs st) n = (case fst st n of Some p \<Rightarrow> Some p | None \<Rightarrow> registry_winner fs dirs n)"
  by (induction dirs arbitrary: st)
    (auto simp: registry_winner_def lists_def scan_entries_seen split: option.splits)

lemma registry_winner_dom: "dom (registry_winner fs dirs) = registry_names fs dirs"
proof -
  have "find (lists fs n) dirs \<noteq> None \<longleftrightarrow> (\<exists>dir \<in> set dirs. lists fs n dir)" for n
    by (auto simp: find_None_iff)
  then show ?thesis by (simp add: registry_winner_def registry_names_def dom_def) blast
qed

lemma scan_dirs_result:
  "fst (scan_dirs fs dirs (Map.empty, [])) = registry_winner fs dirs"
  "sort (snd (scan_dirs fs dirs (Map.empty, []))) = sorted_list_of_set (registry_names fs dirs)"
proof -
  let ?r = "scan_dirs fs dirs (Map.empty, [])"
  show seen: "fst ?r = registry_winner fs dirs" by (rule ext) (simp add: scan_dirs_seen)
  have "scan_inv ?r" by (rule scan_dirs_inv) (simp add: scan_inv_def)
  then have "distinct (snd ?r)" "set (snd ?r) = registry_names fs dirs"
    by (simp_all add: scan_inv_def seen registry_winner_dom)
  then show "sort (snd ?r) = sorted_list_of_set (registry_names fs dirs)"
    by (metis sorted_list_of_set_sort_remdups distinct_remdups_id)
qed

text \<open>
  C38. The registry scan returns one candidate per suitable descriptor, in the order of the base
  names, where a base name listed by several directories stands for the file of the first one
  only: an administrator's file under \<^verbatim>\<open>/etc\<close> masks the distribution's, even when it is not
  suitable itself.
\<close>

theorem scanRegistry_reference:
  "scanRegistry fs unmarshal dirs fwArch machine secureBoot =
     List.map_filter (\<lambda>n. descriptor_pair fs unmarshal fwArch machine secureBoot (the (registry_winner fs dirs n)))
       (sorted_list_of_set (registry_names fs dirs))"
  using scan_dirs_result [of fs dirs]
  by (simp add: scanRegistry_def split_beta)

subsection \<open>Resolution\<close>

lemma try_pairs_spec:
  "try_pairs fs g ps tr =
     (case find (pair_exists fs) ps of Some p \<Rightarrow> Inl p | None \<Rightarrow> Inr (tr @ map g ps))"
  by (induction ps arbitrary: tr) (auto split: option.splits)

text \<open>
  \<open>resolveFirmware\<close> answers the first pair of registry candidates followed by table entries
  of which both files exist, and fails exactly when no candidate's two files exist, naming every
  candidate it tried in order.
\<close>

theorem resolveFirmware_first:
  "resolveFirmware fs unmarshal dirs table goos fwArch machine secureBoot =
     (let reg = scanRegistry fs unmarshal dirs fwArch machine secureBoot in
      case find (pair_exists fs) (reg @ table fwArch) of
        Some p \<Rightarrow> Inr p
      | None \<Rightarrow> Inl (No_firmware fwArch machine goos dirs
                     (map Named_by_descriptor reg @ map Table_path (table fwArch))))"
  by (simp add: resolveFirmware_def try_pairs_spec find_append Let_def split: option.splits)

lemma scanRegistry_member:
  assumes "p \<in> set (scanRegistry fs unmarshal dirs fwArch machine secureBoot)"
  shows "\<exists>path b d. fs_file fs path = Some b \<and> unmarshal b = Some d \<and> suitable d fwArch machine secureBoot
           \<and> p = (Executable d, NVRAMTemplate d)"
proof -
  from assms obtain path where "descriptor_pair fs unmarshal fwArch machine secureBoot path = Some p"
    by (auto simp: scanRegistry_def split_beta List.map_filter_def)
  then show ?thesis
    unfolding descriptor_pair_def by (auto split: option.splits if_splits)
qed

lemma suitable_features:
  "suitable d fwArch machine secureBoot \<Longrightarrow>
     (''secure-boot'' \<in> set (Features d) \<longleftrightarrow> secureBoot) \<and> (''requires-smm'' \<in> set (Features d) \<longrightarrow> secureBoot)"
  by (auto simp: suitable_def split: if_splits)

text \<open>
  Secure and plain firmware never mix: a pair the resolver returns is installed, and it is
  either a table entry or named by a readable descriptor that advertises \<^verbatim>\<open>secure-boot\<close>
  exactly when secure boot was asked for, and that needs SMM only then.
\<close>

theorem resolveFirmware_secure_boot:
  assumes "resolveFirmware fs unmarshal dirs table goos fwArch machine secureBoot = Inr p"
  shows "pair_exists fs p \<and>
    (p \<in> set (table fwArch) \<or>
     (\<exists>path b d. fs_file fs path = Some b \<and> unmarshal b = Some d \<and> p = (Executable d, NVRAMTemplate d)
        \<and> (''secure-boot'' \<in> set (Features d) \<longleftrightarrow> secureBoot)
        \<and> (''requires-smm'' \<in> set (Features d) \<longrightarrow> secureBoot)))"
proof -
  let ?reg = "scanRegistry fs unmarshal dirs fwArch machine secureBoot"
  from assms have "find (pair_exists fs) (?reg @ table fwArch) = Some p"
    by (simp add: resolveFirmware_def try_pairs_spec find_append split: option.splits)
  then have "pair_exists fs p" "p \<in> set ?reg \<or> p \<in> set (table fwArch)"
    by (auto dest: find_SomeD)
  moreover have "\<exists>path b d. fs_file fs path = Some b \<and> unmarshal b = Some d \<and> p = (Executable d, NVRAMTemplate d)
        \<and> (''secure-boot'' \<in> set (Features d) \<longleftrightarrow> secureBoot)
        \<and> (''requires-smm'' \<in> set (Features d) \<longrightarrow> secureBoot)" if "p \<in> set ?reg"
    using scanRegistry_member [OF that] suitable_features by blast
  ultimately show ?thesis by blast
qed
text \<open>A host with one installed secure-boot descriptor.\<close>

definition secure_descriptor :: descriptor where
  "secure_descriptor = \<lparr>Description = ''secure'', InterfaceTypes = [''uefi''], Device = ''flash'',
     Executable = ''/fw/code.fd'', NVRAMTemplate = ''/fw/vars.fd'',
     Targets = [\<lparr>Architecture = ''x86_64'', Machines = [''q35'']\<rparr>],
     Features = [''secure-boot'', ''requires-smm'']\<rparr>"

definition secure_host :: fsys where
  "secure_host = \<lparr>fs_dir = [''/d'' \<mapsto> [''50-sb.json'']], fs_file = [''/d/50-sb.json'' \<mapsto> ''sb''],
     fs_stat = [''/fw/code.fd'' \<mapsto> False, ''/fw/vars.fd'' \<mapsto> False]\<rparr>"

lemma glob_q35: "glob ''q35'' ''q35''"
  by (simp add: glob.simps match_chunk_literal cut_prefix_def has_prefix_def)

lemma secure_host_resolves:
  "resolveFirmware secure_host [''sb'' \<mapsto> secure_descriptor] [''/d''] (\<lambda>_. []) ''linux'' ''x86_64'' ''q35'' True
     = Inr (''/fw/code.fd'', ''/fw/vars.fd'')"
  by (simp add: resolveFirmware_def scanRegistry_def secure_host_def has_suffix_def path_join_def clean_def
      clean_comps_def descriptor_pair_def suitable_def matchesTarget_def secure_descriptor_def machineMatches_def
      glob_q35 pair_exists_def fileExists_def List.map_filter_def)

theorem resolveFirmware_secure_boot_witness:
  "resolveFirmware secure_host [''sb'' \<mapsto> secure_descriptor] [''/d''] (\<lambda>_. []) ''linux'' ''x86_64'' ''q35'' True
     = Inr (''/fw/code.fd'', ''/fw/vars.fd'')
   \<and> pair_exists secure_host (''/fw/code.fd'', ''/fw/vars.fd'')"
  using secure_host_resolves resolveFirmware_secure_boot [OF secure_host_resolves] by simp

end
