(* ===== verification/Platform_Host.thy ===== *)
theory Platform_Host
  imports Platform_Firmware
begin

section \<open>Host detection: architecture, accelerator, firmware\<close>

text \<open>
  Models \<^verbatim>\<open>src/platform/platform.go\<close> and \<^verbatim>\<open>src/platform/accel.go\<close>. A \<open>host\<close> record holds
  what the code asks of the machine it runs on: \<^verbatim>\<open>runtime.GOOS\<close> and \<^verbatim>\<open>GOARCH\<close>, the outcome
  of \<^verbatim>\<open>qemu-system-X -accel help\<close>, the outcome of opening \<^verbatim>\<open>/dev/kvm\<close>, and the files.
  Error messages are constructors that carry what the message quotes. The theorems show that
  \<open>Detect\<close> never degrades: it succeeds exactly on a supported host whose accelerator is both
  compiled in and usable and whose firmware is installed.
\<close>

subsection \<open>Definitions\<close>

datatype open_error = Not_exist | Other_errno string

datatype kvmDiag = kvmOK | kvmMissing | kvmNoPerm

text \<open>The outcome of the probe process: its output, a failure, or a failure past the deadline.\<close>

datatype probe = Probe_output string | Probe_failed string | Probe_deadline

record archInfo =
  ai_qemuBinary :: string
  ai_machine :: string
  ai_console :: string
  ai_imageArch :: string
  ai_fwArch :: string
  ai_tpmDevice :: string

datatype accel_reason = Not_compiled string | Kvm_missing | Kvm_unopenable open_error | Accel_vague string

datatype detect_error =
  Unsupported_arch string
| Unsupported_os string
| Probe_timed_out string
| Probe_error string string
| No_accelerator string string accel_reason
| Firmware_missing firmware_error

record Platform =
  OS :: string
  QEMUBinary :: string
  Machine :: string
  Accel :: string
  CPU :: string
  FirmwareCode :: string
  FirmwareVars :: string
  SecureFirmwareCode :: string
  SecureFirmwareVars :: string
  SecureFirmwareErr :: "firmware_error option"
  ConsoleArg :: string
  ImageArch :: string
  TPMDevice :: string

record host =
  GOOS :: string
  GOARCH :: string
  h_accel_help :: "string \<Rightarrow> probe"
  h_open_rdwr :: "string \<Rightarrow> open_error option"
  h_fs :: fsys
  h_unmarshal :: "bytes \<Rightarrow> descriptor option"

definition archFor :: "string \<Rightarrow> detect_error + archInfo" where
  "archFor goarch =
     (if goarch = ''amd64'' then
        Inr \<lparr>ai_qemuBinary = ''qemu-system-x86_64'', ai_machine = ''q35'', ai_console = ''console=ttyS0'',
             ai_imageArch = ''amd64'', ai_fwArch = ''x86_64'', ai_tpmDevice = ''tpm-crb''\<rparr>
      else if goarch = ''arm64'' then
        Inr \<lparr>ai_qemuBinary = ''qemu-system-aarch64'', ai_machine = ''virt'', ai_console = ''console=ttyAMA0'',
             ai_imageArch = ''arm64'', ai_fwArch = ''aarch64'', ai_tpmDevice = ''tpm-tis-device''\<rparr>
      else Inl (Unsupported_arch goarch))"

definition accelFor :: "string \<Rightarrow> detect_error + string" where
  "accelFor goos =
     (if goos = ''linux'' then Inr ''kvm''
      else if goos = ''darwin'' then Inr ''hvf''
      else Inl (Unsupported_os goos))"

definition diagnoseKVM :: "host \<Rightarrow> string \<Rightarrow> kvmDiag \<times> open_error option" where
  "diagnoseKVM h path =
     (case h_open_rdwr h path of
        None \<Rightarrow> (kvmOK, None)
      | Some err \<Rightarrow> if err = Not_exist then (kvmMissing, Some err) else (kvmNoPerm, Some err))"

fun parseAccels_loop :: "string list \<Rightarrow> string list" where
  "parseAccels_loop [] = []"
| "parseAccels_loop (line # rest) =
     (let l = trim_space line in
      if l = '''' \<or> has_suffix l '':'' then parseAccels_loop rest else l # parseAccels_loop rest)"

definition parseAccels :: "string \<Rightarrow> string list" where
  "parseAccels out = parseAccels_loop (split_on (CHR 0x0A) out)"

definition compiledAccelsWithin :: "host \<Rightarrow> string \<Rightarrow> detect_error + string list" where
  "compiledAccelsWithin h qemuBinary =
     (case h_accel_help h qemuBinary of
        Probe_output out \<Rightarrow> Inr (parseAccels out)
      | Probe_failed err \<Rightarrow> Inl (Probe_error qemuBinary err)
      | Probe_deadline \<Rightarrow> Inl (Probe_timed_out qemuBinary))"

definition compiledAccels :: "host \<Rightarrow> string \<Rightarrow> detect_error + string list" where
  "compiledAccels h qemuBinary = compiledAccelsWithin h qemuBinary"

definition accelUnavailable ::
  "string \<Rightarrow> string \<Rightarrow> string \<Rightarrow> bool \<Rightarrow> kvmDiag \<Rightarrow> open_error option \<Rightarrow> detect_error" where
  "accelUnavailable goos goarch accel compiled diag diagErr =
     No_accelerator goos goarch
       (if \<not> compiled then Not_compiled accel
        else if goos = ''linux'' \<and> diag = kvmMissing then Kvm_missing
        else if goos = ''linux'' \<and> diag = kvmNoPerm then Kvm_unopenable (the diagErr)
        else Accel_vague accel)"

text \<open>The struct literal \<open>Detect\<close> returns; a failed secure lookup leaves empty paths and its error.\<close>

definition resolved_platform ::
  "string \<Rightarrow> archInfo \<Rightarrow> string \<Rightarrow> pair \<Rightarrow> firmware_error + pair \<Rightarrow> Platform" where
  "resolved_platform goos ai accel plain secure =
     \<lparr>OS = goos, QEMUBinary = ai_qemuBinary ai, Machine = ai_machine ai, Accel = accel, CPU = ''host'',
      FirmwareCode = fst plain, FirmwareVars = snd plain,
      SecureFirmwareCode = (case secure of Inl _ \<Rightarrow> '''' | Inr p \<Rightarrow> fst p),
      SecureFirmwareVars = (case secure of Inl _ \<Rightarrow> '''' | Inr p \<Rightarrow> snd p),
      SecureFirmwareErr = (case secure of Inl e \<Rightarrow> Some e | Inr _ \<Rightarrow> None),
      ConsoleArg = ai_console ai, ImageArch = ai_imageArch ai, TPMDevice = ai_tpmDevice ai\<rparr>"

definition Detect :: "host \<Rightarrow> detect_error + Platform" where
  "Detect h =
     and_then (archFor (GOARCH h)) (\<lambda>ai.
     and_then (accelFor (GOOS h)) (\<lambda>accel.
     and_then (compiledAccels h (ai_qemuBinary ai)) (\<lambda>accels.
     let compiled = (accel \<in> set accels);
         (diag, diagErr) = (if GOOS h = ''linux'' then diagnoseKVM h ''/dev/kvm'' else (kvmOK, None)) in
     if \<not> compiled \<or> diag \<noteq> kvmOK then
       Inl (accelUnavailable (GOOS h) (GOARCH h) accel compiled diag diagErr)
     else
     and_then (map_error Firmware_missing
        (resolveFirmware (h_fs h) (h_unmarshal h) registryDirs fallbackTable (GOOS h) (ai_fwArch ai) (ai_machine ai) False))
       (\<lambda>plain.
     Inr (resolved_platform (GOOS h) ai accel plain
       (resolveFirmware (h_fs h) (h_unmarshal h) registryDirs secureFallbackTable (GOOS h) (ai_fwArch ai) (ai_machine ai) True))))))"

subsection \<open>The accelerator list\<close>

lemma parseAccels_loop_filter:
  "parseAccels_loop ls = filter (\<lambda>l. l \<noteq> '''' \<and> \<not> has_suffix l '':'') (map trim_space ls)"
  by (induction ls) (auto simp: Let_def)

lemma visible_no_newline: "list_all visible w \<Longrightarrow> CHR 0x0A \<notin> set w"
  by (induction w) (auto simp: visible_def Let_def)

text \<open>
  The help text of \<^verbatim>\<open>-accel help\<close> is read back: from a header line that ends in a colon
  followed by one accelerator per line, \<open>parseAccels\<close> returns exactly those accelerators.
\<close>

theorem parseAccels_help:
  assumes "CHR 0x0A \<notin> set header" "\<forall>a \<in> set accels. a \<noteq> '''' \<and> list_all visible a \<and> \<not> has_suffix a '':''"
    and "visible (hd (header @ '':''))"
  shows "parseAccels (join [CHR 0x0A] ((header @ '':'') # accels @ [''''])) = accels"
proof -
  let ?lines = "(header @ '':'') # accels @ ['''']"
  have nl: "CHR 0x0A \<notin> set w" if "w \<in> set ?lines" for w
    using that assms(1,2) by (auto dest: visible_no_newline)
  have "split_on (CHR 0x0A) (join [CHR 0x0A] ?lines) = ?lines"
    by (rule split_on_join) (use nl in auto)
  moreover have trim: "trim_space a = a" if "a \<in> set accels" for a
    using that assms(2) by (intro trim_space_visible) (auto simp: list_all_iff)
  then have "map trim_space accels = accels" by (simp add: map_idI)
  moreover have "trim_space (header @ '':'') = header @ '':''"
    using assms(3) by (intro trim_space_visible) (simp add: visible_def Let_def)
  moreover have "trim_space '''' = ''''" by (rule trim_space_visible) simp
  moreover have "filter (\<lambda>l. l \<noteq> '''' \<and> \<not> has_suffix l '':'') accels = accels"
    using assms(2) by (simp add: filter_id_conv)
  moreover have "has_suffix (header @ '':'') '':''" by (auto simp: has_suffix_iff)
  ultimately show ?thesis by (simp add: parseAccels_def parseAccels_loop_filter del: join.simps)
qed

theorem parseAccels_help_witness:
  "parseAccels (join [CHR 0x0A] ((''Accelerators supported in QEMU binary'' @ '':'') # [''tcg'', ''kvm''] @ [''''])) = [''tcg'', ''kvm'']"
  by (rule parseAccels_help) (simp_all add: visible_def has_suffix_def)

subsection \<open>Detection\<close>

text \<open>The reference reading of a usable host, condition by condition.\<close>

definition host_arch_ok :: "host \<Rightarrow> archInfo \<Rightarrow> string \<Rightarrow> bool" where
  "host_arch_ok h ai accel = (archFor (GOARCH h) = Inr ai \<and> accelFor (GOOS h) = Inr accel)"

definition host_accel_ok :: "host \<Rightarrow> archInfo \<Rightarrow> string \<Rightarrow> bool" where
  "host_accel_ok h ai accel =
     ((\<exists>out. h_accel_help h (ai_qemuBinary ai) = Probe_output out \<and> accel \<in> set (parseAccels out))
      \<and> (GOOS h = ''linux'' \<longrightarrow> h_open_rdwr h ''/dev/kvm'' = None))"

lemma diagnose_ok: "fst (diagnoseKVM h p) = kvmOK \<longleftrightarrow> h_open_rdwr h p = None"
  by (simp add: diagnoseKVM_def split: option.splits)

lemma compiledAccels_Inr:
  "compiledAccels h b = Inr as \<longleftrightarrow> (\<exists>out. h_accel_help h b = Probe_output out \<and> as = parseAccels out)"
  by (auto simp: compiledAccels_def compiledAccelsWithin_def split: probe.splits)

text \<open>
  C39. \<open>Detect\<close> fails rather than degrading: it succeeds exactly when the architecture and the
  system are supported, this system's own accelerator is compiled in and (on Linux)
  \<^verbatim>\<open>/dev/kvm\<close> opens, and the plain firmware resolves. What it then reports pairs the
  accelerator with that firmware, and a missing secure-boot pair never makes it fail.
\<close>

theorem Detect_iff:
  "Detect h = Inr p \<longleftrightarrow>
     (\<exists>ai accel plain. host_arch_ok h ai accel \<and> host_accel_ok h ai accel
        \<and> resolveFirmware (h_fs h) (h_unmarshal h) registryDirs fallbackTable (GOOS h) (ai_fwArch ai) (ai_machine ai) False
            = Inr plain
        \<and> p = resolved_platform (GOOS h) ai accel plain
                (resolveFirmware (h_fs h) (h_unmarshal h) registryDirs secureFallbackTable (GOOS h)
                  (ai_fwArch ai) (ai_machine ai) True))"
  unfolding Detect_def host_arch_ok_def host_accel_ok_def Let_def
  by (cases "GOOS h = ''linux''")
    (auto simp: result_simps compiledAccels_Inr split_beta diagnose_ok split: if_splits)

end
