(* ===== verification/Platform_Process.thy ===== *)
theory Platform_Process
  imports Go_Filepath
begin

section \<open>Which process is this machine's qemu\<close>

text \<open>
  Models \<^verbatim>\<open>src/platform/process.go\<close>. The host's processes are a record: whether
  \<^verbatim>\<open>kill(pid, 0)\<close> succeeds, the bytes of \<^verbatim>\<open>/proc/PID/cmdline\<close> and the output of
  \<^verbatim>\<open>ps -ww\<close>. The theorems show that a machine's own qemu matches and that the qemu of another
  machine of the same site never does, however the two names overlap.
\<close>

subsection \<open>Definitions\<close>

record procs =
  p_goos :: string
  p_alive :: "int \<Rightarrow> bool"
  p_proc_cmdline :: "int \<Rightarrow> bytes option"
  p_ps_command :: "int \<Rightarrow> string option"

definition machineToken :: "string \<Rightarrow> string" where
  "machineToken dir = clean dir @ ''/''"

definition parseCmdline :: "bytes \<Rightarrow> string" where
  "parseCmdline raw = map (\<lambda>c. if c = CHR 0x00 then CHR '' '' else c) raw"

definition linuxCmdline :: "procs \<Rightarrow> int \<Rightarrow> string option" where
  "linuxCmdline ps pid =
     (case p_proc_cmdline ps pid of None \<Rightarrow> None | Some b \<Rightarrow> Some (parseCmdline b))"

definition psCmdline :: "procs \<Rightarrow> int \<Rightarrow> string option" where
  "psCmdline ps pid = p_ps_command ps pid"

definition processCmdline :: "procs \<Rightarrow> int \<Rightarrow> string option" where
  "processCmdline ps pid = (if p_goos ps = ''linux'' then linuxCmdline ps pid else psCmdline ps pid)"

definition ProcessMatches :: "procs \<Rightarrow> int \<Rightarrow> string \<Rightarrow> bool" where
  "ProcessMatches ps pid dir =
     (if pid \<le> 0 \<or> dir = '''' then False
      else if \<not> p_alive ps pid then False
      else case processCmdline ps pid of
          None \<Rightarrow> False
        | Some cmdline \<Rightarrow> str_contains cmdline (machineToken dir))"

subsection \<open>A token occurs only below its own directory\<close>

text \<open>An argument as qemu carries the state directory: a path below it, behind an option text.\<close>

definition path_arg :: "string \<Rightarrow> string list \<Rightarrow> string \<Rightarrow> string" where
  "path_arg opt cs base = opt @ abs_path cs @ ''/'' @ base"

definition no_space_slash :: "string \<Rightarrow> bool" where
  "no_space_slash s = (CHR '' '' \<notin> set s \<and> CHR ''/'' \<notin> set s)"

lemma split_path_arg:
  assumes "no_space_slash opt" "no_space_slash base" "list_all plain_comp cs" "cs \<noteq> []"
  shows "split_on (CHR ''/'') (path_arg opt cs base) = opt # cs @ [base]"
proof -
  have "path_arg opt cs base = opt @ ''/'' @ join ''/'' cs @ ''/'' @ base"
    by (simp add: path_arg_def abs_path_def)
  moreover have "split_on (CHR ''/'') (join ''/'' cs) = cs"
    using assms(3,4) by (intro split_on_join) (auto simp: list_all_iff plain_comp_def)
  moreover have "split_on (CHR ''/'') opt = [opt]" "split_on (CHR ''/'') base = [base]"
    using assms(1,2) by (auto intro: split_on_plain simp: no_space_slash_def)
  ultimately show ?thesis by (metis split_on_app append_Cons append_Nil append_assoc)
qed

lemma token_abs: "list_all plain_comp cs \<Longrightarrow> cs \<noteq> [] \<Longrightarrow> machineToken (abs_path cs) = abs_path cs @ ''/''"
  by (simp add: machineToken_def clean_abs_path)

lemma token_in_path_arg:
  assumes arg: "no_space_slash opt" "no_space_slash base" "list_all plain_comp bs" "bs \<noteq> []"
    and tok: "list_all plain_comp as" "length as = length bs"
    and occ: "str_contains (path_arg opt bs base) (machineToken (abs_path as))"
  shows "as = bs"
proof -
  have ne: "as \<noteq> []" using tok(2) arg(4) by auto
  from occ obtain u v where "path_arg opt bs base = u @ (abs_path as @ ''/'') @ v"
    unfolding str_contains_iff token_abs [OF tok(1) ne] by blast
  then have "path_arg opt bs base = u @ ''/'' @ join ''/'' as @ ''/'' @ v"
    by (simp add: abs_path_def)
  then have "opt # bs @ [base] = split_on (CHR ''/'') u @ split_on (CHR ''/'') (join ''/'' as) @ split_on (CHR ''/'') v"
    using split_path_arg [OF arg] by (metis split_on_app append_assoc)
  also have "split_on (CHR ''/'') (join ''/'' as) = as"
    using tok(1) ne by (intro split_on_join) (auto simp: list_all_iff plain_comp_def)
  finally have eq: "opt # bs @ [base] = split_on (CHR ''/'') u @ as @ split_on (CHR ''/'') v" .
  have "split_on (CHR ''/'') u \<noteq> []" "split_on (CHR ''/'') v \<noteq> []" by simp_all
  then have "1 \<le> length (split_on (CHR ''/'') u)" "1 \<le> length (split_on (CHR ''/'') v)"
    by (simp_all add: Suc_le_eq)
  moreover have "2 + length bs = length (split_on (CHR ''/'') u) + length as + length (split_on (CHR ''/'') v)"
    using arg_cong [OF eq, of length] by simp
  ultimately have "length (split_on (CHR ''/'') u) = 1" using tok(2) by linarith
  with eq have "bs @ [base] = as @ split_on (CHR ''/'') v"
    by (cases "split_on (CHR ''/'') u") auto
  then show ?thesis using tok(2) by (metis append_eq_append_conv)
qed

text \<open>The bytes of \<^verbatim>\<open>/proc/PID/cmdline\<close>: every argument ends in a NUL byte.\<close>

definition argv_bytes :: "string list \<Rightarrow> bytes" where
  "argv_bytes args = concat (map (\<lambda>a. a @ [CHR 0x00]) args)"

lemma str_contains_sep:
  assumes "c \<notin> set t" "t \<noteq> []"
  shows "str_contains (x @ c # y) t \<longleftrightarrow> str_contains x t \<or> str_contains y t"
proof (induction x)
  case Nil
  have "\<not> has_prefix (c # y) t" using assms by (cases t) (auto simp: has_prefix_def)
  then show ?case using assms by simp
next
  case (Cons a x)
  have "has_prefix ((a # x) @ c # y) t \<longleftrightarrow> has_prefix (a # x) t"
  proof (cases "length t \<le> length (a # x)")
    case False
    then have "c \<in> set (take (length t) ((a # x) @ c # y))"
      by (simp add: take_Cons') auto
    with False assms(1) show ?thesis by (auto simp: has_prefix_def)
  next
    case True
    then have "take (length t) ((a # x) @ c # y) = take (length t) (a # x)"
      unfolding take_append by simp
    then show ?thesis by (simp only: has_prefix_def)
  qed
  with Cons show ?case by simp
qed

lemma str_contains_Nil: "t \<noteq> [] \<Longrightarrow> \<not> str_contains [] t" by simp

lemma parseCmdline_argv:
  assumes "\<forall>a \<in> set args. CHR 0x00 \<notin> set a" "CHR '' '' \<notin> set t" "t \<noteq> []"
  shows "str_contains (parseCmdline (argv_bytes args)) t \<longleftrightarrow> (\<exists>a \<in> set args. str_contains a t)"
  using assms(1)
proof (induction args)
  case Nil
  then show ?case using assms(3) by (simp add: argv_bytes_def parseCmdline_def)
next
  case (Cons a args)
  have "parseCmdline (argv_bytes (a # args)) = a @ CHR '' '' # parseCmdline (argv_bytes args)"
    using Cons.prems by (auto simp: argv_bytes_def parseCmdline_def intro: map_idI)
  with Cons str_contains_sep [OF assms(2,3)] show ?case by simp
qed

subsection \<open>Own and foreign processes\<close>

definition state_comps :: "string list \<Rightarrow> bool" where
  "state_comps cs = (cs \<noteq> [] \<and> list_all (\<lambda>c. plain_comp c \<and> CHR '' '' \<notin> set c) cs)"

lemma state_compsD: "state_comps cs \<Longrightarrow> list_all plain_comp cs \<and> cs \<noteq> []"
  by (auto simp: state_comps_def list_all_iff)

lemma join_no_char: "c \<notin> set sep \<Longrightarrow> \<forall>w \<in> set ws. c \<notin> set w \<Longrightarrow> c \<notin> set (join sep ws)"
  by (induction sep ws rule: join.induct) auto

lemma token_no_space: "state_comps cs \<Longrightarrow> CHR '' '' \<notin> set (machineToken (abs_path cs))"
  using join_no_char [of "CHR '' ''" "''/''" cs] state_compsD [of cs]
  by (simp add: token_abs) (auto simp: abs_path_def state_comps_def list_all_iff)

lemma token_ne: "machineToken d \<noteq> []" by (simp add: machineToken_def)

text \<open>
  A qemu argument list of the machine in directory \<open>root/b\<close>: every argument is a path below that
  directory behind an option text, or does not mention the state root at all.
\<close>

definition qemu_args :: "string list \<Rightarrow> string \<Rightarrow> string list \<Rightarrow> bool" where
  "qemu_args root b args =
     (\<forall>a \<in> set args. CHR 0x00 \<notin> set a \<and>
        ((\<exists>opt base. no_space_slash opt \<and> no_space_slash base \<and> a = path_arg opt (root @ [b]) base)
         \<or> \<not> str_contains a (abs_path root @ ''/'')))"

lemma token_mentions_root:
  assumes "state_comps (root @ [a])" "root \<noteq> []" "str_contains s (machineToken (abs_path (root @ [a])))"
  shows "str_contains s (abs_path root @ ''/'')"
proof -
  have "machineToken (abs_path (root @ [a])) = (abs_path root @ ''/'') @ a @ ''/''"
    using assms(1,2) state_compsD [OF assms(1)] by (simp add: token_abs) (simp add: abs_path_def join_append)
  with assms(3) obtain u v where "s = u @ (abs_path root @ ''/'') @ a @ ''/'' @ v"
    by (auto simp: str_contains_iff)
  then show ?thesis unfolding str_contains_iff by blast
qed

text \<open>
  C40. A machine never claims another machine's qemu: on Linux, a live process whose arguments are
  those of the qemu of machine \<open>b\<close> does not match the state directory of a machine \<open>a\<close> of the
  same site, even when one name is a prefix of the other, so a stale pid file of \<open>a\<close> cannot get
  the virtual machine of \<open>b\<close> killed.
\<close>

theorem ProcessMatches_other_machine:
  assumes "state_comps (root @ [a])" "state_comps (root @ [b])" "root \<noteq> []" "a \<noteq> b"
    and "qemu_args root b args" "p_goos ps = ''linux''" "p_proc_cmdline ps pid = Some (argv_bytes args)"
  shows "\<not> ProcessMatches ps pid (abs_path (root @ [a]))"
proof
  assume "ProcessMatches ps pid (abs_path (root @ [a]))"
  then have "str_contains (parseCmdline (argv_bytes args)) (machineToken (abs_path (root @ [a])))"
    using assms(6,7) by (auto simp: ProcessMatches_def processCmdline_def linuxCmdline_def split: if_splits)
  moreover have "\<forall>x \<in> set args. CHR 0x00 \<notin> set x" using assms(5) by (auto simp: qemu_args_def)
  ultimately obtain x where x: "x \<in> set args" "str_contains x (machineToken (abs_path (root @ [a])))"
    using parseCmdline_argv token_no_space [OF assms(1)] token_ne by blast
  with assms(5) token_mentions_root [OF assms(1,3)] obtain opt base
    where "no_space_slash opt" "no_space_slash base" "x = path_arg opt (root @ [b]) base"
    by (auto simp: qemu_args_def)
  with x(2) state_compsD [OF assms(1)] state_compsD [OF assms(2)] have "root @ [a] = root @ [b]"
    by (intro token_in_path_arg) auto
  with assms(4) show False by simp
qed

text \<open>The two machines of the source's own example: \<^verbatim>\<open>t\<close> and \<^verbatim>\<open>t2\<close>.\<close>

definition t2_args :: "string list" where
  "t2_args = [''qemu-system-x86_64'', ''-pidfile'', ''/state/site-a/bootstrap-default-t2/qemu.pid'',
     ''file=/state/site-a/bootstrap-default-t2/system.qcow2'']"

definition t2_procs :: procs where
  "t2_procs = \<lparr>p_goos = ''linux'', p_alive = (\<lambda>p. p = 42), p_proc_cmdline = [42 \<mapsto> argv_bytes t2_args],
     p_ps_command = Map.empty\<rparr>"

lemma t2_qemu_args: "qemu_args [''state'', ''site-a''] ''bootstrap-default-t2'' t2_args"
proof -
  let ?cs = "[''state'', ''site-a''] @ [''bootstrap-default-t2'']"
  have "''/state/site-a/bootstrap-default-t2/qemu.pid'' = path_arg '''' ?cs ''qemu.pid''"
    "''file=/state/site-a/bootstrap-default-t2/system.qcow2'' = path_arg ''file='' ?cs ''system.qcow2''"
    by (simp_all add: path_arg_def abs_path_def)
  moreover have "no_space_slash ''''" "no_space_slash ''qemu.pid''" "no_space_slash ''file=''" "no_space_slash ''system.qcow2''"
    by (simp_all add: no_space_slash_def)
  ultimately have paths: "\<exists>opt base. no_space_slash opt \<and> no_space_slash base
        \<and> ''/state/site-a/bootstrap-default-t2/qemu.pid'' = path_arg opt ?cs base"
    "\<exists>opt base. no_space_slash opt \<and> no_space_slash base
        \<and> ''file=/state/site-a/bootstrap-default-t2/system.qcow2'' = path_arg opt ?cs base"
    by blast+
  have "\<not> str_contains ''qemu-system-x86_64'' (abs_path [''state'', ''site-a''] @ ''/'')"
    "\<not> str_contains ''-pidfile'' (abs_path [''state'', ''site-a''] @ ''/'')"
    by (simp_all add: abs_path_def has_prefix_def)
  with paths show ?thesis by (simp add: qemu_args_def t2_args_def)
qed

theorem ProcessMatches_other_machine_witness:
  "\<not> ProcessMatches t2_procs 42 (abs_path ([''state'', ''site-a''] @ [''bootstrap-default-t'']))"
  by (rule ProcessMatches_other_machine [OF _ _ _ _ t2_qemu_args])
    (simp_all add: state_comps_def plain_comp_def t2_procs_def)

text \<open>
  A machine recognises its own qemu: a live process with an argument that is a path below the
  machine's state directory matches it, whether or not the directory is written with a trailing
  slash.
\<close>

theorem ProcessMatches_own:
  assumes "state_comps cs" "0 < pid" "p_alive ps pid" "p_goos ps = ''linux''"
    and "p_proc_cmdline ps pid = Some (argv_bytes args)" "\<forall>a \<in> set args. CHR 0x00 \<notin> set a"
    and "path_arg opt cs base \<in> set args"
  shows "ProcessMatches ps pid (abs_path cs) \<and> ProcessMatches ps pid (abs_path cs @ ''/'')"
proof -
  note cs = state_compsD [OF assms(1)]
  have tok: "machineToken (abs_path cs) = abs_path cs @ ''/''" "machineToken (abs_path cs @ ''/'') = abs_path cs @ ''/''"
    using cs by (simp_all add: machineToken_def clean_abs_path clean_abs_path_slash)
  have "path_arg opt cs base = opt @ (abs_path cs @ ''/'') @ base" by (simp add: path_arg_def)
  then have "str_contains (path_arg opt cs base) (abs_path cs @ ''/'')"
    unfolding str_contains_iff by blast
  then have "str_contains (parseCmdline (argv_bytes args)) (abs_path cs @ ''/'')"
    using parseCmdline_argv [OF assms(6)] token_no_space [OF assms(1)] assms(7) tok by auto
  then show ?thesis
    using assms tok by (auto simp: ProcessMatches_def processCmdline_def linuxCmdline_def abs_path_def)
qed

theorem ProcessMatches_own_witness:
  "ProcessMatches t2_procs 42 (abs_path [''state'', ''site-a'', ''bootstrap-default-t2''])
   \<and> ProcessMatches t2_procs 42 (abs_path [''state'', ''site-a'', ''bootstrap-default-t2''] @ ''/'')"
  by (rule ProcessMatches_own [where args = t2_args and opt = "''''" and base = "''qemu.pid''"])
    (simp_all add: state_comps_def plain_comp_def t2_procs_def t2_args_def path_arg_def abs_path_def)

end
