(* ===== verification/Go_Value.thy ===== *)
theory Go_Value
  imports Go_Filepath
begin

section \<open>Decoded YAML values and Kubernetes objects\<close>

text \<open>
  A machine file is decoded into \<^verbatim>\<open>map[string]interface{}\<close>. A \<open>val\<close> is one such value; a
  map is an association list whose first entry for a key counts. A \<^verbatim>\<open>float64\<close>, which is what
  every number of a decoded file is, is kept as its integral part: the sources read a number only
  through \<^verbatim>\<open>toInt\<close>, which truncates. The nested accessors answer what
  \<^verbatim>\<open>unstructured.NestedString\<close>, \<^verbatim>\<open>NestedSlice\<close> and \<^verbatim>\<open>NestedMap\<close> are documented to:
  the value at the path when every step is a map and the value has the type, the zero value
  otherwise.
\<close>

datatype val =
  VNull
| VBool bool
| VInt int
| VFloat int
| VStr string
| VList "val list"
| VMap "(string \<times> val) list"

type_synonym obj = "(string \<times> val) list"

fun nested :: "obj \<Rightarrow> string list \<Rightarrow> val option" where
  "nested ob [] = Some (VMap ob)"
| "nested ob [f] = map_of ob f"
| "nested ob (f # g # fs) =
     (case map_of ob f of Some (VMap ob') \<Rightarrow> nested ob' (g # fs) | _ \<Rightarrow> None)"

definition nested_string :: "obj \<Rightarrow> string list \<Rightarrow> string" where
  "nested_string ob fs = (case nested ob fs of Some (VStr s) \<Rightarrow> s | _ \<Rightarrow> '''')"

definition nestedSlice :: "obj \<Rightarrow> string list \<Rightarrow> val list" where
  "nestedSlice ob fs = (case nested ob fs of Some (VList vs) \<Rightarrow> vs | _ \<Rightarrow> [])"

definition nested_map :: "obj \<Rightarrow> string list \<Rightarrow> obj" where
  "nested_map ob fs = (case nested ob fs of Some (VMap m) \<Rightarrow> m | _ \<Rightarrow> [])"

text \<open>The accessors of the object's metadata.\<close>

definition GetName :: "obj \<Rightarrow> string" where
  "GetName m = nested_string m [''metadata'', ''name'']"

definition GetNamespace :: "obj \<Rightarrow> string" where
  "GetNamespace m = nested_string m [''metadata'', ''namespace'']"

definition GetUID :: "obj \<Rightarrow> string" where
  "GetUID m = nested_string m [''metadata'', ''uid'']"

definition set_key :: "obj \<Rightarrow> string \<Rightarrow> val \<Rightarrow> obj" where
  "set_key ob k v = (k, v) # filter (\<lambda>e. fst e \<noteq> k) ob"

definition SetUID :: "obj \<Rightarrow> string \<Rightarrow> obj" where
  "SetUID m u = set_key m ''metadata'' (VMap (set_key (nested_map m [''metadata'']) ''uid'' (VStr u)))"

lemma map_of_set_key [simp]: "map_of (set_key ob k v) k' = (if k' = k then Some v else map_of ob k')"
proof -
  have "map_of (filter (\<lambda>e. fst e \<noteq> k) ob) k' = map_of ob k'" if "k' \<noteq> k"
    using that by (induction ob) auto
  then show ?thesis by (auto simp: set_key_def)
qed

lemma GetUID_SetUID [simp]: "GetUID (SetUID m u) = u"
  by (simp add: GetUID_def SetUID_def nested_string_def)

lemma GetName_SetUID [simp]: "GetName (SetUID m u) = GetName m"
  by (simp add: GetName_def SetUID_def nested_string_def nested_map_def split: option.splits val.splits)

lemma nested_SetUID: "f \<noteq> ''metadata'' \<Longrightarrow> nested (SetUID m u) (f # fs) = nested m (f # fs)"
  by (cases fs) (simp_all add: SetUID_def)

text \<open>\<^verbatim>\<open>m["k"]\<close> of a map that may be nil, and the type assertions the sources make on it.\<close>

definition field :: "obj \<Rightarrow> string \<Rightarrow> val" where
  "field e k = (case map_of e k of Some v \<Rightarrow> v | None \<Rightarrow> VNull)"

definition as_map :: "val \<Rightarrow> obj" where
  "as_map v = (case v of VMap ob \<Rightarrow> ob | _ \<Rightarrow> [])"

definition is_map :: "val \<Rightarrow> bool" where
  "is_map v = (case v of VMap _ \<Rightarrow> True | _ \<Rightarrow> False)"

end
