(* ===== verification/Go_Netip.thy ===== *)
theory Go_Netip
  imports Go_Prelude
begin

unbundle bit_operations_syntax

section \<open>Package net/netip\<close>

text \<open>
  Addresses and prefixes of \<^verbatim>\<open>net/netip\<close>, and \<^verbatim>\<open>net.ParseMAC\<close>. An IPv4 address is a 32-bit
  word, an IPv6 address a 128-bit word with its zone; \<open>Invalid\<close> is the zero \<^verbatim>\<open>netip.Addr\<close>.
  Parsing and printing follow the documented grammar. The lemmas read a prefix as an interval of
  numbers, which is what the components' address checks rest on; the locale \<open>segment\<close> states that
  contract and is interpreted on the IPv4 operations.
\<close>

datatype addr = Invalid | V4 "32 word" | V6 "128 word" string

type_synonym prefix = "addr \<times> nat"

definition Is4 :: "addr \<Rightarrow> bool" where
  "Is4 a = (case a of V4 _ \<Rightarrow> True | _ \<Rightarrow> False)"

subsection \<open>Parsing and printing\<close>

definition octet :: "string \<Rightarrow> nat option" where
  "octet f =
     (if f = '''' \<or> 3 < length f \<or> (1 < length f \<and> hd f = CHR ''0'') then None
      else case digits_val 0 f of None \<Rightarrow> None | Some n \<Rightarrow> if n \<le> 255 then Some n else None)"

definition word_of_octets :: "nat list \<Rightarrow> 32 word" where
  "word_of_octets os = word_of_nat (foldl (\<lambda>acc n. acc * 256 + n) 0 os)"

fun octets :: "string list \<Rightarrow> nat list option" where
  "octets [] = Some []"
| "octets (f # fs) =
     (case octet f of None \<Rightarrow> None | Some n \<Rightarrow> map_option (Cons n) (octets fs))"

definition parse_v4 :: "string \<Rightarrow> 32 word option" where
  "parse_v4 s =
     (let fs = split_on (CHR ''.'') s in
      if length fs \<noteq> 4 then None else map_option word_of_octets (octets fs))"

definition hex_val :: "char \<Rightarrow> nat option" where
  "hex_val c =
     (let n = (of_char c :: nat) in
      if 48 \<le> n \<and> n \<le> 57 then Some (n - 48)
      else if 97 \<le> n \<and> n \<le> 102 then Some (n - 87)
      else if 65 \<le> n \<and> n \<le> 70 then Some (n - 55)
      else None)"

fun hex_num :: "nat \<Rightarrow> string \<Rightarrow> nat option" where
  "hex_num acc [] = Some acc"
| "hex_num acc (c # cs) = (case hex_val c of None \<Rightarrow> None | Some d \<Rightarrow> hex_num (acc * 16 + d) cs)"

text \<open>The 16-bit groups of one side of an IPv6 literal; a dotted IPv4 tail is two groups.\<close>

fun v6_groups :: "bool \<Rightarrow> string list \<Rightarrow> nat list option" where
  "v6_groups final [] = Some []"
| "v6_groups final (g # gs) =
     (if gs = [] \<and> final \<and> CHR ''.'' \<in> set g then
        (case parse_v4 g of None \<Rightarrow> None | Some w \<Rightarrow> Some [unat w div 65536, unat w mod 65536])
      else if g = '''' \<or> 4 < length g then None
      else case hex_num 0 g of None \<Rightarrow> None | Some n \<Rightarrow> map_option (Cons n) (v6_groups final gs))"

definition v6_side :: "bool \<Rightarrow> string \<Rightarrow> nat list option" where
  "v6_side final s = (if s = '''' then Some [] else v6_groups final (split_on (CHR '':'') s))"

fun cut_ellipsis :: "string \<Rightarrow> (string \<times> string) option" where
  "cut_ellipsis (a # b # s) =
     (if a = CHR '':'' \<and> b = CHR '':'' then Some ('''', s)
      else map_option (\<lambda>(u, v). (a # u, v)) (cut_ellipsis (b # s)))"
| "cut_ellipsis s = None"

definition v6_body :: "string \<Rightarrow> nat list option" where
  "v6_body s =
     (case cut_ellipsis s of
        None \<Rightarrow> (case v6_groups True (split_on (CHR '':'') s) of
                  None \<Rightarrow> None | Some gs \<Rightarrow> if length gs = 8 then Some gs else None)
      | Some (l, r) \<Rightarrow>
          (case (v6_side False l, v6_side True r) of
             (Some ls, Some rs) \<Rightarrow>
               if length ls + length rs < 8 then Some (ls @ replicate (8 - length ls - length rs) 0 @ rs) else None
           | _ \<Rightarrow> None))"

definition parse_v6 :: "string \<Rightarrow> addr option" where
  "parse_v6 s =
     (let body = takeWhile (\<lambda>c. c \<noteq> CHR ''%'') s; rest = dropWhile (\<lambda>c. c \<noteq> CHR ''%'') s in
      if rest = ''%'' then None
      else case v6_body body of
          None \<Rightarrow> None
        | Some gs \<Rightarrow> Some (V6 (word_of_nat (foldl (\<lambda>acc g. acc * 65536 + g) 0 gs)) (drop 1 rest)))"

definition ParseAddr :: "string \<Rightarrow> addr option" where
  "ParseAddr s =
     (case find (\<lambda>c. c \<in> set ''.:%'') s of
        Some c \<Rightarrow> if c = CHR ''.'' then map_option V4 (parse_v4 s) else if c = CHR '':'' then parse_v6 s else None
      | None \<Rightarrow> None)"

definition cut_last_slash :: "string \<Rightarrow> (string \<times> string) option" where
  "cut_last_slash s =
     (let tail = takeWhile (\<lambda>c. c \<noteq> CHR ''/'') (rev s) in
      if length tail = length s then None
      else Some (take (length s - length tail - 1) s, rev tail))"

definition prefix_bits :: "string \<Rightarrow> nat \<Rightarrow> nat option" where
  "prefix_bits b mx =
     (if 1 < length b \<and> \<not> (ascii_digit (hd b) \<and> hd b \<noteq> CHR ''0'') then None
      else let (v, ok) = atoi b in if \<not> ok \<or> v < 0 \<or> v > int mx then None else Some (nat v))"

definition ParsePrefix :: "string \<Rightarrow> prefix option" where
  "ParsePrefix s =
     (case cut_last_slash s of
        None \<Rightarrow> None
      | Some (ip, b) \<Rightarrow>
        (case ParseAddr ip of
           Some (V4 w) \<Rightarrow> map_option (\<lambda>n. (V4 w, n)) (prefix_bits b 32)
         | Some (V6 w z) \<Rightarrow> if z \<noteq> '''' then None else map_option (\<lambda>n. (V6 w z, n)) (prefix_bits b 128)
         | _ \<Rightarrow> None))"

definition v4_octets :: "32 word \<Rightarrow> nat list" where
  "v4_octets w = map (\<lambda>i. unat w div 256 ^ i mod 256) [3, 2, 1, 0]"

definition v4_string :: "32 word \<Rightarrow> string" where
  "v4_string w = join ''.'' (map dec_of_nat (v4_octets w))"

fun hex_of_nat :: "nat \<Rightarrow> string" where
  "hex_of_nat n = (let d = n mod 16; c = (if d < 10 then char_of (48 + d) else char_of (87 + d)) in
     if n < 16 then [c] else hex_of_nat (n div 16) @ [c])"

declare hex_of_nat.simps [simp del]

definition v6_words :: "128 word \<Rightarrow> nat list" where
  "v6_words w = map (\<lambda>i. unat w div 65536 ^ i mod 65536) [7, 6, 5, 4, 3, 2, 1, 0]"

definition zero_run :: "nat list \<Rightarrow> nat \<Rightarrow> nat" where
  "zero_run gs i = length (takeWhile (\<lambda>g. g = 0) (drop i gs))"

text \<open>An IPv6 address: the first longest run of at least two zero groups is written as two colons.\<close>

definition v6_string :: "128 word \<Rightarrow> string" where
  "v6_string w =
     (let gs = v6_words w; longest = Max (set (map (zero_run gs) [0..<8])); hs = map hex_of_nat gs in
      if take 6 gs = [0, 0, 0, 0, 0, 65535] then ''::ffff:'' @ v4_string (word_of_nat (gs ! 6 * 65536 + gs ! 7))
      else case find (\<lambda>i. zero_run gs i = longest \<and> 2 \<le> longest) [0..<8] of
          None \<Rightarrow> join '':'' hs
        | Some i \<Rightarrow> join '':'' (take i hs) @ ''::'' @ join '':'' (drop (i + longest) hs))"

definition addr_string :: "addr \<Rightarrow> string" where
  "addr_string a = (case a of
       Invalid \<Rightarrow> ''invalid IP''
     | V4 w \<Rightarrow> v4_string w
     | V6 w z \<Rightarrow> if z = '''' then v6_string w else v6_string w @ ''%'' @ z)"

subsection \<open>Prefix arithmetic\<close>

definition Masked :: "prefix \<Rightarrow> prefix" where
  "Masked p = (case p of
       (V4 w, n) \<Rightarrow> (V4 (push_bit (32 - n) (drop_bit (32 - n) w)), n)
     | (V6 w z, n) \<Rightarrow> (V6 (push_bit (128 - n) (drop_bit (128 - n) w)) z, n)
     | (Invalid, n) \<Rightarrow> (Invalid, n))"

definition contains :: "prefix \<Rightarrow> addr \<Rightarrow> bool" where
  "contains p a = (case (p, a) of
       ((V4 w, n), V4 x) \<Rightarrow> drop_bit (32 - n) (x XOR w) = 0
     | ((V6 w _, n), V6 x z) \<Rightarrow> z = '''' \<and> drop_bit (128 - n) (x XOR w) = 0
     | _ \<Rightarrow> False)"

definition addr_next :: "addr \<Rightarrow> addr" where
  "addr_next a = (case a of
       V4 w \<Rightarrow> if w = - 1 then Invalid else V4 (w + 1)
     | V6 w z \<Rightarrow> if w = - 1 then Invalid else V6 (w + 1) z
     | Invalid \<Rightarrow> Invalid)"

definition overlaps :: "prefix \<Rightarrow> prefix \<Rightarrow> bool" where
  "overlaps p q = (case (p, q) of
       ((V4 w, n), (V4 x, k)) \<Rightarrow> drop_bit (32 - min n k) w = drop_bit (32 - min n k) x
     | ((V6 w _, n), (V6 x _, k)) \<Rightarrow> drop_bit (128 - min n k) w = drop_bit (128 - min n k) x
     | _ \<Rightarrow> False)"

subsection \<open>net.ParseMAC\<close>

definition hex_pair :: "string \<Rightarrow> bool" where
  "hex_pair s = (length s = 2 \<and> list_all (\<lambda>c. hex_val c \<noteq> None) s)"

text \<open>\<^verbatim>\<open>xtoi2\<close>: two hexadecimal digits, followed by the separator unless the text ends there.\<close>

definition xtoi2 :: "string \<Rightarrow> char \<Rightarrow> bool" where
  "xtoi2 s e = ((length s \<le> 2 \<or> s ! 2 = e) \<and> hex_pair (take 2 s))"

definition ParseMAC :: "string \<Rightarrow> bool" where
  "ParseMAC s =
     (if length s < 14 then False
      else if s ! 2 = CHR '':'' \<or> s ! 2 = CHR ''-'' then
        (let n = (length s + 1) div 3 in
         (length s + 1) mod 3 = 0 \<and> n \<in> {6, 8, 20} \<and>
         list_all (\<lambda>i. xtoi2 (drop (3 * i) s) (s ! 2)) [0..<n])
      else if s ! 4 = CHR ''.'' then
        (let n = 2 * (length s + 1) div 5 in
         (length s + 1) mod 5 = 0 \<and> n \<in> {6, 8, 20} \<and>
         list_all (\<lambda>i. hex_pair (take 2 (drop (5 * i) s)) \<and> xtoi2 (drop (5 * i + 2) s) (CHR ''.'')) [0..<n div 2])
      else False)"

subsection \<open>A prefix is an interval\<close>

text \<open>
  The contract the address checks rely on: a segment has a first number and a size, containment is
  membership in that interval, and the successor of an address is the next number or no address.
\<close>

locale segment =
  fixes inside :: "'p \<Rightarrow> 'a \<Rightarrow> bool"
    and network :: "'p \<Rightarrow> 'a"
    and succ :: "'a \<Rightarrow> 'a"
    and num :: "'a \<Rightarrow> nat option"
    and low :: "'p \<Rightarrow> nat"
    and extent :: "'p \<Rightarrow> nat"
    and wf :: "'p \<Rightarrow> bool"
  assumes inside_iff: "wf p \<Longrightarrow> inside p a \<longleftrightarrow> (\<exists>n. num a = Some n \<and> low p \<le> n \<and> n < low p + extent p)"
    and network_num: "wf p \<Longrightarrow> num (network p) = Some (low p)"
    and num_inj: "num a = Some n \<Longrightarrow> num b = Some n \<Longrightarrow> a = b"
    and succ_num: "wf p \<Longrightarrow> inside p a \<Longrightarrow> num a = Some n \<Longrightarrow> inside p (succ a) \<longleftrightarrow> Suc n < low p + extent p"
begin

text \<open>An address that names a host: inside, not the first number, not the last.\<close>

definition host :: "'p \<Rightarrow> 'a \<Rightarrow> bool" where
  "host p a = (\<exists>n. num a = Some n \<and> low p < n \<and> Suc n < low p + extent p)"

lemma host_iff:
  assumes "wf p"
  shows "inside p a \<and> a \<noteq> network p \<and> inside p (succ a) \<longleftrightarrow> host p a"
proof
  assume h: "inside p a \<and> a \<noteq> network p \<and> inside p (succ a)"
  then obtain n where n: "num a = Some n" "low p \<le> n" "n < low p + extent p"
    using inside_iff [OF assms] by blast
  moreover have "n \<noteq> low p" using h n(1) num_inj network_num [OF assms] by blast
  moreover have "Suc n < low p + extent p" using h n(1) succ_num [OF assms] by blast
  ultimately show "host p a" by (auto simp: host_def)
next
  assume "host p a"
  then obtain n where n: "num a = Some n" "low p < n" "Suc n < low p + extent p" by (auto simp: host_def)
  then have "inside p a" using inside_iff [OF assms] by auto
  moreover have "a \<noteq> network p" using n network_num [OF assms] by auto
  ultimately show "inside p a \<and> a \<noteq> network p \<and> inside p (succ a)"
    using n succ_num [OF assms] by blast
qed

lemma network_inside: "wf p \<Longrightarrow> 0 < extent p \<Longrightarrow> inside p (network p)"
  using inside_iff network_num by auto

end

definition num4 :: "addr \<Rightarrow> nat option" where
  "num4 a = (case a of V4 w \<Rightarrow> Some (unat w) | _ \<Rightarrow> None)"

definition wf4 :: "prefix \<Rightarrow> bool" where
  "wf4 p = (case p of (V4 w, n) \<Rightarrow> n \<le> 32 | _ \<Rightarrow> False)"

definition extent4 :: "prefix \<Rightarrow> nat" where
  "extent4 p = 2 ^ (32 - snd p)"

definition low4 :: "prefix \<Rightarrow> nat" where
  "low4 p = (case fst p of V4 w \<Rightarrow> unat w div extent4 p * extent4 p | _ \<Rightarrow> 0)"

lemma wf4_V4: "wf4 p \<longleftrightarrow> (\<exists>w n. p = (V4 w, n) \<and> n \<le> 32)"
  by (auto simp: wf4_def split: prod.splits addr.splits)

lemma unat_bound: "unat (w :: 32 word) < 4294967296"
  using unsigned_less [of w] by simp

lemma unat_drop_bit: "unat (drop_bit k (w :: 32 word)) = unat w div 2 ^ k"
  by (simp only: unsigned_drop_bit_eq) (simp add: drop_bit_eq_div take_bit_nat_eq_self unat_bound)

lemma drop_bit_xor_zero: "drop_bit k (x XOR w) = 0 \<longleftrightarrow> drop_bit k x = drop_bit k (w :: 32 word)"
  by (auto simp: bit_eq_iff bit_simps)

lemma div_eq_interval: "0 < (e :: nat) \<Longrightarrow> x div e = w div e \<longleftrightarrow> w div e * e \<le> x \<and> x < w div e * e + e"
proof
  assume e: "0 < e" and "x div e = w div e"
  then have "w div e * e + x mod e = x" by (metis div_mult_mod_eq)
  moreover have "x mod e < e" using e by simp
  ultimately show "w div e * e \<le> x \<and> x < w div e * e + e" by linarith
next
  assume e: "0 < e" and "w div e * e \<le> x \<and> x < w div e * e + e"
  then have "x = w div e * e + (x - w div e * e)" "x - w div e * e < e" by auto
  then show "x div e = w div e" by (metis div_mult_self3 add.commute div_less e add_0 less_not_refl2)
qed

lemma contains4: "n \<le> 32 \<Longrightarrow> contains (V4 w, n) (V4 x) \<longleftrightarrow> low4 (V4 w, n) \<le> unat x \<and> unat x < low4 (V4 w, n) + extent4 (V4 w, n)"
proof -
  have "contains (V4 w, n) (V4 x) \<longleftrightarrow> unat x div 2 ^ (32 - n) = unat w div 2 ^ (32 - n)"
    using word_unat_eq_iff [of "drop_bit (32 - n) x" "drop_bit (32 - n) w"]
    by (simp only: contains_def prod.case addr.case drop_bit_xor_zero unat_drop_bit)
  also have "\<dots> \<longleftrightarrow> low4 (V4 w, n) \<le> unat x \<and> unat x < low4 (V4 w, n) + extent4 (V4 w, n)"
    unfolding low4_def extent4_def by (simp add: div_eq_interval)
  finally show ?thesis .
qed

lemma contains4_addr: "contains (V4 w, n) a \<Longrightarrow> \<exists>x. a = V4 x"
  by (cases a) (auto simp: contains_def)

lemma unat_masked: "unat (push_bit k (drop_bit k (w :: 32 word))) = unat w div 2 ^ k * 2 ^ k"
proof -
  have "unat w div 2 ^ k * 2 ^ k \<le> unat w" by (simp add: div_times_less_eq_dividend)
  then have "unat w div 2 ^ k * 2 ^ k < 4294967296" using unat_bound [of w] by (rule le_less_trans)
  then show ?thesis
    by (simp only: unsigned_push_bit_eq unat_drop_bit) (simp add: push_bit_eq_mult take_bit_nat_eq_self)
qed

interpretation v4: segment contains "\<lambda>p. fst (Masked p)" addr_next num4 low4 extent4 wf4
proof
  fix p a
  assume "wf4 p"
  then obtain w n where p: "p = (V4 w, n)" "n \<le> 32" by (auto simp: wf4_V4)
  show "contains p a \<longleftrightarrow> (\<exists>n. num4 a = Some n \<and> low4 p \<le> n \<and> n < low4 p + extent4 p)"
    using contains4 [OF p(2), of w] p(1) by (cases a) (auto simp: num4_def contains_def)
next
  fix p
  assume "wf4 p"
  then obtain w n where p: "p = (V4 w, n)" "n \<le> 32" by (auto simp: wf4_V4)
  then show "num4 (fst (Masked p)) = Some (low4 p)"
    by (simp add: Masked_def num4_def low4_def extent4_def unat_masked)
next
  fix a b n
  assume "num4 a = Some n" "num4 b = Some n"
  then show "a = b" by (auto simp: num4_def word_unat_eq_iff split: addr.splits)
next
  fix p a n
  assume wf: "wf4 p" and "contains p a" "num4 a = Some n"
  then obtain w k x where p: "p = (V4 w, k)" "k \<le> 32" and a: "a = V4 x" "unat x = n"
    by (auto simp: wf4_V4 num4_def split: addr.splits)
  have bound: "low4 p + extent4 p \<le> 2 ^ 32"
  proof -
    have "unat w div extent4 p < 2 ^ k"
      using unat_bound [of w] p(2)
      by (simp add: extent4_def p(1) less_mult_imp_div_less power_add [symmetric])
    then have "Suc (unat w div extent4 p) * extent4 p \<le> 2 ^ k * 2 ^ (32 - k)"
      using p(1) by (simp add: extent4_def Suc_leI del: mult_Suc)
    then show ?thesis using p by (simp add: low4_def power_add [symmetric])
  qed
  show "contains p (addr_next a) \<longleftrightarrow> Suc n < low4 p + extent4 p"
  proof (cases "x = - 1")
    case True
    then have "n = 2 ^ 32 - 1" using a by (simp add: unsigned_minus_1_eq_mask mask_eq_exp_minus_1)
    with True a bound show ?thesis by (simp add: addr_next_def contains_def p)
  next
    case False
    then have "1 + x \<noteq> 0" by (simp add: eq_neg_iff_add_eq_0 add.commute)
    then have "unat (x + 1) = Suc n" using unatSuc [of x] a(2) by (simp add: add.commute)
    moreover have "low4 p \<le> n"
      using \<open>contains p a\<close> contains4 [OF p(2), of w x] a p(1) by simp
    ultimately show ?thesis
      using contains4 [OF p(2), of w "x + 1"] False a p(1) by (simp add: addr_next_def)
  qed
qed
subsection \<open>Printing and parsing agree\<close>

lemma digit_char_zero: "d < 10 \<Longrightarrow> digit_char d = CHR ''0'' \<longleftrightarrow> d = 0"
proof
  assume "d < 10" "digit_char d = CHR ''0''"
  then have "(of_char (digit_char d) :: nat) = of_char (CHR ''0'')" by simp
  with \<open>d < 10\<close> show "d = 0" by simp
qed (simp add: digit_char_eval)

lemma dec_of_nat_small:
  "n < 10 \<Longrightarrow> dec_of_nat n = [digit_char n]"
  "10 \<le> n \<Longrightarrow> n < 100 \<Longrightarrow> dec_of_nat n = [digit_char (n div 10), digit_char (n mod 10)]"
  "100 \<le> n \<Longrightarrow> n < 1000 \<Longrightarrow>
     dec_of_nat n = [digit_char (n div 10 div 10), digit_char (n div 10 mod 10), digit_char (n mod 10)]"
proof -
  show "n < 10 \<Longrightarrow> dec_of_nat n = [digit_char n]" by (simp add: dec_of_nat.simps)
  show two: "10 \<le> n \<Longrightarrow> n < 100 \<Longrightarrow> dec_of_nat n = [digit_char (n div 10), digit_char (n mod 10)]" for n
    by (simp add: dec_of_nat.simps)
  show "dec_of_nat n = [digit_char (n div 10 div 10), digit_char (n div 10 mod 10), digit_char (n mod 10)]"
    if "100 \<le> n" "n < 1000"
    using that two [of "n div 10"] by (simp add: dec_of_nat.simps [of n])
qed

lemma octet_dec: "n \<le> 255 \<Longrightarrow> octet (dec_of_nat n) = Some n"
proof -
  assume n: "n \<le> 255"
  consider "n < 10" | "10 \<le> n" "n < 100" | "100 \<le> n" "n < 1000" using n by linarith
  then have "length (dec_of_nat n) \<le> 3 \<and> (1 < length (dec_of_nat n) \<longrightarrow> hd (dec_of_nat n) \<noteq> CHR ''0'')"
  proof cases
    case 3
    moreover have "n div 10 div 10 < 10" "n div 10 div 10 \<noteq> 0" using 3 by linarith+
    ultimately show ?thesis by (simp add: dec_of_nat_small digit_char_zero)
  qed (simp_all add: dec_of_nat_small digit_char_zero)
  then show ?thesis using n by (simp add: octet_def)
qed

lemma octets_dec: "list_all (\<lambda>n. n \<le> 255) ns \<Longrightarrow> octets (map dec_of_nat ns) = Some ns"
  by (induction ns) (simp_all add: octet_dec)

lemma v4_octets_bound: "list_all (\<lambda>n. n \<le> 255) (v4_octets w)"
  by (simp add: v4_octets_def less_Suc_eq_le [symmetric])

lemma word_of_v4_octets: "word_of_octets (v4_octets w) = w"
proof -
  let ?n = "unat w"
  have d: "?n div 65536 = ?n div 256 div 256" "?n div 16777216 = ?n div 256 div 256 div 256"
    by (simp_all add: div_mult2_eq [symmetric])
  have top: "?n div 16777216 mod 256 = ?n div 16777216" using unat_bound [of w] by simp
  then have "((?n div 16777216 mod 256 * 256 + ?n div 65536 mod 256) * 256 + ?n div 256 mod 256) * 256 + ?n mod 256 = ?n"
    unfolding d by (simp only: div_mult_mod_eq)
  then have "foldl (\<lambda>acc n. acc * 256 + n) 0 (v4_octets w) = ?n"
    by (simp add: v4_octets_def power2_eq_square power3_eq_cube top)
  then show ?thesis by (simp add: word_of_octets_def)
qed

lemma parse_v4_string: "parse_v4 (v4_string w) = Some w"
proof -
  have "split_on (CHR ''.'') (v4_string w) = map dec_of_nat (v4_octets w)"
    unfolding v4_string_def
    by (rule split_on_join) (use not_digit_sep [of "CHR ''.''"] in \<open>auto simp: v4_octets_def\<close>)
  then show ?thesis
    by (simp add: parse_v4_def octets_dec [OF v4_octets_bound] word_of_v4_octets) (simp add: v4_octets_def)
qed

lemma find_first_dot: "list_all ascii_digit ds \<Longrightarrow> find (\<lambda>c. c \<in> set ''.:%'') (ds @ CHR ''.'' # s) = Some (CHR ''.'')"
  by (induction ds) (auto simp: ascii_digit_def Let_def)

lemma ParseAddr_v4_string [simp]: "ParseAddr (v4_string w) = Some (V4 w)"
proof -
  obtain a b c d where "v4_octets w = [a, b, c, d]" by (simp add: v4_octets_def)
  then have "v4_string w = dec_of_nat a @ CHR ''.'' # join ''.'' (map dec_of_nat [b, c, d])"
    by (simp add: v4_string_def)
  moreover have "list_all ascii_digit (dec_of_nat a)" by (auto simp: list_all_iff dest: dec_of_nat_digits)
  ultimately have "find (\<lambda>c. c \<in> set ''.:%'') (v4_string w) = Some (CHR ''.'')"
    using find_first_dot by metis
  then show ?thesis by (simp add: ParseAddr_def parse_v4_string)
qed

lemma cut_last_slash_append: "CHR ''/'' \<notin> set b \<Longrightarrow> cut_last_slash (s @ ''/'' @ b) = Some (s, b)"
proof -
  assume b: "CHR ''/'' \<notin> set b"
  have "takeWhile (\<lambda>c. c \<noteq> CHR ''/'') (rev b @ CHR ''/'' # rev s) = rev b"
    using b by (subst takeWhile_append2) auto
  then show ?thesis by (simp add: cut_last_slash_def)
qed

lemma prefix_bits_dec: "n \<le> mx \<Longrightarrow> mx < 1000 \<Longrightarrow> prefix_bits (dec_of_nat n) mx = Some n"
proof -
  assume n: "n \<le> mx" "mx < 1000"
  have "1 < length (dec_of_nat n) \<Longrightarrow> hd (dec_of_nat n) \<noteq> CHR ''0''"
  proof -
    assume "1 < length (dec_of_nat n)"
    then consider "10 \<le> n" "n < 100" | "100 \<le> n" "n < 1000"
      using n dec_of_nat_small(1) [of n] by (metis One_nat_def length_Cons list.size(3) less_irrefl not_le le_less_trans)
    then show ?thesis
    proof cases
      case 2
      moreover have "n div 10 div 10 < 10" "n div 10 div 10 \<noteq> 0" using 2 by linarith+
      ultimately show ?thesis by (simp add: dec_of_nat_small digit_char_zero)
    qed (simp_all add: dec_of_nat_small digit_char_zero)
  qed
  then show ?thesis
    using n atoi_dec_of_nat [of n] hd_dec_of_nat [of n] by (simp add: prefix_bits_def)
qed

definition prefix_string :: "32 word \<Rightarrow> nat \<Rightarrow> string" where
  "prefix_string w n = v4_string w @ ''/'' @ dec_of_nat n"

lemma ParsePrefix_prefix_string: "n \<le> 32 \<Longrightarrow> ParsePrefix (prefix_string w n) = Some (V4 w, n)"
  using not_digit_sep [of "CHR ''/''" n]
  by (simp add: ParsePrefix_def prefix_string_def prefix_bits_dec cut_last_slash_append [simplified])

lemma ParsePrefix_wf4: "ParsePrefix s = Some p \<Longrightarrow> Is4 (fst p) \<Longrightarrow> wf4 p"
  by (auto simp: ParsePrefix_def Is4_def wf4_def prefix_bits_def split: option.splits prod.splits addr.splits if_splits)

lemma Is4_iff: "Is4 a \<longleftrightarrow> (\<exists>w. a = V4 w)"
  by (auto simp: Is4_def split: addr.splits)

end
