(* ===== verification/Cluster_Documents.thy ===== *)
theory Cluster_Documents
  imports Go_Value Go_Netip
begin

section \<open>Config documents\<close>

text \<open>
  The parts of a Talos machine config that \<^verbatim>\<open>cluster/config.go\<close> and \<^verbatim>\<open>cluster/nodeidentity.go\<close> read or
  write, as data: the v1alpha1 document with its install, sysctl, registry and etcd sections, and
  the 1.14 documents. What the code leaves alone is an opaque rest, so that an edit that dropped it
  would show. Also the identity by which a document replaces another, and the two records a caller
  of the package fills in: the reference to a disk and a registry mirror.
\<close>

subsection \<open>What a caller names\<close>

text \<open>\<^verbatim>\<open>cluster.DiskRef\<close>: one of the three ways to name a disk.\<close>

record DiskRef =
  Serial :: string
  WWID :: string
  DevPath :: string

record RegistryMirror =
  Host :: string
  Endpoint :: string
  CA :: string
  InsecureSkipVerify :: bool
  OverridePath :: bool

subsection \<open>The v1alpha1 document\<close>

record disk_selector =
  sel_serial :: string
  sel_wwid :: string

record install_config =
  InstallDisk :: string
  InstallDiskSelector :: "disk_selector option"
  InstallImage :: string
  InstallExtraKernelArgs :: "string list"
  InstallGrubUseUKICmdline :: "bool option"
  install_rest :: string

record mirror_config =
  MirrorEndpoints :: "string list"
  MirrorOverridePath :: "bool option"

record tls_config =
  TLSInsecureSkipVerify :: "bool option"
  TLSCA :: bytes

record registries_config =
  RegistryMirrors :: "(string \<times> mirror_config) list"
  RegistryConfig :: "(string \<times> tls_config) list"

record machine_config =
  MachineInstall :: "install_config option"
  MachineSysctls :: "(string \<times> string) list"
  MachineRegistries :: registries_config
  machine_rest :: string

record etcd_config =
  EtcdAdvertisedSubnets :: "string list"
  etcd_rest :: string

record cluster_config =
  EtcdConfig :: "etcd_config option"
  cluster_rest :: string

record v1alpha1 =
  MachineConfig :: "machine_config option"
  ClusterConfig :: "cluster_config option"

text \<open>The zero values of the sections, as Go's composite literals without fields make them.\<close>

definition no_registries :: registries_config where
  "no_registries = \<lparr>RegistryMirrors = [], RegistryConfig = []\<rparr>"

definition zero_install :: install_config where
  "zero_install = \<lparr>InstallDisk = '''', InstallDiskSelector = None, InstallImage = '''', InstallExtraKernelArgs = [],
     InstallGrubUseUKICmdline = None, install_rest = ''''\<rparr>"

definition zero_machine :: machine_config where
  "zero_machine = \<lparr>MachineInstall = None, MachineSysctls = [], MachineRegistries = no_registries, machine_rest = ''''\<rparr>"

definition zero_cluster :: cluster_config where
  "zero_cluster = \<lparr>EtcdConfig = None, cluster_rest = ''''\<rparr>"

definition zero_etcd :: etcd_config where
  "zero_etcd = \<lparr>EtcdAdvertisedSubnets = [], etcd_rest = ''''\<rparr>"

subsection \<open>Documents and their identity\<close>

text \<open>
  The last constructor is every other kind, with its name (empty for a kind that is not a named
  document) and its content. A user volume has its selector, volume type, minimum size, whether it
  grows, and its file system.
\<close>

datatype document =
  KubeNodeConfig (node_subnets: "string list") string
| KubeFlannelCNIConfig (flannel_args: "string list") string
| KubeProxyConfig (proxy_object: "(string \<times> string list) list") string
| HostnameConfig (host_auto: string) (host_name: string) string
| LinkAliasConfig string string
| LinkConfig string bool "prefix list"
| DHCPv4Config string
| V1Alpha1Config (v1: v1alpha1) string
| VolumeConfig string string string
| UserVolumeConfig string string string string bool string
| OtherDocument string string string

definition documentIdentity :: "document \<Rightarrow> string \<times> string" where
  "documentIdentity doc =
     (case doc of
        KubeNodeConfig _ _ \<Rightarrow> (''KubeNodeConfig'', '''')
      | KubeFlannelCNIConfig _ _ \<Rightarrow> (''KubeFlannelCNIConfig'', '''')
      | KubeProxyConfig _ _ \<Rightarrow> (''KubeProxyConfig'', '''')
      | HostnameConfig _ _ _ \<Rightarrow> (''HostnameConfig'', '''')
      | LinkAliasConfig n _ \<Rightarrow> (''LinkAliasConfig'', n)
      | LinkConfig n _ _ \<Rightarrow> (''LinkConfig'', n)
      | DHCPv4Config n \<Rightarrow> (''DHCPv4Config'', n)
      | V1Alpha1Config _ _ \<Rightarrow> (''v1alpha1'', '''')
      | VolumeConfig n _ _ \<Rightarrow> (''VolumeConfig'', n)
      | UserVolumeConfig n _ _ _ _ _ \<Rightarrow> (''UserVolumeConfig'', n)
      | OtherDocument k n _ \<Rightarrow> (k, n))"

definition withoutDocuments :: "document list \<Rightarrow> document list \<Rightarrow> document list" where
  "withoutDocuments existing incoming =
     (let replaced = map documentIdentity incoming in
      filter (\<lambda>doc. documentIdentity doc \<notin> set replaced) existing)"

lemma withoutDocuments_distinct:
  assumes "distinct (map documentIdentity existing)" "distinct (map documentIdentity incoming)"
  shows "distinct (map documentIdentity (withoutDocuments existing incoming @ incoming))"
  using assms by (auto simp: withoutDocuments_def Let_def distinct_map inj_on_def image_iff)

lemma withoutDocuments_replaces:
  "documentIdentity d \<in> documentIdentity ` set incoming \<Longrightarrow> d \<in> set (withoutDocuments existing incoming @ incoming) \<Longrightarrow>
   d \<in> set incoming"
  by (auto simp: withoutDocuments_def)

end
