(* ===== verification/Tinq_Machine.thy ===== *)
theory Tinq_Machine
  imports Cluster_Documents Go_Filepath
begin

section \<open>Reading a machine file\<close>

text \<open>
  The helpers of \<^verbatim>\<open>src/cmd/tinq/main.go\<close> that translate \<^verbatim>\<open>spec\<close> fields: sizes, ports,
  forwards, disks, patches, registry mirrors and the machine's identity. An error is a
  constructor that carries what its message quotes. The SHA-256 of \<^verbatim>\<open>machineUUID\<close> is an
  argument, of which only its length of 32 bytes is used.
\<close>

subsection \<open>Scalars\<close>

definition str :: "val \<Rightarrow> string \<Rightarrow> string" where
  "str v dflt = (case v of VStr s \<Rightarrow> if s \<noteq> '''' then s else dflt | _ \<Rightarrow> dflt)"

definition toInt :: "val \<Rightarrow> int" where
  "toInt v = (case v of VInt n \<Rightarrow> n | VFloat n \<Rightarrow> n | _ \<Rightarrow> 0)"

definition trim_right_set :: "string \<Rightarrow> string \<Rightarrow> string" where
  "trim_right_set s cutset = rev (dropWhile (\<lambda>c. c \<in> set cutset) (rev s))"

definition toMB :: "string \<Rightarrow> int" where
  "toMB s0 =
     (let s = trim_space s0;
          mult = (if has_suffix s ''Gi'' \<or> has_suffix s ''G'' then 1024 else 1);
          (v, ok) = atoi (trim_right_set s ''GiMB'')
      in if \<not> ok \<or> v \<le> 0 then 2048 else int64 (v * mult))"

definition specCPU :: "obj \<Rightarrow> int" where
  "specCPU spec = (let v = toInt (field spec ''cpu'') in if v > 0 then v else 2)"

definition DiskSerialSystem :: string where "DiskSerialSystem = ''talos-system''"

definition DiskSerialExtra :: string where "DiskSerialExtra = ''talos-extra''"

definition DiskSerialData :: string where "DiskSerialData = ''talos-data''"

definition extraDiskBootIndex :: nat where "extraDiskBootIndex = 2"

definition isoBootIndex :: nat where "isoBootIndex = 99"

definition specDataDisk :: "obj \<Rightarrow> string" where
  "specDataDisk spec = str (field spec ''dataDisk'') ''''"

definition dataDiskSerial :: "obj \<Rightarrow> string" where
  "dataDiskSerial spec = (if specDataDisk spec = '''' then '''' else DiskSerialData)"

definition specExtraDisks :: "obj \<Rightarrow> string list" where
  "specExtraDisks spec =
     (case field spec ''extraDisks'' of
        VList raw \<Rightarrow> filter (\<lambda>s. s \<noteq> '''') (map (\<lambda>v. str v '''') raw)
      | _ \<Rightarrow> [])"

definition extraDiskSerial :: "nat \<Rightarrow> string" where
  "extraDiskSerial i = DiskSerialExtra @ ''-'' @ dec_of_nat i"

definition specTPM :: "obj \<Rightarrow> bool" where
  "specTPM spec = (field spec ''tpm'' = VBool True)"

definition specSecureBoot :: "obj \<Rightarrow> bool" where
  "specSecureBoot spec = (field spec ''secureBoot'' = VBool True)"

definition specSystemDisk :: "obj \<Rightarrow> DiskRef" where
  "specSystemDisk spec =
     (let p = str (field spec ''installDisk'') '''' in
      if p \<noteq> '''' then \<lparr>Serial = '''', WWID = '''', DevPath = p\<rparr>
      else \<lparr>Serial = DiskSerialSystem, WWID = '''', DevPath = ''''\<rparr>)"

subsection \<open>Identity\<close>

definition machineUUID :: "(bytes \<Rightarrow> bytes) \<Rightarrow> string \<Rightarrow> string" where
  "machineUUID sha256 name =
     (let sum0 = sha256 (''tinq-machine-uuid:'' @ name);
          sum1 = sum0[6 := char_of ((of_char (sum0 ! 6) mod 16) + 64 :: nat)];
          sum = sum1[8 := char_of ((of_char (sum1 ! 8) mod 64) + 128 :: nat)]
      in hex (take 4 sum) @ ''-'' @ hex (take 2 (drop 4 sum)) @ ''-'' @ hex (take 2 (drop 6 sum)) @ ''-''
           @ hex (take 2 (drop 8 sum)) @ ''-'' @ hex (take 6 (drop 10 sum)))"

datatype read_error = Read_failed string | Parse_failed

text \<open>\<open>unmarshal\<close> is \<^verbatim>\<open>yaml.Unmarshal\<close> into a map.\<close>

definition readMachine :: "fsys \<Rightarrow> (bytes \<Rightarrow> obj option) \<Rightarrow> string \<Rightarrow> read_error + obj" where
  "readMachine fs unmarshal path =
     (case fs_file fs path of
        None \<Rightarrow> Inl (Read_failed path)
      | Some b \<Rightarrow>
        (case unmarshal b of
           None \<Rightarrow> Inl Parse_failed
         | Some m \<Rightarrow>
             Inr (if GetUID m = '''' then SetUID m (''bootstrap-'' @ GetNamespace m @ ''-'' @ GetName m) else m)))"

definition machine_dir :: "string \<Rightarrow> obj \<Rightarrow> string" where
  "machine_dir stateRoot m = path_join [stateRoot, nested_string m [''spec'', ''site''], GetUID m]"

subsection \<open>Forwards\<close>

definition talosAPIGuestPort :: int where "talosAPIGuestPort = 50000"

definition kubeAPIGuestPort :: int where "kubeAPIGuestPort = 6443"

definition defaultHostAddr :: string where "defaultHostAddr = ''127.0.0.1''"

fun hostForward_loop :: "val list \<Rightarrow> int \<Rightarrow> string \<times> int" where
  "hostForward_loop [] guestPort = ('''', 0)"
| "hostForward_loop (hf # rest) guestPort =
     (let h = as_map hf in
      if toInt (field h ''guestPort'') = guestPort
      then (str (field h ''hostAddr'') defaultHostAddr, toInt (field h ''hostPort''))
      else hostForward_loop rest guestPort)"

definition hostForward :: "obj \<Rightarrow> int \<Rightarrow> string \<times> int" where
  "hostForward m guestPort = hostForward_loop (nestedSlice m [''spec'', ''hostForwards'']) guestPort"

definition talosEndpoint :: "obj \<Rightarrow> string" where
  "talosEndpoint m =
     (let (a, p) = hostForward m talosAPIGuestPort in if p > 0 then a @ '':'' @ itoa p else '''')"

definition kubeEndpoint :: "obj \<Rightarrow> string" where
  "kubeEndpoint m =
     (let (a, p) = hostForward m kubeAPIGuestPort in if p > 0 then ''https://'' @ a @ '':'' @ itoa p else '''')"

text \<open>The forwards qemu is told to bind: the loop of \<open>create\<close> that builds \<^verbatim>\<open>-netdev\<close>.\<close>

definition hostfwd :: "string \<Rightarrow> string \<Rightarrow> int \<Rightarrow> int \<Rightarrow> string" where
  "hostfwd proto addr hp gp = '',hostfwd='' @ proto @ '':'' @ addr @ '':'' @ itoa hp @ ''-:'' @ itoa gp"

definition netdev_entry :: "val \<Rightarrow> string" where
  "netdev_entry hf =
     (let h = as_map hf; hp = toInt (field h ''hostPort''); gp = toInt (field h ''guestPort'') in
      if hp \<le> 0 \<or> gp \<le> 0 then ''''
      else let addr = str (field h ''hostAddr'') defaultHostAddr;
               proto = to_lower (str (field h ''protocol'') ''tcp'') in
        if proto = ''udp'' then hostfwd ''udp'' addr hp gp
        else if proto = ''both'' \<or> proto = ''tcp+udp'' then hostfwd ''tcp'' addr hp gp @ hostfwd ''udp'' addr hp gp
        else hostfwd ''tcp'' addr hp gp)"

definition netdev_arg :: "obj \<Rightarrow> string" where
  "netdev_arg m = ''user,id=n0'' @ concat (map netdev_entry (nestedSlice m [''spec'', ''hostForwards'']))"

subsection \<open>Patches and registry mirrors\<close>

datatype patch_error = Patch_not_string nat string

fun configPatches_loop :: "string \<Rightarrow> nat \<Rightarrow> val list \<Rightarrow> patch_error + string list" where
  "configPatches_loop name i [] = Inr []"
| "configPatches_loop name i (raw # rest) =
     (case raw of
        VStr s \<Rightarrow> and_then (configPatches_loop name (Suc i) rest) (\<lambda>out. Inr (if s \<noteq> '''' then s # out else out))
      | _ \<Rightarrow> Inl (Patch_not_string i name))"

definition configPatches :: "obj \<Rightarrow> patch_error + string list" where
  "configPatches m = configPatches_loop (GetName m) 0 (nestedSlice m [''spec'', ''configPatches''])"

datatype mirror_error =
  Not_a_block nat
| CA_unreadable nat string
| No_host nat
| No_scheme nat string

definition registryCA :: "fsys \<Rightarrow> obj \<Rightarrow> string + string" where
  "registryCA fs e =
     (let p = str (field e ''caFile'') '''' in
      if p \<noteq> '''' then (case fs_file fs p of None \<Rightarrow> Inl p | Some b \<Rightarrow> Inr b)
      else Inr (str (field e ''ca'') ''''))"

definition has_scheme :: "string \<Rightarrow> bool" where
  "has_scheme ep = (has_prefix ep ''http://'' \<or> has_prefix ep ''https://'')"

definition registryMirror :: "fsys \<Rightarrow> nat \<Rightarrow> val \<Rightarrow> mirror_error + RegistryMirror" where
  "registryMirror fs i raw =
     (if \<not> is_map raw then Inl (Not_a_block i)
      else let e = as_map raw in
        and_then (map_error (CA_unreadable i) (registryCA fs e)) (\<lambda>ca.
        let mirror = \<lparr>Host = str (field e ''host'') '''', Endpoint = str (field e ''endpoint'') '''', CA = ca,
                      InsecureSkipVerify = (field e ''insecureSkipVerify'' = VBool True),
                      OverridePath = (field e ''overridePath'' = VBool True)\<rparr> in
        if Host mirror = '''' then Inl (No_host i)
        else if \<not> has_scheme (Endpoint mirror) then Inl (No_scheme i (Endpoint mirror))
        else Inr mirror))"

definition registryMirrors :: "fsys \<Rightarrow> obj \<Rightarrow> mirror_error + RegistryMirror list" where
  "registryMirrors fs m =
     collect (\<lambda>(i, raw). registryMirror fs i raw) (enumerate 0 (nestedSlice m [''spec'', ''registries'']))"

subsection \<open>What is dialled is what is bound\<close>

lemma hostForward_loop_bound:
  assumes "hostForward_loop hfs gp = (a, p)" "0 < p" "0 < gp"
  shows "\<exists>hf \<in> set hfs. toInt (field (as_map hf) ''guestPort'') = gp \<and>
     netdev_entry hf = (let proto = to_lower (str (field (as_map hf) ''protocol'') ''tcp'') in
        if proto = ''udp'' then hostfwd ''udp'' a p gp
        else if proto = ''both'' \<or> proto = ''tcp+udp'' then hostfwd ''tcp'' a p gp @ hostfwd ''udp'' a p gp
        else hostfwd ''tcp'' a p gp)"
  using assms
proof (induction hfs)
  case (Cons hf hfs)
  show ?case
  proof (cases "toInt (field (as_map hf) ''guestPort'') = gp")
    case True
    with Cons.prems show ?thesis by (intro bexI [of _ hf]) (auto simp: netdev_entry_def Let_def)
  next
    case False
    with Cons show ?thesis by (auto simp: Let_def)
  qed
qed simp

lemma concat_contains: "x \<in> set xs \<Longrightarrow> \<exists>u v. concat xs = u @ x @ v"
  by (auto simp: in_set_conv_decomp) blast

lemma str_containsI: "str_contains (u @ s @ v) s"
  unfolding str_contains_iff by blast

lemma str_contains_trans: "str_contains s t \<Longrightarrow> str_contains t r \<Longrightarrow> str_contains s r"
proof -
  assume "str_contains s t" "str_contains t r"
  then obtain u v u' v' where "s = u @ t @ v" "t = u' @ r @ v'" by (auto simp: str_contains_iff)
  then have "s = (u @ u') @ r @ (v' @ v)" by simp
  then show ?thesis unfolding str_contains_iff by blast
qed

lemma netdev_arg_contains:
  assumes "hf \<in> set (nestedSlice m [''spec'', ''hostForwards''])"
  shows "str_contains (netdev_arg m) (netdev_entry hf)"
proof -
  from assms have "netdev_entry hf \<in> set (map netdev_entry (nestedSlice m [''spec'', ''hostForwards'']))" by simp
  from concat_contains [OF this] obtain u v
    where "concat (map netdev_entry (nestedSlice m [''spec'', ''hostForwards''])) = u @ netdev_entry hf @ v" by blast
  then show ?thesis unfolding netdev_arg_def using str_containsI [of "''user,id=n0'' @ u"] by simp
qed

text \<open>
  C33. The address a bring-up dials is the address qemu binds: whenever the Talos endpoint of a
  machine is not empty, the \<^verbatim>\<open>-netdev\<close> argument forwards exactly that host address and port to
  guest port 50000, over TCP unless the entry asks for UDP alone.
\<close>

theorem talosEndpoint_bound:
  assumes "talosEndpoint m \<noteq> ''''"
  shows "\<exists>a p proto. talosEndpoint m = a @ '':'' @ itoa p \<and> 0 < p \<and> proto \<in> {''tcp'', ''udp''}
     \<and> str_contains (netdev_arg m) (hostfwd proto a p talosAPIGuestPort)
     \<and> (proto = ''udp'' \<longrightarrow> (\<exists>hf \<in> set (nestedSlice m [''spec'', ''hostForwards'']).
           to_lower (str (field (as_map hf) ''protocol'') ''tcp'') = ''udp''))"
proof -
  let ?hfs = "nestedSlice m [''spec'', ''hostForwards'']"
  obtain a p where fwd: "hostForward_loop ?hfs talosAPIGuestPort = (a, p)" by fastforce
  with assms have p: "0 < p" "talosEndpoint m = a @ '':'' @ itoa p"
    by (auto simp: talosEndpoint_def hostForward_def split: if_splits)
  have "0 < talosAPIGuestPort" by (simp add: talosAPIGuestPort_def)
  from hostForward_loop_bound [OF fwd p(1) this] obtain hf where hf: "hf \<in> set ?hfs"
    and entry: "netdev_entry hf = (let proto = to_lower (str (field (as_map hf) ''protocol'') ''tcp'') in
        if proto = ''udp'' then hostfwd ''udp'' a p talosAPIGuestPort
        else if proto = ''both'' \<or> proto = ''tcp+udp''
          then hostfwd ''tcp'' a p talosAPIGuestPort @ hostfwd ''udp'' a p talosAPIGuestPort
        else hostfwd ''tcp'' a p talosAPIGuestPort)" by blast
  note contains = netdev_arg_contains [OF hf]
  show ?thesis
  proof (cases "to_lower (str (field (as_map hf) ''protocol'') ''tcp'') = ''udp''")
    case True
    with entry contains p hf show ?thesis
      by (intro exI [of _ a] exI [of _ p] exI [of _ "''udp''"]) (auto simp: Let_def)
  next
    case False
    have "str_contains (netdev_entry hf) (hostfwd ''tcp'' a p talosAPIGuestPort)"
      using str_containsI [of "[]" "hostfwd ''tcp'' a p talosAPIGuestPort" "[]"]
        str_containsI [of "[]" "hostfwd ''tcp'' a p talosAPIGuestPort" "hostfwd ''udp'' a p talosAPIGuestPort"] False
      by (simp add: entry Let_def)
    with contains p show ?thesis
      by (intro exI [of _ a] exI [of _ p] exI [of _ "''tcp''"]) (auto intro: str_contains_trans)
  qed
qed

definition lan_machine :: obj where
  "lan_machine = [(''spec'', VMap [(''hostForwards'', VList
     [VMap [(''hostAddr'', VStr ''10.0.0.7''), (''hostPort'', VFloat 50001), (''guestPort'', VFloat 50000)]])])]"

lemma lan_machine_endpoint: "talosEndpoint lan_machine = ''10.0.0.7:50001''"
  by (simp add: lan_machine_def talosEndpoint_def hostForward_def nestedSlice_def as_map_def field_def toInt_def
      str_def talosAPIGuestPort_def itoa_def dec_eval)

theorem talosEndpoint_bound_witness:
  "talosEndpoint lan_machine \<noteq> '''' \<and>
   (\<exists>a p proto. talosEndpoint lan_machine = a @ '':'' @ itoa p \<and> 0 < p
     \<and> str_contains (netdev_arg lan_machine) (hostfwd proto a p talosAPIGuestPort))"
  using talosEndpoint_bound [of lan_machine] by (auto simp: lan_machine_endpoint)

subsection \<open>Sizes\<close>

lemma trim_right_set_digits:
  "(\<And>c. c \<in> set ds \<Longrightarrow> ascii_digit c) \<Longrightarrow> list_all (\<lambda>c. c \<in> set ''GiMB'') u \<Longrightarrow>
   trim_right_set (ds @ u) ''GiMB'' = ds"
proof -
  assume ds: "\<And>c. c \<in> set ds \<Longrightarrow> ascii_digit c" and u: "list_all (\<lambda>c. c \<in> set ''GiMB'') u"
  have keep: "dropWhile (\<lambda>c. c \<in> set ''GiMB'') (rev ds) = rev ds"
  proof (cases ds rule: rev_cases)
    case (snoc ys y)
    then have "ascii_digit y" using ds by simp
    then have "y \<notin> set ''GiMB''" by (auto simp: ascii_digit_def)
    with snoc show ?thesis by simp
  qed simp
  have "\<forall>c \<in> set (rev u). c \<in> set ''GiMB''" using u by (simp add: list_all_iff)
  then have "dropWhile (\<lambda>c. c \<in> set ''GiMB'') (rev u @ rev ds) = rev ds"
    by (simp only: dropWhile_append2 keep)
  then show ?thesis by (simp add: trim_right_set_def)
qed

lemma trim_size:
  assumes "u \<in> {''Gi'', ''Mi''}"
  shows "trim_space (dec_of_nat n @ u) = dec_of_nat n @ u"
proof (rule trim_space_visible)
  have "visible (hd (dec_of_nat n))" using hd_dec_of_nat [of n] by (simp add: ascii_digit_def visible_def Let_def)
  moreover have "visible (last u)" "u \<noteq> []" using assms by (auto simp: visible_def Let_def)
  ultimately show "dec_of_nat n @ u = [] \<or> visible (hd (dec_of_nat n @ u)) \<and> visible (last (dec_of_nat n @ u))"
    by simp
qed

text \<open>
  Sizes are read in MiB without wrap-around: N\<^verbatim>\<open>Gi\<close> is 1024 N and N\<^verbatim>\<open>Mi\<close> is N, for
  every N below \<open>2^53\<close>.
\<close>

theorem toMB_quantity:
  assumes "0 < n" "n < 2 ^ 53"
  shows "toMB (dec_of_nat n @ ''Gi'') = 1024 * int n \<and> toMB (dec_of_nat n @ ''Mi'') = int n"
proof -
  have digits: "\<And>c. c \<in> set (dec_of_nat n) \<Longrightarrow> ascii_digit c" by (rule dec_of_nat_digits)
  have "trim_right_set (dec_of_nat n @ ''Gi'') ''GiMB'' = dec_of_nat n"
    "trim_right_set (dec_of_nat n @ ''Mi'') ''GiMB'' = dec_of_nat n"
    by (rule trim_right_set_digits [OF digits]; simp)+
  moreover have "has_suffix (dec_of_nat n @ ''Gi'') ''Gi''" "\<not> has_suffix (dec_of_nat n @ ''Mi'') ''Gi''"
    "\<not> has_suffix (dec_of_nat n @ ''Mi'') ''G''"
    by (auto simp: has_suffix_def)
  moreover have "int64 (int n * 1024) = 1024 * int n" "int64 (int n) = int n"
    using assms(2) by (simp_all add: int64_id)
  ultimately show ?thesis
    using assms trim_size [of "''Gi''" n] trim_size [of "''Mi''" n] atoi_dec_of_nat [of n]
    by (simp add: toMB_def)
qed

theorem toMB_quantity_witness: "toMB (dec_of_nat 4 @ ''Gi'') = 4096 \<and> toMB (dec_of_nat 4 @ ''Mi'') = 4"
  using toMB_quantity [of 4] by simp

text \<open>The suffix \<^verbatim>\<open>GB\<close> is not one of the recognised units, and its digits are read as MiB.\<close>

lemma toMB_GB: "toMB ''4GB'' = 4"
proof -
  have "trim_space ''4GB'' = ''4GB''" by (rule trim_space_visible) (simp add: visible_def)
  then show ?thesis
    by (simp add: toMB_def has_suffix_def trim_right_set_def atoi_def atoi_digits_def ascii_digit_def
        digit_val_def int64_def)
qed

subsection \<open>The SMBIOS UUID\<close>

lemma length_hex [simp]: "length (hex b) = 2 * length b"
  by (induction b) (simp_all add: hex_def)

text \<open>
  The derived UUID has the shape of an RFC 4122 version 4 UUID, whatever the digest: 36
  characters in the groups 8-4-4-4-12, the version digit 4, and a variant digit of 8, 9, a or b,
  so it is never the all-zero UUID that Talos refuses.
\<close>

theorem machineUUID_v4:
  assumes "length (sha256 (''tinq-machine-uuid:'' @ name)) = 32"
  shows "length (machineUUID sha256 name) = 36 \<and> machineUUID sha256 name ! 14 = CHR ''4''
     \<and> machineUUID sha256 name ! 19 \<in> set ''89ab''
     \<and> (\<forall>i \<in> {8, 13, 18, 23}. machineUUID sha256 name ! i = CHR ''-'')"
proof -
  define s0 where "s0 = sha256 (''tinq-machine-uuid:'' @ name)"
  define s1 where "s1 = s0[6 := char_of ((of_char (s0 ! 6) mod 16) + 64 :: nat)]"
  define s where "s = s1[8 := char_of ((of_char (s1 ! 8) mod 64) + 128 :: nat)]"
  have len: "length s = 32" "length s1 = 32" using assms by (simp_all add: s_def s1_def s0_def)
  have uuid: "machineUUID sha256 name = hex (take 4 s) @ ''-'' @ hex (take 2 (drop 4 s)) @ ''-'' @ hex (take 2 (drop 6 s))
      @ ''-'' @ hex (take 2 (drop 8 s)) @ ''-'' @ hex (take 6 (drop 10 s))"
    by (simp add: machineUUID_def Let_def s_def s1_def s0_def)
  have s6: "(of_char (s ! 6) :: nat) div 16 = 4"
    using len by (simp add: s_def s1_def assms s0_def)
  have s8: "(of_char (s ! 8) :: nat) div 16 \<in> {8, 9, 10, 11}"
  proof -
    have "(of_char (s ! 8) :: nat) = of_char (s1 ! 8) mod 64 + 128" using len by (simp add: s_def)
    then have "128 \<le> (of_char (s ! 8) :: nat)" "(of_char (s ! 8) :: nat) < 192"
      using pos_mod_bound [of 64] by (simp_all add: mod_less_divisor)
    then show ?thesis by auto
  qed
  have hex2: "hex (take 2 (drop k s)) = hex_digit (of_char (s ! k) div 16) # tl (hex (take 2 (drop k s)))" if "k < 31" for k
    using that len by (simp add: Cons_nth_drop_Suc [symmetric] hex_def numeral_2_eq_2)
  have "hex_digit 4 = CHR ''4''" "hex_digit 8 = CHR ''8''" "hex_digit 9 = CHR ''9''" "hex_digit 10 = CHR ''a''" "hex_digit 11 = CHR ''b''"
    by code_simp+
  then show ?thesis
    using len s8 hex2 [of 6] hex2 [of 8] s6
    by (auto simp: uuid nth_append) (metis nth_Cons_0)+
qed

definition zero_digest :: "bytes \<Rightarrow> bytes" where
  "zero_digest b = replicate 32 (CHR 0x00)"

theorem machineUUID_v4_witness:
  "length (zero_digest (''tinq-machine-uuid:'' @ ''m0'')) = 32 \<and> length (machineUUID zero_digest ''m0'') = 36"
  using machineUUID_v4 [of zero_digest "''m0''"] by (simp add: zero_digest_def)

subsection \<open>Registry mirrors\<close>

text \<open>
  \<open>registryMirrors\<close> refuses rather than skips: when it succeeds, there is one mirror per entry
  of \<^verbatim>\<open>spec.registries\<close>, in order, each with a host and an endpoint that names its scheme.
\<close>

theorem registryMirrors_complete:
  assumes "registryMirrors fs m = Inr ms"
  shows "length ms = length (nestedSlice m [''spec'', ''registries'']) \<and>
    (\<forall>i < length ms. Host (ms ! i) = str (field (as_map (nestedSlice m [''spec'', ''registries''] ! i)) ''host'') ''''
        \<and> Host (ms ! i) \<noteq> '''' \<and> has_scheme (Endpoint (ms ! i)))"
proof -
  let ?raw = "nestedSlice m [''spec'', ''registries'']"
  from assms have all: "list_all2 (\<lambda>x y. (case x of (i, raw) \<Rightarrow> registryMirror fs i raw) = Inr y) (enumerate 0 ?raw) ms"
    by (simp add: registryMirrors_def result_simps)
  then have len: "length ms = length ?raw" by (auto dest: list_all2_lengthD)
  moreover have "registryMirror fs i (?raw ! i) = Inr (ms ! i)" if "i < length ms" for i
    using list_all2_nthD2 [OF all that] that len by (simp add: nth_enumerate_eq)
  moreover have "Host r = str (field (as_map raw) ''host'') '''' \<and> Host r \<noteq> '''' \<and> has_scheme (Endpoint r)"
    if "registryMirror fs i raw = Inr r" for i raw r
    using that by (auto simp: registryMirror_def result_simps Let_def split: if_splits)
  ultimately show ?thesis by blast
qed

definition mirrored_machine :: obj where
  "mirrored_machine = [(''spec'', VMap [(''registries'', VList
     [VMap [(''host'', VStr ''10.0.2.2:5000''), (''endpoint'', VStr ''http://10.0.2.2:5000'')]])])]"

definition empty_fs :: fsys where
  "empty_fs = \<lparr>fs_dir = Map.empty, fs_file = Map.empty, fs_stat = Map.empty\<rparr>"

lemma mirrored_machine_ok:
  "registryMirrors empty_fs mirrored_machine = Inr [\<lparr>Host = ''10.0.2.2:5000'', Endpoint = ''http://10.0.2.2:5000'',
     CA = '''', InsecureSkipVerify = False, OverridePath = False\<rparr>]"
  by (simp add: registryMirrors_def mirrored_machine_def nestedSlice_def registryMirror_def is_map_def as_map_def
      registryCA_def field_def str_def has_scheme_def has_prefix_def)

theorem registryMirrors_complete_witness:
  "\<exists>ms. registryMirrors empty_fs mirrored_machine = Inr ms \<and> length ms = 1 \<and> has_scheme (Endpoint (ms ! 0))"
  using registryMirrors_complete [OF mirrored_machine_ok] mirrored_machine_ok by auto

end
