(* ===== verification/Cluster_Identity.thy ===== *)
theory Cluster_Identity
  imports Cluster_Documents
begin

section \<open>Versions and node identity\<close>

text \<open>
  Models \<^verbatim>\<open>src/cluster/version.go\<close> and \<^verbatim>\<open>src/cluster/nodeidentity.go\<close>. The Talos machinery is
  a record of functions: how it parses and compares version contracts, whether it accepts a CEL
  selector, and how it assembles a container of documents. A config document is a constructor with
  the fields the code edits and an opaque rest, so that an edit that dropped the rest would be
  visible.
\<close>

subsection \<open>The machinery the code calls\<close>

record 'c machinery =
  ParseContract :: "string \<Rightarrow> 'c option"
  Greater :: "'c \<Rightarrow> 'c \<Rightarrow> bool"
  TalosVersion1_13 :: 'c
  VersionTag :: string

subsection \<open>Version guard\<close>

datatype version_error = Image_newer string string

definition checkVersion :: "'c machinery \<Rightarrow> string \<Rightarrow> string \<Rightarrow> bool \<times> version_error option" where
  "checkVersion mc imageVersion generatorVersion =
     (case ParseContract mc imageVersion of
        None \<Rightarrow> (False, None)
      | Some img \<Rightarrow>
        (case ParseContract mc generatorVersion of
           None \<Rightarrow> (False, None)
         | Some gen \<Rightarrow>
             if Greater mc img gen then (True, Some (Image_newer imageVersion generatorVersion)) else (True, None)))"

definition CheckVersion :: "'c machinery \<Rightarrow> string \<Rightarrow> bool \<times> version_error option" where
  "CheckVersion mc imageVersion = checkVersion mc imageVersion (VersionTag mc)"

subsection \<open>Endpoints of a node on a cluster network\<close>

record ClusterNetwork =
  cn_Address :: prefix
  cn_HardwareAddr :: string
  cn_EgressHardwareAddr :: string

definition kubeAPIPort :: string where "kubeAPIPort = ''6443''"

text \<open>\<^verbatim>\<open>net.JoinHostPort\<close>: a host with a colon is bracketed.\<close>

definition JoinHostPort :: "string \<Rightarrow> string \<Rightarrow> string" where
  "JoinHostPort host port =
     (if CHR '':'' \<in> set host then ''['' @ host @ '']:'' @ port else host @ '':'' @ port)"

definition InClusterEndpoint :: "ClusterNetwork \<Rightarrow> string" where
  "InClusterEndpoint cn = ''https://'' @ JoinHostPort (addr_string (fst (cn_Address cn))) kubeAPIPort"

datatype endpoint_error = Endpoint_unreadable string | Endpoint_not_https string string

text \<open>\<open>url_parse\<close> is \<^verbatim>\<open>url.Parse\<close>: the scheme and the host name of a URL, \<^term>\<open>None\<close> for an error.\<close>

definition ReadClusterEndpoint ::
  "fsys \<Rightarrow> (string \<Rightarrow> (string \<times> string) option) \<Rightarrow> string \<Rightarrow> endpoint_error + string" where
  "ReadClusterEndpoint fs url_parse stateDir =
     (case fs_file fs (path_join [stateDir, ''cluster-endpoint'']) of
        None \<Rightarrow> Inl (Endpoint_unreadable stateDir)
      | Some b \<Rightarrow>
          let endpoint = trim_space b in
          (case url_parse endpoint of
             Some (scheme, host) \<Rightarrow>
               if scheme \<noteq> ''https'' \<or> host = '''' then Inl (Endpoint_not_https stateDir endpoint) else Inr endpoint
           | None \<Rightarrow> Inl (Endpoint_not_https stateDir endpoint)))"

definition controlPlaneEndpoint :: "string \<Rightarrow> ClusterNetwork option \<Rightarrow> string \<Rightarrow> string" where
  "controlPlaneEndpoint kubeEndpoint cn joinEndpoint =
     (if joinEndpoint \<noteq> '''' then joinEndpoint
      else case cn of Some c \<Rightarrow> InClusterEndpoint c | None \<Rightarrow> kubeEndpoint)"

definition hostSANs :: "(string \<Rightarrow> (string \<times> string) option) \<Rightarrow> string \<Rightarrow> ClusterNetwork option \<Rightarrow> string list" where
  "hostSANs url_parse kubeEndpoint cn =
     (case cn of
        None \<Rightarrow> []
      | Some _ \<Rightarrow>
        (case url_parse kubeEndpoint of
           None \<Rightarrow> []
         | Some (_, host) \<Rightarrow> if host = '''' then [] else [host]))"

subsection \<open>Which images carry an identity\<close>

datatype identity_error =
  Bad_talos_version string
| Needs_document_model string string
| Missing_documents string
| Missing_hostname_document
| No_egress_mac
| Bad_selector string string
| Container_refused string

text \<open>\<open>checkNodeIdentity\<close> reads three fields of its \<^verbatim>\<open>ConfigInput\<close>: they are its arguments.\<close>

definition checkNodeIdentity ::
  "'c machinery \<Rightarrow> string \<Rightarrow> ClusterNetwork option \<Rightarrow> string \<Rightarrow> 'c \<Rightarrow> identity_error option" where
  "checkNodeIdentity mc talosVersion cn hostname contract =
     (if Greater mc contract (TalosVersion1_13 mc) then None
      else if cn \<noteq> None then Some (Needs_document_model ''a cluster network'' talosVersion)
      else if hostname \<noteq> '''' then Some (Needs_document_model ''a declared hostname'' talosVersion)
      else None)"

definition CheckNodeIdentity ::
  "'c machinery \<Rightarrow> string \<Rightarrow> ClusterNetwork option \<Rightarrow> string \<Rightarrow> identity_error option" where
  "CheckNodeIdentity mc talosVersion cn hostname =
     (if talosVersion = '''' \<or> (cn = None \<and> hostname = '''') then None
      else case ParseContract mc talosVersion of
          None \<Rightarrow> Some (Bad_talos_version talosVersion)
        | Some contract \<Rightarrow> checkNodeIdentity mc talosVersion cn hostname contract)"

subsection \<open>Editing the generated documents\<close>

definition prefix_str :: "prefix \<Rightarrow> string" where
  "prefix_str p = addr_string (fst p) @ ''/'' @ dec_of_nat (snd p)"

definition UserModeNetwork :: prefix where
  "UserModeNetwork = (V4 0x0A000200, 24)"

definition set_proxy_key :: "(string \<times> string list) list \<Rightarrow> string \<Rightarrow> string list \<Rightarrow> (string \<times> string list) list" where
  "set_proxy_key ob k v = (k, v) # filter (\<lambda>e. fst e \<noteq> k) ob"

text \<open>One turn of the loop over the documents.\<close>

definition edit_document :: "ClusterNetwork option \<Rightarrow> string \<Rightarrow> document \<Rightarrow> document" where
  "edit_document cn hn doc =
     (case doc of
        KubeNodeConfig subnets r \<Rightarrow>
          (case cn of Some c \<Rightarrow> KubeNodeConfig [prefix_str (Masked (cn_Address c))] r | None \<Rightarrow> doc)
      | KubeFlannelCNIConfig args r \<Rightarrow>
          (case cn of Some c \<Rightarrow>
             KubeFlannelCNIConfig (args @ [''--iface-can-reach='' @ addr_string (fst (Masked (cn_Address c)))]) r
           | None \<Rightarrow> doc)
      | KubeProxyConfig ob r \<Rightarrow>
          (case cn of Some c \<Rightarrow>
             KubeProxyConfig (set_proxy_key ob ''nodePortAddresses''
                [prefix_str (Masked (cn_Address c)), prefix_str UserModeNetwork]) r
           | None \<Rightarrow> doc)
      | HostnameConfig a h r \<Rightarrow> if hn \<noteq> '''' then HostnameConfig ''off'' hn r else doc
      | _ \<Rightarrow> doc)"

definition is_node :: "document \<Rightarrow> bool" where
  "is_node d = (case d of KubeNodeConfig _ _ \<Rightarrow> True | _ \<Rightarrow> False)"

definition is_flannel :: "document \<Rightarrow> bool" where
  "is_flannel d = (case d of KubeFlannelCNIConfig _ _ \<Rightarrow> True | _ \<Rightarrow> False)"

definition is_hostname :: "document \<Rightarrow> bool" where
  "is_hostname d = (case d of HostnameConfig _ _ _ \<Rightarrow> True | _ \<Rightarrow> False)"

definition missing :: "bool \<Rightarrow> string \<Rightarrow> bool \<Rightarrow> string \<Rightarrow> string" where
  "missing a aName b bName = (if a \<and> b then aName @ '' or '' @ bName else if a then aName else bName)"

text \<open>\<open>cel\<close> is \<^verbatim>\<open>cel.ParseBooleanExpression\<close>: whether the selector parses.\<close>

definition linkAlias :: "(string \<Rightarrow> bool) \<Rightarrow> string \<Rightarrow> string \<Rightarrow> identity_error + document" where
  "linkAlias cel name mac =
     (let expr = ''mac(link.permanent_addr) == '' @ quote mac in
      if cel expr then Inr (LinkAliasConfig name expr) else Inl (Bad_selector name mac))"

definition clusterLinkDocuments :: "(string \<Rightarrow> bool) \<Rightarrow> ClusterNetwork \<Rightarrow> identity_error + document list" where
  "clusterLinkDocuments cel cn =
     (if cn_EgressHardwareAddr cn = '''' then Inl No_egress_mac
      else and_then (linkAlias cel ''cluster0'' (cn_HardwareAddr cn)) (\<lambda>clusterAlias.
           and_then (linkAlias cel ''egress0'' (cn_EgressHardwareAddr cn)) (\<lambda>egressAlias.
           Inr [clusterAlias, egressAlias, LinkConfig ''cluster0'' True [cn_Address cn], DHCPv4Config ''egress0''])))"

definition withNodeIdentity ::
  "(string \<Rightarrow> bool) \<Rightarrow> (document list \<Rightarrow> string option) \<Rightarrow> document list \<Rightarrow> ClusterNetwork option \<Rightarrow> string
     \<Rightarrow> identity_error + document list" where
  "withNodeIdentity cel container_check docs cn hn =
     (if cn = None \<and> hn = '''' then Inr docs
      else
        let out = map (edit_document cn hn) docs;
            sawNode = list_ex is_node docs; sawFlannel = list_ex is_flannel docs;
            sawHostname = list_ex is_hostname docs in
        if cn \<noteq> None \<and> (\<not> sawNode \<or> \<not> sawFlannel) then
          Inl (Missing_documents (missing (\<not> sawNode) ''KubeNodeConfig'' (\<not> sawFlannel) ''KubeFlannelCNIConfig''))
        else if hn \<noteq> '''' \<and> \<not> sawHostname then Inl Missing_hostname_document
        else and_then (case cn of None \<Rightarrow> Inr [] | Some c \<Rightarrow> clusterLinkDocuments cel c) (\<lambda>links.
             case container_check (out @ links) of
               Some e \<Rightarrow> Inl (Container_refused e)
             | None \<Rightarrow> Inr (out @ links)))"

subsection \<open>What the guards guarantee\<close>

lemma checkVersion_unchecked:
  "fst (checkVersion mc img gen) \<longleftrightarrow> ParseContract mc img \<noteq> None \<and> ParseContract mc gen \<noteq> None"
  by (auto simp: checkVersion_def split: option.splits)

text \<open>The rest of a document survives every edit.\<close>

definition doc_rest :: "document \<Rightarrow> string" where
  "doc_rest d = (case d of
       KubeNodeConfig _ r \<Rightarrow> r | KubeFlannelCNIConfig _ r \<Rightarrow> r | KubeProxyConfig _ r \<Rightarrow> r
     | HostnameConfig _ _ r \<Rightarrow> r | LinkAliasConfig n e \<Rightarrow> n @ e | LinkConfig n _ _ \<Rightarrow> n
     | DHCPv4Config n \<Rightarrow> n | V1Alpha1Config _ r \<Rightarrow> r | VolumeConfig n m _ \<Rightarrow> n @ m
     | UserVolumeConfig n m _ _ _ _ \<Rightarrow> n @ m | OtherDocument k n r \<Rightarrow> k @ n @ r)"

lemma edit_document_rest: "doc_rest (edit_document cn hn d) = doc_rest d"
  by (cases d) (simp_all add: edit_document_def doc_rest_def split: option.splits)

lemma edit_document_none: "edit_document None '''' d = d"
  by (cases d) (simp_all add: edit_document_def)

text \<open>
  C28. A node that joins a cluster network gets all of it or nothing: when the identity is applied,
  every generated document is kept in its place with its untouched content, every kubelet document
  is bound to the segment, every Flannel document is pointed at the segment's network address,
  and the four link documents (both aliases, the static address, DHCP on the egress link) close
  the list. Without the kubelet or the Flannel document, or without the egress NIC's MAC, it fails.
\<close>

theorem withNodeIdentity_cluster:
  assumes "withNodeIdentity cel chk docs (Some c) hn = Inr out"
  shows "list_ex is_node docs \<and> list_ex is_flannel docs \<and> cn_EgressHardwareAddr c \<noteq> '''' \<and>
    (\<exists>ca ea. out = map (edit_document (Some c) hn) docs
              @ [ca, ea, LinkConfig ''cluster0'' True [cn_Address c], DHCPv4Config ''egress0'']
        \<and> linkAlias cel ''cluster0'' (cn_HardwareAddr c) = Inr ca
        \<and> linkAlias cel ''egress0'' (cn_EgressHardwareAddr c) = Inr ea) \<and>
    (\<forall>i < length docs. doc_rest (out ! i) = doc_rest (docs ! i)
        \<and> (is_node (docs ! i) \<longrightarrow> node_subnets (out ! i) = [prefix_str (Masked (cn_Address c))])
        \<and> (is_flannel (docs ! i) \<longrightarrow> flannel_args (out ! i) =
              flannel_args (docs ! i) @ [''--iface-can-reach='' @ addr_string (fst (Masked (cn_Address c)))]))"
proof -
  from assms have saw: "list_ex is_node docs" "list_ex is_flannel docs"
    by (auto simp: withNodeIdentity_def Let_def split: if_splits)
  from assms obtain links where links: "clusterLinkDocuments cel c = Inr links"
    and out: "out = map (edit_document (Some c) hn) docs @ links"
    by (auto simp: withNodeIdentity_def Let_def result_simps split: if_splits option.splits)
  from links have egress: "cn_EgressHardwareAddr c \<noteq> ''''"
    by (auto simp: clusterLinkDocuments_def split: if_splits)
  from links egress obtain ca ea where aliases: "linkAlias cel ''cluster0'' (cn_HardwareAddr c) = Inr ca"
      "linkAlias cel ''egress0'' (cn_EgressHardwareAddr c) = Inr ea"
      "links = [ca, ea, LinkConfig ''cluster0'' True [cn_Address c], DHCPv4Config ''egress0'']"
    by (auto simp: clusterLinkDocuments_def result_simps)
  have nth: "out ! i = edit_document (Some c) hn (docs ! i)" if "i < length docs" for i
    using that by (simp add: out nth_append)
  have edits: "is_node d \<Longrightarrow> node_subnets (edit_document (Some c) hn d) = [prefix_str (Masked (cn_Address c))]"
    "is_flannel d \<Longrightarrow> flannel_args (edit_document (Some c) hn d) =
       flannel_args d @ [''--iface-can-reach='' @ addr_string (fst (Masked (cn_Address c)))]" for d
    by (cases d; simp add: edit_document_def is_node_def is_flannel_def)+
  show ?thesis
    using saw egress aliases out nth edits edit_document_rest by auto
qed

definition lab_network :: ClusterNetwork where
  "lab_network = \<lparr>cn_Address = (V4 0x0AFE000B, 24), cn_HardwareAddr = ''52:54:00:00:00:01'',
     cn_EgressHardwareAddr = ''52:54:00:00:00:02''\<rparr>"

definition lab_docs :: "document list" where
  "lab_docs = [KubeNodeConfig [] ''labels'', KubeFlannelCNIConfig [] ''vxlan'', OtherDocument ''SysctlConfig'' '''' ''body'']"

lemma lab_identity:
  "withNodeIdentity (\<lambda>_. True) (\<lambda>_. None) lab_docs (Some lab_network) '''' =
     Inr (map (edit_document (Some lab_network) '''') lab_docs
       @ [LinkAliasConfig ''cluster0'' (''mac(link.permanent_addr) == '' @ quote ''52:54:00:00:00:01''),
          LinkAliasConfig ''egress0'' (''mac(link.permanent_addr) == '' @ quote ''52:54:00:00:00:02''),
          LinkConfig ''cluster0'' True [(V4 0x0AFE000B, 24)], DHCPv4Config ''egress0''])"
  by (simp add: withNodeIdentity_def lab_docs_def lab_network_def clusterLinkDocuments_def linkAlias_def
      is_node_def is_flannel_def Let_def)

theorem withNodeIdentity_cluster_witness:
  "list_ex is_node lab_docs \<and> cn_EgressHardwareAddr lab_network \<noteq> '''' \<and>
   (\<exists>out. withNodeIdentity (\<lambda>_. True) (\<lambda>_. None) lab_docs (Some lab_network) '''' = Inr out
      \<and> doc_rest (out ! 0) = ''labels'')"
  using withNodeIdentity_cluster [OF lab_identity] lab_identity
  by (auto simp: lab_docs_def doc_rest_def)

lemma no_identity_unchanged: "withNodeIdentity cel chk docs None '''' = Inr docs"
  by (simp add: withNodeIdentity_def)
end
