(* ===== verification/Tinq_Clusternet.thy ===== *)
theory Tinq_Clusternet
  imports Tinq_Machine Cluster_Identity
begin

section \<open>Cluster networks of a site\<close>

text \<open>
  Models \<^verbatim>\<open>src/cmd/tinq/clusternet.go\<close>: reading and validating \<^verbatim>\<open>spec.clusterNetwork\<close>, the
  derived multicast endpoint and MAC addresses, the machine records of a site and the collision
  checks that run before a machine's state directory exists. The two CIDRs that machinery defines
  are arguments (\<open>podCIDR\<close>, \<open>serviceCIDR\<close>), the digest \<open>sha256\<close> too. A machine record is the YAML
  of the machine's object, with encoder and decoder as arguments.
\<close>

subsection \<open>Reading the block\<close>

record clusterNetwork =
  Name :: string
  CIDR :: prefix
  Addr :: addr
  Group :: addr
  Port :: int

datatype clusternet_error =
  Cidr_missing string
| Cidr_not_v4 string string
| Cidr_host_bits string string
| Cidr_too_small prefix string
| Cidr_overlaps prefix prefix string
| Addr_not_v4 string string
| Addr_outside addr prefix string
| Addr_is_network addr prefix string
| Addr_is_broadcast addr prefix string
| Group_not_scoped string string
| Port_out_of_range val string
| Site_unreadable string
| Record_unreadable string
| Port_bound string string int string string
| Cidr_disagrees string string
| Addr_taken string string addr

definition defaultClusterNetworkName :: string where "defaultClusterNetworkName = ''cluster''"

definition read_cidr :: "prefix \<Rightarrow> prefix \<Rightarrow> string \<Rightarrow> string \<Rightarrow> clusternet_error + prefix" where
  "read_cidr podCIDR serviceCIDR name cidrText =
     (if cidrText = '''' then Inl (Cidr_missing name)
      else case ParsePrefix cidrText of
          None \<Rightarrow> Inl (Cidr_not_v4 cidrText name)
        | Some cidr \<Rightarrow>
            if \<not> Is4 (fst cidr) then Inl (Cidr_not_v4 cidrText name)
            else if cidr \<noteq> Masked cidr then Inl (Cidr_host_bits cidrText name)
            else if snd cidr > 30 then Inl (Cidr_too_small cidr name)
            else case find (overlaps cidr) [UserModeNetwork, podCIDR, serviceCIDR] of
                Some other \<Rightarrow> Inl (Cidr_overlaps cidr other name)
              | None \<Rightarrow> Inr cidr)"

definition read_address :: "prefix \<Rightarrow> string \<Rightarrow> string \<Rightarrow> clusternet_error + addr" where
  "read_address cidr name addrText =
     (case ParseAddr addrText of
        None \<Rightarrow> Inl (Addr_not_v4 addrText name)
      | Some a \<Rightarrow>
          if \<not> Is4 a then Inl (Addr_not_v4 addrText name)
          else if \<not> contains cidr a then Inl (Addr_outside a cidr name)
          else if a = fst cidr then Inl (Addr_is_network a cidr name)
          else if \<not> contains cidr (addr_next a) then Inl (Addr_is_broadcast a cidr name)
          else Inr a)"

definition read_group :: "string \<Rightarrow> string \<Rightarrow> clusternet_error + addr" where
  "read_group name g =
     (if g = '''' then Inr Invalid
      else case ParseAddr g of
          None \<Rightarrow> Inl (Group_not_scoped g name)
        | Some grp \<Rightarrow>
            if \<not> contains (V4 0xEF000000, 8) grp then Inl (Group_not_scoped g name) else Inr grp)"

definition read_port :: "string \<Rightarrow> val option \<Rightarrow> clusternet_error + int" where
  "read_port name p =
     (case p of
        None \<Rightarrow> Inr 0
      | Some v \<Rightarrow>
          let port = toInt v in
          if port < 1024 \<or> port > 65535 then Inl (Port_out_of_range v name) else Inr port)"

definition specClusterNetwork :: "prefix \<Rightarrow> prefix \<Rightarrow> obj \<Rightarrow> clusternet_error + clusterNetwork option" where
  "specClusterNetwork podCIDR serviceCIDR m =
     (case nested m [''spec'', ''clusterNetwork''] of
        Some (VMap raw) \<Rightarrow>
          and_then (read_cidr podCIDR serviceCIDR (GetName m) (str (field raw ''cidr'') '''')) (\<lambda>cidr.
          and_then (read_address cidr (GetName m) (str (field raw ''address'') '''')) (\<lambda>a.
          and_then (read_group (GetName m) (str (field raw ''group'') '''')) (\<lambda>g.
          and_then (read_port (GetName m) (map_of raw ''port'')) (\<lambda>p.
          Inr (Some \<lparr>Name = str (field raw ''name'') defaultClusterNetworkName, CIDR = cidr, Addr = a,
                     Group = g, Port = p\<rparr>)))))
      | _ \<Rightarrow> Inr None)"

subsection \<open>Derived endpoints\<close>

definition multicast :: "(bytes \<Rightarrow> bytes) \<Rightarrow> clusterNetwork \<Rightarrow> string \<Rightarrow> addr \<times> int" where
  "multicast sha256 cn site =
     (let sum = sha256 (''tinq-cluster-network:'' @ site @ ''/'' @ Name cn);
          grp = V4 (word_of_octets [239, 255, of_char (sum ! 0), 1 + of_char (sum ! 1) mod 254]);
          port = 20000 + (of_char (sum ! 2) * 256 + of_char (sum ! 3)) mod 10000
      in (if Group cn \<noteq> Invalid then Group cn else grp, if Port cn \<noteq> 0 then Port cn else port))"

definition derived_mac :: "(bytes \<Rightarrow> bytes) \<Rightarrow> string \<Rightarrow> string \<Rightarrow> string" where
  "derived_mac sha256 label name =
     (let sum = sha256 (label @ name) in
      ''52:54:00:'' @ hex [sum ! 0] @ '':'' @ hex [sum ! 1] @ '':'' @ hex [sum ! 2])"

definition clusterMAC :: "(bytes \<Rightarrow> bytes) \<Rightarrow> string \<Rightarrow> string" where
  "clusterMAC sha256 name = derived_mac sha256 ''tinq-cluster-mac:'' name"

definition egressMAC :: "(bytes \<Rightarrow> bytes) \<Rightarrow> string \<Rightarrow> string" where
  "egressMAC sha256 name = derived_mac sha256 ''tinq-egress-mac:'' name"

definition nodeIdentity ::
  "(bytes \<Rightarrow> bytes) \<Rightarrow> prefix \<Rightarrow> prefix \<Rightarrow> obj \<Rightarrow> clusternet_error + (ClusterNetwork option \<times> string)" where
  "nodeIdentity sha256 podCIDR serviceCIDR m =
     (let hn = nested_string m [''spec'', ''hostname''] in
      case specClusterNetwork podCIDR serviceCIDR m of
        Inl e \<Rightarrow> Inl e
      | Inr None \<Rightarrow> Inr (None, hn)
      | Inr (Some cn) \<Rightarrow>
          Inr (Some \<lparr>cn_Address = (Addr cn, snd (CIDR cn)), cn_HardwareAddr = clusterMAC sha256 (GetName m),
                     cn_EgressHardwareAddr = egressMAC sha256 (GetName m)\<rparr>, hn))"

definition userNICDevice :: "(bytes \<Rightarrow> bytes) \<Rightarrow> obj \<Rightarrow> clusterNetwork option \<Rightarrow> string" where
  "userNICDevice sha256 m cn =
     (case cn of
        None \<Rightarrow> ''virtio-net-pci,netdev=n0''
      | Some _ \<Rightarrow> ''virtio-net-pci,netdev=n0,mac='' @ egressMAC sha256 (GetName m))"

definition clusterNICArgs :: "(bytes \<Rightarrow> bytes) \<Rightarrow> obj \<Rightarrow> clusterNetwork option \<Rightarrow> string list" where
  "clusterNICArgs sha256 m cn =
     (case cn of
        None \<Rightarrow> []
      | Some c \<Rightarrow>
          let (grp, prt) = multicast sha256 c (nested_string m [''spec'', ''site'']) in
          [''-netdev'', ''socket,id=n1,mcast='' @ addr_string grp @ '':'' @ itoa prt @ '',localaddr=127.0.0.1'',
           ''-device'', ''virtio-net-pci,netdev=n1,mac='' @ clusterMAC sha256 (GetName m)])"

subsection \<open>The records of a site\<close>

text \<open>
  What \<open>siteMachines\<close> sees: the entries of the site directory with whether each is a directory
  (\<^term>\<open>Inl True\<close> for a missing site, \<^term>\<open>Inl False\<close> for another error), and the record of a
  machine directory (\<^term>\<open>Inl True\<close> when absent).
\<close>

record site_view =
  sv_entries :: "string \<Rightarrow> bool + (string \<times> bool) list"
  sv_record :: "string \<Rightarrow> bool + bytes"
  sv_unmarshal :: "bytes \<Rightarrow> obj option"

definition machineRecordName :: string where "machineRecordName = ''machine.yaml''"

type_synonym siteMachine = "obj \<times> string"

fun site_scan :: "site_view \<Rightarrow> string \<Rightarrow> string \<Rightarrow> string \<Rightarrow> (string \<times> bool) list \<Rightarrow> clusternet_error + siteMachine list" where
  "site_scan sv root site self [] = Inr []"
| "site_scan sv root site self ((n, isDir) # es) =
     (let dir = path_join [root, site, n] in
      if \<not> isDir \<or> clean dir = clean self then site_scan sv root site self es
      else case sv_record sv (path_join [dir, machineRecordName]) of
          Inl True \<Rightarrow> site_scan sv root site self es
        | Inl False \<Rightarrow> Inl (Record_unreadable dir)
        | Inr b \<Rightarrow>
            (case sv_unmarshal sv b of
               None \<Rightarrow> Inl (Record_unreadable dir)
             | Some ob \<Rightarrow> and_then (site_scan sv root site self es) (\<lambda>rest. Inr ((ob, dir) # rest))))"

definition siteMachines :: "site_view \<Rightarrow> string \<Rightarrow> string \<Rightarrow> string \<Rightarrow> clusternet_error + siteMachine list" where
  "siteMachines sv root site self =
     (case sv_entries sv (path_join [root, site]) of
        Inl True \<Rightarrow> Inr []
      | Inl False \<Rightarrow> Inl (Site_unreadable site)
      | Inr entries \<Rightarrow>
          and_then (site_scan sv root site self entries) (\<lambda>out. Inr (sort_key (\<lambda>e. GetName (fst e)) out)))"

subsection \<open>Collisions\<close>

record hostBind =
  proto :: string
  addr :: string
  port :: int

definition bind_protos :: "string \<Rightarrow> string list" where
  "bind_protos p = (if p = ''udp'' then [''udp''] else if p = ''both'' \<or> p = ''tcp+udp'' then [''tcp'', ''udp''] else [''tcp''])"

definition entry_binds :: "val \<Rightarrow> hostBind list" where
  "entry_binds hf =
     (let h = as_map hf; hp = toInt (field h ''hostPort''); gp = toInt (field h ''guestPort'') in
      if hp \<le> 0 \<or> gp \<le> 0 then []
      else map (\<lambda>p. \<lparr>proto = p, addr = str (field h ''hostAddr'') defaultHostAddr, port = hp\<rparr>)
             (bind_protos (to_lower (str (field h ''protocol'') ''tcp''))))"

definition hostBinds :: "obj \<Rightarrow> hostBind list" where
  "hostBinds m = concat (map entry_binds (nestedSlice m [''spec'', ''hostForwards'']))"

definition binds_clash :: "hostBind \<Rightarrow> hostBind \<Rightarrow> bool" where
  "binds_clash a b =
     (proto a = proto b \<and> port a = port b \<and> (addr a = addr b \<or> addr a = ''0.0.0.0'' \<or> addr b = ''0.0.0.0''))"

definition checkForwardCollisions :: "obj \<Rightarrow> obj \<Rightarrow> clusternet_error option" where
  "checkForwardCollisions m other =
     (case find (\<lambda>(a, b). binds_clash a b) (List.product (hostBinds m) (hostBinds other)) of
        None \<Rightarrow> None
      | Some (a, b) \<Rightarrow> Some (Port_bound (proto a) (addr a) (port a) (GetName other) (GetName m)))"

definition check_network_against ::
  "prefix \<Rightarrow> prefix \<Rightarrow> obj \<Rightarrow> clusterNetwork option \<Rightarrow> obj \<Rightarrow> clusternet_error option" where
  "check_network_against podCIDR serviceCIDR m cn other =
     (case cn of
        None \<Rightarrow> None
      | Some c \<Rightarrow>
        (case specClusterNetwork podCIDR serviceCIDR other of
           Inr (Some oc) \<Rightarrow>
             if Name oc \<noteq> Name c then None
             else if CIDR oc \<noteq> CIDR c then Some (Cidr_disagrees (GetName m) (GetName other))
             else if Addr oc = Addr c then Some (Addr_taken (GetName other) (GetName m) (Addr c))
             else None
         | _ \<Rightarrow> None))"

fun check_others ::
  "prefix \<Rightarrow> prefix \<Rightarrow> obj \<Rightarrow> clusterNetwork option \<Rightarrow> siteMachine list \<Rightarrow> clusternet_error option" where
  "check_others podCIDR serviceCIDR m cn [] = None"
| "check_others podCIDR serviceCIDR m cn (other # others) =
     (if GetName (fst other) = GetName m then check_others podCIDR serviceCIDR m cn others
      else case checkForwardCollisions m (fst other) of
          Some e \<Rightarrow> Some e
        | None \<Rightarrow>
          (case check_network_against podCIDR serviceCIDR m cn (fst other) of
             Some e \<Rightarrow> Some e
           | None \<Rightarrow> check_others podCIDR serviceCIDR m cn others))"

definition checkSite :: "site_view \<Rightarrow> string \<Rightarrow> prefix \<Rightarrow> prefix \<Rightarrow> obj \<Rightarrow> clusternet_error option" where
  "checkSite sv stateRoot podCIDR serviceCIDR m =
     (case specClusterNetwork podCIDR serviceCIDR m of
        Inl e \<Rightarrow> Some e
      | Inr cn \<Rightarrow>
        (case siteMachines sv stateRoot (nested_string m [''spec'', ''site'']) (machine_dir stateRoot m) of
           Inl e \<Rightarrow> Some e
         | Inr others \<Rightarrow> check_others podCIDR serviceCIDR m cn others))"
subsection \<open>An accepted block\<close>

lemma Masked_id_wf: "ParsePrefix t = Some p \<Longrightarrow> Is4 (fst p) \<Longrightarrow> p = Masked p \<Longrightarrow> wf4 p \<and> fst (Masked p) = fst p"
  using ParsePrefix_wf4 by (metis)

lemma read_cidr_Inr:
  "read_cidr pod svc name t = Inr p \<longleftrightarrow>
     t \<noteq> '''' \<and> ParsePrefix t = Some p \<and> Is4 (fst p) \<and> p = Masked p \<and> snd p \<le> 30
       \<and> (\<forall>q \<in> {UserModeNetwork, pod, svc}. \<not> overlaps p q)"
  by (auto simp: read_cidr_def split: option.splits if_splits)

lemma read_address_Inr:
  "read_address p name t = Inr a \<longleftrightarrow>
     ParseAddr t = Some a \<and> Is4 a \<and> contains p a \<and> a \<noteq> fst p \<and> contains p (addr_next a)"
  by (auto simp: read_address_def split: option.splits if_splits)

text \<open>
  C30. An accepted cluster network is usable: its CIDR is a canonical IPv4 segment of at most 30
  bits that overlaps neither QEMU's user-mode network nor the pod and service CIDRs, the machine's
  address is a host of that segment, neither its network nor its broadcast address, an explicit
  group lies in 239.0.0.0/8 and an explicit port in 1024-65535.
\<close>

theorem specClusterNetwork_usable:
  assumes "specClusterNetwork pod svc m = Inr (Some cn)"
  shows "wf4 (CIDR cn) \<and> Masked (CIDR cn) = CIDR cn \<and> snd (CIDR cn) \<le> 30
    \<and> (\<forall>q \<in> {UserModeNetwork, pod, svc}. \<not> overlaps (CIDR cn) q)
    \<and> v4.host (CIDR cn) (Addr cn)
    \<and> (Group cn = Invalid \<or> contains (V4 0xEF000000, 8) (Group cn))
    \<and> (Port cn = 0 \<or> 1024 \<le> Port cn \<and> Port cn \<le> 65535)"
proof -
  from assms obtain raw where cidr: "read_cidr pod svc (GetName m) (str (field raw ''cidr'') '''') = Inr (CIDR cn)"
    and addr: "read_address (CIDR cn) (GetName m) (str (field raw ''address'') '''') = Inr (Addr cn)"
    and group: "read_group (GetName m) (str (field raw ''group'') '''') = Inr (Group cn)"
    and port: "read_port (GetName m) (map_of raw ''port'') = Inr (Port cn)"
    by (auto simp: specClusterNetwork_def result_simps split: option.splits val.splits)
  from cidr have wf: "wf4 (CIDR cn)" "Masked (CIDR cn) = CIDR cn" "snd (CIDR cn) \<le> 30"
      "\<forall>q \<in> {UserModeNetwork, pod, svc}. \<not> overlaps (CIDR cn) q"
    using ParsePrefix_wf4 [of _ "CIDR cn"] unfolding read_cidr_Inr by auto
  from addr have "v4.host (CIDR cn) (Addr cn)"
    unfolding read_address_Inr v4.host_iff [OF wf(1), symmetric] wf(2) by simp
  with wf group port show ?thesis
    by (auto simp: read_group_def read_port_def Let_def split: if_splits option.splits)
qed

definition lab_machine :: obj where
  "lab_machine = [(''metadata'', VMap [(''name'', VStr ''cp1'')]), (''spec'', VMap [(''site'', VStr ''lab''),
     (''clusterNetwork'', VMap [(''cidr'', VStr (prefix_string 0x0AFE0000 24)), (''address'', VStr (v4_string 0x0AFE000B))])])]"

lemma lab_machine_network:
  "specClusterNetwork (V4 0x0AF40000, 16) (V4 0x0A600000, 12) lab_machine =
     Inr (Some \<lparr>Name = ''cluster'', CIDR = (V4 0x0AFE0000, 24), Addr = V4 0x0AFE000B, Group = Invalid, Port = 0\<rparr>)"
proof -
  have "str (VStr (prefix_string w n)) '''' = prefix_string w n" "str (VStr (v4_string w)) '''' = v4_string w" for w n
    by (auto simp: str_def prefix_string_def v4_string_def v4_octets_def)
  moreover have "prefix_string w n \<noteq> ''''" for w n by (simp add: prefix_string_def)
  ultimately show ?thesis
    by (simp add: specClusterNetwork_def lab_machine_def field_def read_cidr_def ParsePrefix_prefix_string Is4_def
        Masked_def overlaps_def UserModeNetwork_def read_address_def contains_def addr_next_def read_group_def
        read_port_def str_def defaultClusterNetworkName_def)
qed

theorem specClusterNetwork_usable_witness:
  "\<exists>cn. specClusterNetwork (V4 0x0AF40000, 16) (V4 0x0A600000, 12) lab_machine = Inr (Some cn) \<and> v4.host (CIDR cn) (Addr cn)"
  using specClusterNetwork_usable [OF lab_machine_network] lab_machine_network by auto

subsection \<open>The derived multicast endpoint\<close>

text \<open>
  Without overrides the multicast endpoint depends on the site and the network's name alone, its
  group lies in 239.255.0.0/16 with a last octet of 1 to 254, and its port in 20000-29999, whatever
  the digest.
\<close>

theorem multicast_range:
  assumes "Group cn = Invalid" "Port cn = 0" "multicast sha256 cn site = (g, p)"
  shows "20000 \<le> p \<and> p < 30000 \<and> (\<exists>a b. a < 256 \<and> 1 \<le> b \<and> b \<le> 254 \<and> g = V4 (word_of_octets [239, 255, a, b]))
    \<and> (\<forall>cn'. Name cn' = Name cn \<and> Group cn' = Invalid \<and> Port cn' = 0 \<longrightarrow> multicast sha256 cn' site = (g, p))"
proof -
  define sum where "sum = sha256 (''tinq-cluster-network:'' @ site @ ''/'' @ Name cn)"
  have pair: "multicast sha256 c site =
      (V4 (word_of_octets [239, 255, of_char (sum ! 0), 1 + of_char (sum ! 1) mod 254]),
       20000 + (of_char (sum ! 2) * 256 + of_char (sum ! 3)) mod 10000)"
    if "Name c = Name cn" "Group c = Invalid" "Port c = 0" for c
    unfolding multicast_def Let_def sum_def by (simp only: that) simp
  have gp: "g = V4 (word_of_octets [239, 255, of_char (sum ! 0), 1 + of_char (sum ! 1) mod 254])"
    "p = 20000 + (of_char (sum ! 2) * 256 + of_char (sum ! 3)) mod 10000"
    using pair [OF refl assms(1,2)] assms(3) by simp_all
  have "20000 \<le> p \<and> p < 30000" unfolding gp(2) by simp
  moreover have "(of_char (sum ! 0) :: nat) < 256" "1 \<le> 1 + (of_char (sum ! 1) :: nat) mod 254"
    "1 + (of_char (sum ! 1) :: nat) mod 254 \<le> 254"
    using mod_less_divisor [of 254 "of_char (sum ! 1)"] by simp_all
  then have "\<exists>a b. a < 256 \<and> 1 \<le> b \<and> b \<le> 254 \<and> g = V4 (word_of_octets [239, 255, a, b])"
    using gp(1) by blast
  ultimately show ?thesis using pair gp by simp
qed

definition plain_network :: clusterNetwork where
  "plain_network = \<lparr>Name = ''cluster'', CIDR = (V4 0x0AFE0000, 24), Addr = V4 0x0AFE000B, Group = Invalid, Port = 0\<rparr>"

theorem multicast_range_witness:
  "multicast zero_digest plain_network ''lab'' = (V4 (word_of_octets [239, 255, 0, 1]), 20000)
   \<and> 20000 \<le> snd (multicast zero_digest plain_network ''lab'')"
  using multicast_range [of plain_network zero_digest "''lab''"]
  by (simp add: multicast_def plain_network_def zero_digest_def)

subsection \<open>Binds and forwards agree\<close>

text \<open>
  The sockets the collision check compares are the sockets qemu binds: the \<^verbatim>\<open>hostfwd\<close> options of
  a forward are exactly those of the sockets \<open>hostBinds\<close> lists for it.
\<close>

theorem hostBinds_match_netdev:
  "netdev_arg m = ''user,id=n0'' @ concat (map (\<lambda>hf. concat (map (\<lambda>b. hostfwd (proto b) (addr b) (port b)
      (toInt (field (as_map hf) ''guestPort''))) (entry_binds hf))) (nestedSlice m [''spec'', ''hostForwards'']))
   \<and> hostBinds m = concat (map entry_binds (nestedSlice m [''spec'', ''hostForwards'']))"
proof -
  have "netdev_entry = (\<lambda>hf. concat (map (\<lambda>b. hostfwd (proto b) (addr b) (port b)
      (toInt (field (as_map hf) ''guestPort''))) (entry_binds hf)))"
    by (rule ext) (simp add: netdev_entry_def entry_binds_def bind_protos_def Let_def)
  then show ?thesis by (simp add: netdev_arg_def hostBinds_def)
qed

subsection \<open>No collision in an accepted site\<close>

lemma forward_collisions_None:
  "checkForwardCollisions m other = None \<longleftrightarrow> (\<forall>a \<in> set (hostBinds m). \<forall>b \<in> set (hostBinds other). \<not> binds_clash a b)"
proof -
  have "checkForwardCollisions m other = None \<longleftrightarrow>
      find (\<lambda>(a, b). binds_clash a b) (List.product (hostBinds m) (hostBinds other)) = None"
    by (simp add: checkForwardCollisions_def split: option.split prod.split)
  also have "\<dots> \<longleftrightarrow> (\<forall>a \<in> set (hostBinds m). \<forall>b \<in> set (hostBinds other). \<not> binds_clash a b)"
    by (auto simp: find_None_iff)
  finally show ?thesis .
qed

definition compatible :: "prefix \<Rightarrow> prefix \<Rightarrow> clusterNetwork option \<Rightarrow> obj \<Rightarrow> bool" where
  "compatible pod svc cn other =
     (\<forall>c oc. cn = Some c \<longrightarrow> specClusterNetwork pod svc other = Inr (Some oc) \<longrightarrow> Name oc = Name c \<longrightarrow>
        CIDR oc = CIDR c \<and> Addr oc \<noteq> Addr c)"

lemma network_against_None: "check_network_against pod svc m cn other = None \<longleftrightarrow> compatible pod svc cn other"
  by (auto simp: check_network_against_def compatible_def split: option.splits sum.splits)

lemma check_others_None:
  "check_others pod svc m cn others = None \<longleftrightarrow>
     (\<forall>e \<in> set others. GetName (fst e) \<noteq> GetName m \<longrightarrow>
        (\<forall>a \<in> set (hostBinds m). \<forall>b \<in> set (hostBinds (fst e)). \<not> binds_clash a b) \<and> compatible pod svc cn (fst e))"
  by (induction others)
    (auto simp: forward_collisions_None [symmetric] network_against_None [symmetric, where m = m] split: option.splits)

text \<open>
  C20. A machine that passes \<open>checkSite\<close> collides with no recorded machine of its site that has another
  name: no socket of one is bound by the other, a forward on 0.0.0.0 counting for every address,
  and on a network of the same name they agree on the CIDR and differ in the address. Conversely
  such a site is accepted once the block and the records are readable.
\<close>

theorem checkSite_iff:
  "checkSite sv root pod svc m = None \<longleftrightarrow>
     (\<exists>cn others. specClusterNetwork pod svc m = Inr cn
        \<and> siteMachines sv root (nested_string m [''spec'', ''site'']) (machine_dir root m) = Inr others
        \<and> (\<forall>e \<in> set others. GetName (fst e) \<noteq> GetName m \<longrightarrow>
             (\<forall>a \<in> set (hostBinds m). \<forall>b \<in> set (hostBinds (fst e)). \<not> binds_clash a b)
             \<and> compatible pod svc cn (fst e)))"
  unfolding checkSite_def check_others_None [symmetric] by (auto split: sum.splits)

text \<open>A second node of the lab, whose record is the only one of its site, and which the first node passes.\<close>

definition lab_peer :: obj where
  "lab_peer = [(''metadata'', VMap [(''name'', VStr ''cp2'')]), (''spec'', VMap [(''site'', VStr ''lab''),
     (''hostForwards'', VList [VMap [(''hostPort'', VInt 50001), (''guestPort'', VInt 50000)]]),
     (''clusterNetwork'', VMap [(''cidr'', VStr (prefix_string 0x0AFE0000 24)), (''address'', VStr (v4_string 0x0AFE000C))])])]"

definition lab_site :: site_view where
  "lab_site = \<lparr>sv_entries = (\<lambda>_. Inr [(''u2'', True)]), sv_record = (\<lambda>_. Inr []), sv_unmarshal = (\<lambda>_. Some lab_peer)\<rparr>"

lemma lab_peer_network:
  "specClusterNetwork (V4 0x0AF40000, 16) (V4 0x0A600000, 12) lab_peer =
     Inr (Some \<lparr>Name = ''cluster'', CIDR = (V4 0x0AFE0000, 24), Addr = V4 0x0AFE000C, Group = Invalid, Port = 0\<rparr>)"
proof -
  have "str (VStr (prefix_string w n)) '''' = prefix_string w n" "str (VStr (v4_string w)) '''' = v4_string w" for w n
    by (auto simp: str_def prefix_string_def v4_string_def v4_octets_def)
  moreover have "prefix_string w n \<noteq> ''''" for w n by (simp add: prefix_string_def)
  ultimately show ?thesis
    by (simp add: specClusterNetwork_def lab_peer_def field_def read_cidr_def ParsePrefix_prefix_string Is4_def
        Masked_def overlaps_def UserModeNetwork_def read_address_def contains_def addr_next_def read_group_def
        read_port_def str_def defaultClusterNetworkName_def)
qed

lemma lab_site_machines:
  "siteMachines lab_site ''/s'' (nested_string lab_machine [''spec'', ''site'']) (machine_dir ''/s'' lab_machine) =
     Inr [(lab_peer, ''/s/lab/u2'')]"
  by (simp add: siteMachines_def lab_site_def lab_machine_def nested_string_def machine_dir_def GetUID_def path_join_def
      clean_def clean_comps_def)

theorem checkSite_iff_witness:
  "checkSite lab_site ''/s'' (V4 0x0AF40000, 16) (V4 0x0A600000, 12) lab_machine = None"
proof -
  have "compatible (V4 0x0AF40000, 16) (V4 0x0A600000, 12)
      (Some \<lparr>Name = ''cluster'', CIDR = (V4 0x0AFE0000, 24), Addr = V4 0x0AFE000B, Group = Invalid, Port = 0\<rparr>) lab_peer"
    by (simp add: compatible_def lab_peer_network)
  moreover have "hostBinds lab_machine = []"
    by (simp add: hostBinds_def lab_machine_def nestedSlice_def)
  ultimately show ?thesis
    unfolding checkSite_iff lab_machine_network lab_site_machines by simp
qed

end
