(* ===== verification/Cluster_Network.thy ===== *)
theory Cluster_Network
  imports Go_Netip
begin

section \<open>Static addresses of a node\<close>

text \<open>
  Models \<^verbatim>\<open>src/cluster/network.go\<close>. \<open>CheckNetwork\<close> is the whole sequence of refusals, in the
  order of the source; each refusal is a constructor. The main theorem states which blocks pass:
  an IPv4 host address, a gateway that is another host of the same segment, resolvers and a
  maintenance address that are IPv4, the maintenance address on the node's own segment.
\<close>

subsection \<open>Definitions\<close>

record Network =
  Address :: string
  Gateway :: string
  Nameservers :: "string list"
  HardwareAddr :: string

datatype network_error =
  No_static_block
| Address_not_cidr string
| Address_is_v6 string
| Address_is_segment string
| Address_is_broadcast string
| Gateway_not_address string
| Gateway_outside string string
| Gateway_is_segment string
| Gateway_is_broadcast string string
| Gateway_is_node string
| Nameservers_missing
| Nameserver_not_address nat string
| Nameserver_is_v6 nat string
| HardwareAddr_missing
| HardwareAddr_not_mac string
| Maintenance_not_address string
| Maintenance_is_v6 string
| Other_segment string string

text \<open>\<^verbatim>\<open>(*Network).IP\<close>, with \<^term>\<open>None\<close> for the nil receiver.\<close>

definition IP :: "Network option \<Rightarrow> network_error + string" where
  "IP n =
     (case n of
        None \<Rightarrow> Inl No_static_block
      | Some nw \<Rightarrow>
        (case ParsePrefix (Address nw) of
           None \<Rightarrow> Inl (Address_not_cidr (Address nw))
         | Some p \<Rightarrow> Inr (addr_string (fst p))))"

definition check_nameserver :: "nat \<times> string \<Rightarrow> network_error + unit" where
  "check_nameserver e = (case e of (i, ns) \<Rightarrow>
     (case ParseAddr ns of
        None \<Rightarrow> Inl (Nameserver_not_address i ns)
      | Some resolver \<Rightarrow> if \<not> Is4 resolver then Inl (Nameserver_is_v6 i ns) else Inr ()))"

definition check_address :: "string \<Rightarrow> network_error + prefix" where
  "check_address address =
     (case ParsePrefix address of
        None \<Rightarrow> Inl (Address_not_cidr address)
      | Some pfx \<Rightarrow>
          if \<not> Is4 (fst pfx) then Inl (Address_is_v6 address)
          else if fst pfx = fst (Masked pfx) then Inl (Address_is_segment address)
          else if snd pfx < 31 \<and> \<not> contains pfx (addr_next (fst pfx)) then Inl (Address_is_broadcast address)
          else Inr pfx)"

definition check_gateway :: "prefix \<Rightarrow> string \<Rightarrow> string \<Rightarrow> network_error + unit" where
  "check_gateway pfx address gw =
     (case ParseAddr gw of
        None \<Rightarrow> Inl (Gateway_not_address gw)
      | Some gateway \<Rightarrow>
          if \<not> contains pfx gateway then Inl (Gateway_outside gw address)
          else if gateway = fst (Masked pfx) then Inl (Gateway_is_segment gw)
          else if snd pfx < 31 \<and> \<not> contains pfx (addr_next gateway) then Inl (Gateway_is_broadcast gw address)
          else if gateway = fst pfx then Inl (Gateway_is_node gw)
          else Inr ())"

definition check_maintenance :: "prefix \<Rightarrow> string \<Rightarrow> string \<Rightarrow> network_error + unit" where
  "check_maintenance pfx address maintenanceAddr =
     (case ParseAddr maintenanceAddr of
        None \<Rightarrow> Inl (Maintenance_not_address maintenanceAddr)
      | Some maintenance \<Rightarrow>
          if \<not> Is4 maintenance then Inl (Maintenance_is_v6 maintenanceAddr)
          else if \<not> contains pfx maintenance then Inl (Other_segment maintenanceAddr address)
          else Inr ())"

definition CheckNetwork :: "Network option \<Rightarrow> string \<Rightarrow> network_error + unit" where
  "CheckNetwork net maintenanceAddr =
     (case net of
        None \<Rightarrow> Inr ()
      | Some n \<Rightarrow>
          and_then (check_address (Address n)) (\<lambda>pfx.
          and_then (check_gateway pfx (Address n) (Gateway n)) (\<lambda>_.
          if Nameservers n = [] then Inl Nameservers_missing
          else and_then (collect check_nameserver (enumerate 0 (Nameservers n))) (\<lambda>_.
          if HardwareAddr n = '''' then Inl HardwareAddr_missing
          else if \<not> ParseMAC (HardwareAddr n) then Inl (HardwareAddr_not_mac (HardwareAddr n))
          else check_maintenance pfx (Address n) maintenanceAddr))))"

text \<open>The generated interface of \<open>networkOption\<close>: a MAC selector, one address, one default route.\<close>

record interface_config =
  SelectorHardwareAddr :: string
  DeviceAddresses :: "string list"
  DeviceDHCP :: bool
  DeviceRoutes :: "(string \<times> string) list"

record network_config =
  ConfigNameServers :: "string list"
  ConfigInterfaces :: "interface_config list"

definition networkOption :: "Network \<Rightarrow> network_config" where
  "networkOption n =
     \<lparr>ConfigNameServers = Nameservers n,
      ConfigInterfaces = [\<lparr>SelectorHardwareAddr = HardwareAddr n, DeviceAddresses = [Address n], DeviceDHCP = False,
                          DeviceRoutes = [(''0.0.0.0/0'', Gateway n)]\<rparr>]\<rparr>"

subsection \<open>Which blocks pass\<close>

text \<open>The reference reading: numbers on one segment. The last two prefix lengths have no broadcast.\<close>

definition node_number :: "prefix \<Rightarrow> addr \<Rightarrow> bool" where
  "node_number p a =
     (\<exists>n. num4 a = Some n \<and> low4 p < n \<and> n < low4 p + extent4 p \<and> (snd p < 31 \<longrightarrow> Suc n < low4 p + extent4 p))"

lemma node_number_iff:
  assumes "wf4 p"
  shows "node_number p a \<longleftrightarrow>
    contains p a \<and> a \<noteq> fst (Masked p) \<and> (snd p < 31 \<longrightarrow> contains p (addr_next a))"
proof
  assume "node_number p a"
  then obtain n where n: "num4 a = Some n" "low4 p < n" "n < low4 p + extent4 p"
    "snd p < 31 \<longrightarrow> Suc n < low4 p + extent4 p" by (auto simp: node_number_def)
  then have "contains p a" using v4.inside_iff [OF assms] by auto
  moreover have "a \<noteq> fst (Masked p)" using n v4.network_num [OF assms] by auto
  ultimately show "contains p a \<and> a \<noteq> fst (Masked p) \<and> (snd p < 31 \<longrightarrow> contains p (addr_next a))"
    using n v4.succ_num [OF assms] by blast
next
  assume h: "contains p a \<and> a \<noteq> fst (Masked p) \<and> (snd p < 31 \<longrightarrow> contains p (addr_next a))"
  then obtain n where n: "num4 a = Some n" "low4 p \<le> n" "n < low4 p + extent4 p"
    using v4.inside_iff [OF assms] by blast
  moreover have "n \<noteq> low4 p" using h n(1) v4.num_inj v4.network_num [OF assms] by blast
  ultimately show "node_number p a"
    using h v4.succ_num [OF assms] by (auto simp: node_number_def)
qed

lemma own_address_inside: "wf4 p \<Longrightarrow> contains p (fst p)"
  by (auto simp: wf4_V4 contains_def)

lemma check_address_Inr:
  "check_address s = Inr p \<longleftrightarrow> ParsePrefix s = Some p \<and> Is4 (fst p) \<and> node_number p (fst p)"
proof (cases "ParsePrefix s")
  case (Some q)
  then have "Is4 (fst q) \<Longrightarrow> wf4 q" using ParsePrefix_wf4 by blast
  with Some show ?thesis
    using node_number_iff [of q "fst q"] own_address_inside [of q]
    by (auto simp: check_address_def split: if_splits)
qed (simp add: check_address_def)

lemma check_gateway_Inr:
  "wf4 p \<Longrightarrow> check_gateway p s gw = Inr () \<longleftrightarrow> (\<exists>g. ParseAddr gw = Some g \<and> node_number p g \<and> g \<noteq> fst p)"
  by (cases "ParseAddr gw") (auto simp: check_gateway_def node_number_iff split: if_splits)

lemma check_maintenance_Inr:
  "check_maintenance p s m = Inr () \<longleftrightarrow> (\<exists>a. ParseAddr m = Some a \<and> Is4 a \<and> contains p a)"
  by (cases "ParseAddr m") (auto simp: check_maintenance_def split: if_splits)

lemma check_nameservers_Inr:
  "(\<exists>us. collect check_nameserver (enumerate i nss) = Inr us) \<longleftrightarrow>
     (\<forall>ns \<in> set nss. \<exists>a. ParseAddr ns = Some a \<and> Is4 a)"
proof (induction nss arbitrary: i)
  case (Cons ns nss)
  show ?case
    using Cons [of "Suc i"]
    by (cases "ParseAddr ns") (auto simp: check_nameserver_def split: sum.splits)
qed simp

text \<open>
  C16. \<open>CheckNetwork\<close> accepts exactly the blocks that leave the node reachable: no block at all, or
  an IPv4 address that is a host of its segment, a gateway that is another host of that segment,
  at least one resolver and only IPv4 ones, a well-formed MAC, and a maintenance address on the
  same segment. "Host" excludes the first number of the segment and, below a /31, the last.
\<close>

theorem CheckNetwork_iff:
  "CheckNetwork net maint = Inr () \<longleftrightarrow>
     (net = None \<or>
      (\<exists>n p g m. net = Some n \<and> ParsePrefix (Address n) = Some p \<and> Is4 (fst p) \<and> node_number p (fst p)
        \<and> ParseAddr (Gateway n) = Some g \<and> node_number p g \<and> g \<noteq> fst p
        \<and> Nameservers n \<noteq> [] \<and> (\<forall>ns \<in> set (Nameservers n). \<exists>a. ParseAddr ns = Some a \<and> Is4 a)
        \<and> HardwareAddr n \<noteq> '''' \<and> ParseMAC (HardwareAddr n)
        \<and> ParseAddr maint = Some m \<and> Is4 m \<and> contains p m))"
proof (cases net)
  case (Some n)
  have "CheckNetwork (Some n) maint = Inr () \<longleftrightarrow>
     (\<exists>p. check_address (Address n) = Inr p \<and> check_gateway p (Address n) (Gateway n) = Inr ()
        \<and> Nameservers n \<noteq> [] \<and> (\<exists>us. collect check_nameserver (enumerate 0 (Nameservers n)) = Inr us)
        \<and> HardwareAddr n \<noteq> '''' \<and> ParseMAC (HardwareAddr n) \<and> check_maintenance p (Address n) maint = Inr ())"
    unfolding CheckNetwork_def by (simp add: and_then_eq_Inr) blast
  also have "\<dots> \<longleftrightarrow> (\<exists>p. ParsePrefix (Address n) = Some p \<and> Is4 (fst p) \<and> node_number p (fst p)
        \<and> (\<exists>g. ParseAddr (Gateway n) = Some g \<and> node_number p g \<and> g \<noteq> fst p)
        \<and> Nameservers n \<noteq> [] \<and> (\<forall>ns \<in> set (Nameservers n). \<exists>a. ParseAddr ns = Some a \<and> Is4 a)
        \<and> HardwareAddr n \<noteq> '''' \<and> ParseMAC (HardwareAddr n)
        \<and> (\<exists>m. ParseAddr maint = Some m \<and> Is4 m \<and> contains p m))"
    unfolding check_address_Inr check_nameservers_Inr check_maintenance_Inr
    using check_gateway_Inr ParsePrefix_wf4 by blast
  finally show ?thesis using Some by blast
qed (simp add: CheckNetwork_def)

text \<open>A node with a static address on its desk.\<close>

definition desk_network :: Network where
  "desk_network = \<lparr>Address = prefix_string 0xC0A8020A 24, Gateway = v4_string 0xC0A80201,
     Nameservers = [v4_string 0x01010101], HardwareAddr = ''84:47:09:47:35:f9''\<rparr>"

lemma desk_network_ok: "CheckNetwork (Some desk_network) (v4_string 0xC0A80263) = Inr ()"
proof -
  have "ParseMAC ''84:47:09:47:35:f9''" by code_simp
  then show ?thesis
    by (simp add: CheckNetwork_def desk_network_def check_address_def ParsePrefix_prefix_string Is4_def Masked_def
        contains_def addr_next_def check_gateway_def check_nameserver_def check_maintenance_def)
qed

theorem CheckNetwork_iff_witness:
  "CheckNetwork (Some desk_network) (v4_string 0xC0A80263) = Inr ()
   \<and> (\<exists>p. ParsePrefix (Address desk_network) = Some p \<and> node_number p (fst p))"
  using CheckNetwork_iff [of "Some desk_network" "v4_string 0xC0A80263"] desk_network_ok by auto

end
