(* ===== verification/Tinq_Baremetal.thy ===== *)
theory Tinq_Baremetal
  imports Tinq_Machine Cluster_Network
begin

section \<open>Machines the driver did not create\<close>

text \<open>
  The readers of \<^verbatim>\<open>src/cmd/tinq/adopt.go\<close>: the \<^verbatim>\<open>spec.baremetal\<close> block, the addresses a node
  answers at before and after its install, the substrate guard of the verbs and the kernel
  argument hint. Presence of the block is what decides, whether or not it is well formed.
\<close>

definition specBaremetal :: "obj \<Rightarrow> obj option \<times> bool" where
  "specBaremetal m =
     (case nested m [''spec'', ''baremetal''] of
        None \<Rightarrow> (None, False)
      | Some (VMap b) \<Rightarrow> (Some b, True)
      | Some _ \<Rightarrow> (None, True))"

definition isBaremetal :: "obj \<Rightarrow> bool" where
  "isBaremetal m = snd (specBaremetal m)"

definition baremetalFields :: "obj \<Rightarrow> obj" where
  "baremetalFields m = (case fst (specBaremetal m) of None \<Rightarrow> [] | Some b \<Rightarrow> b)"

definition baremetalTalosEndpoint :: "obj \<Rightarrow> string" where
  "baremetalTalosEndpoint m =
     (let a = str (field (baremetalFields m) ''maintenanceEndpoint'') '''' in
      if a \<noteq> '''' then a @ '':'' @ itoa talosAPIGuestPort else '''')"

datatype baremetal_error = Network_not_a_block string

definition baremetalNetwork :: "obj \<Rightarrow> baremetal_error + Network option" where
  "baremetalNetwork m =
     (case map_of (baremetalFields m) ''network'' of
        None \<Rightarrow> Inr None
      | Some VNull \<Rightarrow> Inr None
      | Some (VMap block) \<Rightarrow>
          Inr (Some \<lparr>Address = str (field block ''address'') '''', Gateway = str (field block ''gateway'') '''',
                     Nameservers = (case field block ''nameservers'' of VList vs \<Rightarrow> map (\<lambda>v. str v '''') vs | _ \<Rightarrow> []),
                     HardwareAddr = str (field block ''hardwareAddr'') ''''\<rparr>)
      | Some _ \<Rightarrow> Inl (Network_not_a_block (GetName m)))"

definition baremetalInstalledAddr :: "obj \<Rightarrow> string" where
  "baremetalInstalledAddr m =
     (let maintenance = str (field (baremetalFields m) ''maintenanceEndpoint'') '''' in
      case baremetalNetwork m of
        Inl _ \<Rightarrow> maintenance
      | Inr None \<Rightarrow> maintenance
      | Inr (Some n) \<Rightarrow> (case IP (Some n) of Inl _ \<Rightarrow> maintenance | Inr ip \<Rightarrow> ip))"

definition baremetalInstalledEndpoint :: "obj \<Rightarrow> string" where
  "baremetalInstalledEndpoint m =
     (let a = baremetalInstalledAddr m in if a \<noteq> '''' then a @ '':'' @ itoa talosAPIGuestPort else '''')"

definition baremetalKubeEndpoint :: "obj \<Rightarrow> string" where
  "baremetalKubeEndpoint m =
     (let a = baremetalInstalledAddr m in if a \<noteq> '''' then ''https://'' @ a @ '':'' @ itoa kubeAPIGuestPort else '''')"

datatype substrate_error = Adopt_needs_baremetal string | Verb_needs_vm string string

definition refuseWrongSubstrate :: "obj \<Rightarrow> string \<Rightarrow> substrate_error option" where
  "refuseWrongSubstrate m verb =
     (let bm = isBaremetal m in
      if verb = ''adopt'' then (if bm then None else Some (Adopt_needs_baremetal (GetName m)))
      else if \<not> bm then None
      else Some (Verb_needs_vm verb (GetName m)))"

lemma isBaremetal_iff: "isBaremetal m \<longleftrightarrow> nested m [''spec'', ''baremetal''] \<noteq> None"
  by (simp add: isBaremetal_def specBaremetal_def split: option.splits val.splits)

text \<open>
  A machine with a \<^verbatim>\<open>spec.baremetal\<close> key of any shape, even a scalar or an empty value, is
  refused by every verb but \<^verbatim>\<open>adopt\<close>, and a machine without the key by \<^verbatim>\<open>adopt\<close> alone.
\<close>

theorem refuseWrongSubstrate_iff:
  "refuseWrongSubstrate m verb = None \<longleftrightarrow> ((nested m [''spec'', ''baremetal''] \<noteq> None) = (verb = ''adopt''))"
  by (simp add: refuseWrongSubstrate_def isBaremetal_iff Let_def)

text \<open>
  A node keeps being dialled where it will answer: for a block that \<open>CheckNetwork\<close> accepts, the
  installed endpoint and the kubeconfig server both name the static address of the block, whatever
  the maintenance address was.
\<close>

theorem installed_endpoints_static:
  assumes "baremetalNetwork m = Inr (Some n)" "CheckNetwork (Some n) maint = Inr ()"
  shows "\<exists>w bits. ParsePrefix (Address n) = Some (V4 w, bits)
    \<and> baremetalInstalledEndpoint m = v4_string w @ '':50000''
    \<and> baremetalKubeEndpoint m = ''https://'' @ v4_string w @ '':6443''"
proof -
  from assms(2) obtain p where p: "ParsePrefix (Address n) = Some p" "Is4 (fst p)"
    by (auto simp: CheckNetwork_def check_address_Inr result_simps split: if_splits)
  then obtain w bits where w: "p = (V4 w, bits)" by (cases p) (auto simp: Is4_iff)
  have ne: "v4_string w \<noteq> ''''" by (simp add: v4_string_def v4_octets_def)
  have "baremetalInstalledAddr m = v4_string w"
    using assms(1) p(1) w by (simp add: baremetalInstalledAddr_def IP_def addr_string_def)
  then show ?thesis
    using p(1) w ne
    by (simp add: baremetalInstalledEndpoint_def baremetalKubeEndpoint_def talosAPIGuestPort_def kubeAPIGuestPort_def
        itoa_def dec_eval)
qed

definition desk_machine :: obj where
  "desk_machine = [(''spec'', VMap [(''baremetal'', VMap [(''maintenanceEndpoint'', VStr (v4_string 0xC0A80263)),
     (''network'', VMap [(''address'', VStr (prefix_string 0xC0A8020A 24)), (''gateway'', VStr (v4_string 0xC0A80201)),
        (''nameservers'', VList [VStr (v4_string 0x01010101)]), (''hardwareAddr'', VStr ''84:47:09:47:35:f9'')])])])]"

lemma str_v4 [simp]: "str (VStr (v4_string w)) dflt = v4_string w" "str (VStr (prefix_string w n)) dflt = prefix_string w n"
  by (auto simp: str_def v4_string_def v4_octets_def prefix_string_def)

lemma desk_machine_network: "baremetalNetwork desk_machine = Inr (Some desk_network)"
  by (simp add: baremetalNetwork_def baremetalFields_def specBaremetal_def desk_machine_def field_def desk_network_def)
    (simp add: str_def)

theorem installed_endpoints_static_witness:
  "\<exists>w bits. ParsePrefix (Address desk_network) = Some (V4 w, bits)
    \<and> baremetalInstalledEndpoint desk_machine = v4_string w @ '':50000''"
  using installed_endpoints_static [OF desk_machine_network desk_network_ok] by auto
end
