(* ===== verification/Tinq_Host.thy ===== *)
theory Tinq_Host
  imports Tinq_Clusternet Tinq_Baremetal Platform_Image Platform_Host Platform_Process Driverkit
begin

section \<open>The QEMU driver: processes, disks and signals on the host\<close>

text \<open>
  Models the driver half of \<^verbatim>\<open>src/cmd/tinq/main.go\<close> (\<^verbatim>\<open>Observe\<close>, \<^verbatim>\<open>Create\<close>, \<^verbatim>\<open>Stop\<close>,
  \<^verbatim>\<open>Destroy\<close> and what they call) over a world \<open>hostw\<close> of files, directories and live processes.
  What other programs do is a record \<open>env\<close> of functions: qemu, qemu-img and swtpm as transformers of
  the world, the effect of a signal, one poll interval passing, the guest's answer to the shutdown
  request. Signals are collected in a trace with the world they were sent in, so that the rule
  "every signal is gated on \<^verbatim>\<open>ProcessMatches\<close>" is a statement about the trace.
\<close>

subsection \<open>The world\<close>

datatype sig = SIGTERM | SIGKILL

record hostw =
  hw_files :: "string \<rightharpoonup> bytes"
  hw_dirs :: "string list"
  hw_procs :: "int \<rightharpoonup> bytes"
  hw_cancelled :: bool

type_synonym trace = "(int \<times> sig \<times> hostw) list"

text \<open>
  \<open>e_io_fail\<close> marks the paths on which an operation fails with an error other than "does not exist".
  Programs and the guest answer \<^term>\<open>None\<close> for success.
\<close>

record env =
  e_goos :: string
  e_detect :: "detect_error + Platform"
  e_stateRoot :: string
  e_imageRoot :: string
  e_tmpDir :: string
  e_sha256 :: "bytes \<Rightarrow> bytes"
  e_pod :: prefix
  e_svc :: prefix
  e_marshal :: "obj \<Rightarrow> bytes"
  e_unmarshal :: "bytes \<Rightarrow> obj option"
  e_io_fail :: "string \<Rightarrow> bool"
  e_qemu_img :: "string \<Rightarrow> string \<Rightarrow> hostw \<Rightarrow> string option \<times> hostw"
  e_qemu :: "string \<Rightarrow> string list \<Rightarrow> hostw \<Rightarrow> string option \<times> hostw"
  e_swtpm :: "string list \<Rightarrow> hostw \<Rightarrow> string option \<times> hostw"
  e_signal :: "int \<Rightarrow> sig \<Rightarrow> hostw \<Rightarrow> hostw"
  e_tick :: "hostw \<Rightarrow> hostw"
  e_shutdown :: "bytes \<Rightarrow> string \<Rightarrow> hostw \<Rightarrow> string option \<times> hostw"

definition procs_of :: "env \<Rightarrow> hostw \<Rightarrow> procs" where
  "procs_of e w = \<lparr>p_goos = e_goos e, p_alive = (\<lambda>p. hw_procs w p \<noteq> None), p_proc_cmdline = hw_procs w,
     p_ps_command = (\<lambda>p. map_option parseCmdline (hw_procs w p))\<rparr>"

definition matches :: "env \<Rightarrow> hostw \<Rightarrow> int \<Rightarrow> string \<Rightarrow> bool" where
  "matches e w pid dir = ProcessMatches (procs_of e w) pid dir"

datatype stat_result = Present | Not_there | Stat_error

definition stat :: "env \<Rightarrow> hostw \<Rightarrow> string \<Rightarrow> stat_result" where
  "stat e w p = (if e_io_fail e p then Stat_error
     else if hw_files w p \<noteq> None \<or> p \<in> set (hw_dirs w) then Present else Not_there)"

definition read_file :: "env \<Rightarrow> hostw \<Rightarrow> string \<Rightarrow> bytes option" where
  "read_file e w p = (if e_io_fail e p then None else hw_files w p)"

definition write_file :: "env \<Rightarrow> hostw \<Rightarrow> string \<Rightarrow> bytes \<Rightarrow> string option \<times> hostw" where
  "write_file e w p b = (if e_io_fail e p then (Some p, w) else (None, w\<lparr>hw_files := (hw_files w)(p \<mapsto> b)\<rparr>))"

definition mkdir_all :: "env \<Rightarrow> hostw \<Rightarrow> string \<Rightarrow> string option \<times> hostw" where
  "mkdir_all e w d = (if e_io_fail e d then (Some d, w)
     else (None, if d \<in> set (hw_dirs w) then w else w\<lparr>hw_dirs := d # hw_dirs w\<rparr>))"

definition below :: "string \<Rightarrow> string \<Rightarrow> bool" where
  "below d p = (p = d \<or> has_prefix p (d @ ''/''))"

text \<open>
  \<^verbatim>\<open>os.RemoveAll\<close> removes what it can and reports what it cannot: an entry whose removal fails stays, with
  what is below it and the directories above it.
\<close>

definition stuck :: "env \<Rightarrow> hostw \<Rightarrow> string \<Rightarrow> string \<Rightarrow> bool" where
  "stuck e w d q = (below d q \<and> e_io_fail e q \<and> (q = d \<or> hw_files w q \<noteq> None \<or> q \<in> set (hw_dirs w)))"

definition spared :: "env \<Rightarrow> hostw \<Rightarrow> string \<Rightarrow> string \<Rightarrow> bool" where
  "spared e w d p = (\<exists>q. stuck e w d q \<and> (below q p \<or> below p q))"

definition remove_all :: "env \<Rightarrow> hostw \<Rightarrow> string \<Rightarrow> string option \<times> hostw" where
  "remove_all e w d =
     (if \<exists>q. stuck e w d q then Some d else None,
      w\<lparr>hw_files := (\<lambda>p. if below d p \<and> \<not> spared e w d p then None else hw_files w p),
        hw_dirs := filter (\<lambda>p. \<not> (below d p \<and> \<not> spared e w d p)) (hw_dirs w)\<rparr>)"

lemma remove_all_done:
  "remove_all e w d = (None, w') \<Longrightarrow>
     w' = w\<lparr>hw_files := (\<lambda>p. if below d p then None else hw_files w p), hw_dirs := filter (\<lambda>p. \<not> below d p) (hw_dirs w)\<rparr>"
  by (simp add: remove_all_def spared_def split: if_splits)

lemma remove_all_clear:
  "(\<And>q. below d q \<Longrightarrow> \<not> e_io_fail e q) \<Longrightarrow> remove_all e w d =
     (None, w\<lparr>hw_files := (\<lambda>p. if below d p then None else hw_files w p), hw_dirs := filter (\<lambda>p. \<not> below d p) (hw_dirs w)\<rparr>)"
proof -
  assume "\<And>q. below d q \<Longrightarrow> \<not> e_io_fail e q"
  then have "stuck e w d = (\<lambda>_. False)" by (intro ext) (auto simp: stuck_def)
  then show ?thesis by (simp add: remove_all_def spared_def)
qed

lemma remove_all_only:
  "hw_files (snd (remove_all e w d)) p \<in> {None, hw_files w p}" "set (hw_dirs (snd (remove_all e w d))) \<subseteq> set (hw_dirs w)"
  "\<not> below d p \<Longrightarrow> hw_files (snd (remove_all e w d)) p = hw_files w p"
  "hw_procs (snd (remove_all e w d)) = hw_procs w" "hw_cancelled (snd (remove_all e w d)) = hw_cancelled w"
  by (auto simp: remove_all_def)

subsection \<open>Observe\<close>

definition dir_of :: "env \<Rightarrow> obj \<Rightarrow> string" where
  "dir_of e m = machine_dir (e_stateRoot e) m"

definition readPid :: "env \<Rightarrow> hostw \<Rightarrow> string \<Rightarrow> int" where
  "readPid e w dir =
     (case read_file e w (path_join [dir, ''qemu.pid'']) of
        None \<Rightarrow> 0
      | Some b \<Rightarrow> fst (atoi (trim_space b)))"

text \<open>
  The three verbs on hardware: it is reported Running, nothing is created or stopped, and forgetting it
  removes nothing. Only log lines tell them apart from doing nothing.
\<close>

definition observeBaremetal :: "obj \<Rightarrow> string \<Rightarrow> string + State \<times> obj" where
  [simp]: "observeBaremetal m dir = Inr (Running, [(''stateDir'', VStr dir), (''apiEndpoint'', VStr (baremetalInstalledEndpoint m))])"

definition ignoreBaremetalOp :: "obj \<Rightarrow> 'e option" where
  [simp]: "ignoreBaremetalOp m = None"

definition forgetBaremetal :: "obj \<Rightarrow> string \<Rightarrow> 'e option" where
  [simp]: "forgetBaremetal m dir = None"

definition Observe_hvf :: "env \<Rightarrow> obj \<Rightarrow> hostw \<Rightarrow> string + State \<times> obj" where
  "Observe_hvf e m w =
     (let dir = dir_of e m in
      if isBaremetal m then observeBaremetal m dir
      else case stat e w (path_join [dir, ''system.qcow2'']) of
          Not_there \<Rightarrow> Inr (Absent, [])
        | Stat_error \<Rightarrow> Inl ''stat''
        | Present \<Rightarrow>
            (let pid = readPid e w dir in
             if pid \<le> 0 \<or> \<not> matches e w pid dir then Inr (Stopped, [(''stateDir'', VStr dir)])
             else Inr (Running, [(''pid'', VInt pid), (''stateDir'', VStr dir), (''apiEndpoint'', VStr (talosEndpoint m))])))"

subsection \<open>Waiting and signals\<close>

datatype wait_result = Gone | Still_ours | Abandoned

text \<open>
  \<^verbatim>\<open>waitGone\<close> with the budget counted in poll intervals of 100 ms: identity first, deadline
  second, cancellation before the next tick.
\<close>

fun waitGone :: "env \<Rightarrow> nat \<Rightarrow> int \<Rightarrow> string \<Rightarrow> hostw \<Rightarrow> wait_result \<times> hostw" where
  "waitGone e n pid dir w =
     (if \<not> matches e w pid dir then (Gone, w)
      else case n of
          0 \<Rightarrow> (Still_ours, w)
        | Suc k \<Rightarrow> if hw_cancelled w then (Abandoned, w) else waitGone e k pid dir (e_tick e w))"

declare waitGone.simps [simp del]

definition gracefulStopTicks :: nat where "gracefulStopTicks = 1800"

definition sigtermTicks :: nat where "sigtermTicks = 50"

datatype halt_error = Wait_abandoned int | Survived_SIGKILL int

definition halt :: "env \<Rightarrow> int \<Rightarrow> string \<Rightarrow> hostw \<Rightarrow> halt_error option \<times> hostw \<times> trace" where
  "halt e pid dir w =
     (if pid \<le> 0 \<or> \<not> matches e w pid dir then (None, w, [])
      else
        let w1 = e_signal e pid SIGTERM w; t1 = [(pid, SIGTERM, w)] in
        case waitGone e sigtermTicks pid dir w1 of
          (Abandoned, w2) \<Rightarrow> (Some (Wait_abandoned pid), w2, t1)
        | (Gone, w2) \<Rightarrow> (None, w2, t1)
        | (Still_ours, w2) \<Rightarrow>
            let w3 = e_signal e pid SIGKILL w2; t2 = t1 @ [(pid, SIGKILL, w2)] in
            case waitGone e sigtermTicks pid dir w3 of
              (Abandoned, w4) \<Rightarrow> (Some (Wait_abandoned pid), w4, t2)
            | (Gone, w4) \<Rightarrow> (None, w4, t2)
            | (Still_ours, w4) \<Rightarrow> (Some (Survived_SIGKILL pid), w4, t2))"

definition shutdownGuest :: "env \<Rightarrow> obj \<Rightarrow> hostw \<Rightarrow> string option \<times> hostw" where
  "shutdownGuest e m w =
     (case read_file e w (path_join [dir_of e m, ''talosconfig'']) of
        None \<Rightarrow> (Some ''no credentials'', w)
      | Some talosconfig \<Rightarrow> e_shutdown e talosconfig (talosEndpoint m) w)"

datatype stop_error = Stop_observe string | Stop_abandoned string | Stop_halt halt_error

definition Stop_hvf :: "env \<Rightarrow> obj \<Rightarrow> hostw \<Rightarrow> stop_error option \<times> hostw \<times> trace" where
  "Stop_hvf e m w =
     (if isBaremetal m then (ignoreBaremetalOp m, w, [])
      else case Observe_hvf e m w of
          Inl err \<Rightarrow> (Some (Stop_observe err), w, [])
        | Inr (state, _) \<Rightarrow>
            if state \<noteq> Running then (None, w, [])
            else
              let dir = dir_of e m; pid = readPid e w dir in
              case shutdownGuest e m w of
                (Some _, w1) \<Rightarrow> (case halt e pid dir w1 of (r, w2, t) \<Rightarrow> (map_option Stop_halt r, w2, t))
              | (None, w1) \<Rightarrow>
                  (case waitGone e gracefulStopTicks pid dir w1 of
                     (Abandoned, w2) \<Rightarrow> (Some (Stop_abandoned (GetName m)), w2, [])
                   | (Gone, w2) \<Rightarrow> (None, w2, [])
                   | (Still_ours, w2) \<Rightarrow> (case halt e pid dir w2 of (r, w3, t) \<Rightarrow> (map_option Stop_halt r, w3, t))))"

subsection \<open>Destroy\<close>

datatype destroy_error = Teardown_abandoned string | Remove_failed string

definition destroy_swtpm :: "env \<Rightarrow> string \<Rightarrow> hostw \<Rightarrow> hostw \<times> trace" where
  "destroy_swtpm e dir w =
     (case read_file e w (path_join [dir, ''swtpm.pid'']) of
        None \<Rightarrow> (w, [])
      | Some b \<Rightarrow>
          let (pid, ok) = atoi (trim_space b) in
          if ok \<and> pid > 0 then (e_signal e pid SIGTERM w, [(pid, SIGTERM, w)]) else (w, []))"

text \<open>
  The site directory goes with its last machine; \<^verbatim>\<open>os.Remove\<close> of a directory that still has an entry
  (a directory or a file) fails silently.
\<close>

definition path_dir :: "string \<Rightarrow> string" where
  "path_dir p = clean (rev (dropWhile (\<lambda>c. c \<noteq> CHR ''/'') (rev p)))"

definition remove_empty :: "hostw \<Rightarrow> string \<Rightarrow> hostw" where
  "remove_empty w d =
     (if (\<exists>p \<in> set (hw_dirs w). below d p \<and> p \<noteq> d) \<or> (\<exists>q. below d q \<and> hw_files w q \<noteq> None) then w
      else w\<lparr>hw_dirs := filter (\<lambda>p. p \<noteq> d) (hw_dirs w)\<rparr>)"

definition destroy :: "env \<Rightarrow> string \<Rightarrow> hostw \<Rightarrow> destroy_error option \<times> hostw \<times> trace" where
  "destroy e dir w =
     (let (w1, t1) = destroy_swtpm e dir w in
      case halt e (readPid e w1 dir) dir w1 of (r, w2, t2) \<Rightarrow>
        if r \<noteq> None \<and> hw_cancelled w2 then (Some (Teardown_abandoned dir), w2, t1 @ t2)
        else case remove_all e w2 dir of
            (Some err, w3) \<Rightarrow> (Some (Remove_failed err), w3, t1 @ t2)
          | (None, w3) \<Rightarrow> (None, remove_empty w3 (path_dir dir), t1 @ t2))"

definition Destroy_hvf :: "env \<Rightarrow> obj \<Rightarrow> hostw \<Rightarrow> destroy_error option \<times> hostw \<times> trace" where
  "Destroy_hvf e m w = (if isBaremetal m then (forgetBaremetal m (dir_of e m), w, []) else destroy e (dir_of e m) w)"

subsection \<open>Create\<close>

datatype create_error =
  Create_detect detect_error
| Create_site clusternet_error
| Create_io string
| Image_required
| Image_unresolved string
| Qemu_img_failed string
| Swtpm_failed string
| No_secure_firmware firmware_error
| Template_missing string
| Qemu_failed string
| Pidfile_missing
| Pidfile_malformed

text \<open>\<^verbatim>\<open>filepath.IsAbs\<close> on Unix.\<close>

definition is_abs :: "string \<Rightarrow> bool" where
  "is_abs p = has_prefix p ''/''"

definition resolveImage :: "env \<Rightarrow> hostw \<Rightarrow> obj \<Rightarrow> create_error + string" where
  "resolveImage e w spec =
     (case field spec ''image'' of
        VStr img \<Rightarrow>
          if img = '''' then Inl Image_required
          else let path = (if is_abs img then img else path_join [e_imageRoot e, img]) in
            if stat e w path \<noteq> Present then Inl (Image_unresolved img) else Inr path
      | _ \<Rightarrow> Inl Image_required)"

definition ensureQcow2 :: "env \<Rightarrow> string \<Rightarrow> string \<Rightarrow> hostw \<Rightarrow> create_error option \<times> hostw" where
  "ensureQcow2 e path sz w =
     (case stat e w path of
        Present \<Rightarrow> (None, w)
      | Stat_error \<Rightarrow> (Some (Create_io path), w)
      | Not_there \<Rightarrow>
          (case e_qemu_img e path (trim_suffix sz ''i'') w of
             (Some err, w1) \<Rightarrow> (Some (Qemu_img_failed err), w1)
           | (None, w1) \<Rightarrow> (None, w1)))"

fun ensure_extra :: "env \<Rightarrow> string \<Rightarrow> nat \<Rightarrow> string list \<Rightarrow> hostw \<Rightarrow> (create_error + string list) \<times> hostw" where
  "ensure_extra e dir i [] w = (Inr [], w)"
| "ensure_extra e dir i (sz # sizes) w =
     (let path = path_join [dir, ''extra-'' @ dec_of_nat i @ ''.qcow2''] in
      case ensureQcow2 e path sz w of
        (Some err, w1) \<Rightarrow> (Inl err, w1)
      | (None, w1) \<Rightarrow>
          (case ensure_extra e dir (Suc i) sizes w1 of
             (Inl err, w2) \<Rightarrow> (Inl err, w2)
           | (Inr ps, w2) \<Rightarrow> (Inr (path # ps), w2)))"

definition swtpmSocketPath :: "env \<Rightarrow> string \<Rightarrow> string" where
  "swtpmSocketPath e dir = path_join [e_tmpDir e, ''tinq-'' @ hex (take 6 (e_sha256 e dir)) @ ''.sock'']"

text \<open>The wait for the pid file: at most 50 looks, one poll interval apart.\<close>

fun await_file :: "env \<Rightarrow> nat \<Rightarrow> string \<Rightarrow> hostw \<Rightarrow> bool \<times> hostw" where
  "await_file e 0 path w = (False, w)"
| "await_file e (Suc n) path w = (if stat e w path = Present then (True, w) else await_file e n path (e_tick e w))"

definition swtpm_running :: "env \<Rightarrow> string \<Rightarrow> hostw \<Rightarrow> bool" where
  "swtpm_running e dir w =
     (case read_file e w (path_join [dir, ''swtpm.pid'']) of
        None \<Rightarrow> False
      | Some b \<Rightarrow> (let (pid, ok) = atoi (trim_space b) in ok \<and> pid > 0 \<and> matches e w pid dir))"

definition swtpm_argv :: "env \<Rightarrow> string \<Rightarrow> string list" where
  "swtpm_argv e dir =
     [''socket'', ''--tpm2'', ''--tpmstate'', ''dir='' @ path_join [dir, ''tpm''], ''--ctrl'', ''type=unixio,path='' @ swtpmSocketPath e dir,
      ''--daemon'', ''--pid'', ''file='' @ path_join [dir, ''swtpm.pid'']]"

definition ensureSWTPM :: "env \<Rightarrow> string \<Rightarrow> hostw \<Rightarrow> (create_error + string) \<times> hostw" where
  "ensureSWTPM e dir w =
     (let stateDir = path_join [dir, ''tpm'']; sock = swtpmSocketPath e dir; pidPath = path_join [dir, ''swtpm.pid''] in
      if swtpm_running e dir w then (Inr sock, w)
      else case mkdir_all e w stateDir of
          (Some err, w1) \<Rightarrow> (Inl (Create_io err), w1)
        | (None, w1) \<Rightarrow>
            if e_io_fail e sock then (Inl (Create_io sock), w1)
            else
              let w2 = w1\<lparr>hw_files := (hw_files w1)(sock := None)\<rparr> in
              case e_swtpm e (swtpm_argv e dir) w2 of
                (Some err, w3) \<Rightarrow> (Inl (Swtpm_failed err), w3)
              | (None, w3) \<Rightarrow>
                  (case await_file e 50 pidPath w3 of
                     (True, w4) \<Rightarrow> (Inr sock, w4)
                   | (False, w4) \<Rightarrow> (Inl (Swtpm_failed ''no pidfile''), w4)))"

definition ensureEFIVars :: "env \<Rightarrow> string \<Rightarrow> string \<Rightarrow> hostw \<Rightarrow> create_error option \<times> hostw" where
  "ensureEFIVars e path template w =
     (case read_file e w template of
        None \<Rightarrow> (Some (Template_missing template), w)
      | Some t \<Rightarrow>
          if (case read_file e w path of Some v \<Rightarrow> length v = length t | None \<Rightarrow> False) then (None, w)
          else case write_file e w path t of
              (Some err, w1) \<Rightarrow> (Some (Create_io err), w1)
            | (None, w1) \<Rightarrow> (None, w1))"

text \<open>The qemu command line, from everything that was prepared for it.\<close>

record boot_input =
  bi_dir :: string
  bi_image :: string
  bi_fwCode :: string
  bi_varsPath :: string
  bi_dataPath :: string
  bi_extraPaths :: "string list"
  bi_tpmSocket :: string
  bi_network :: "clusterNetwork option"

definition extra_disk_args :: "nat \<times> string \<Rightarrow> string list" where
  "extra_disk_args ip = (case ip of (i, path) \<Rightarrow>
     (let n = ''extra'' @ dec_of_nat i in
      [''-drive'', ''if=none,id='' @ n @ '',format=qcow2,file='' @ path,
       ''-device'', ''virtio-blk-pci,drive='' @ n @ '',serial='' @ extraDiskSerial i @ '',bootindex=''
          @ dec_of_nat (extraDiskBootIndex + i)]))"

definition qemu_argv :: "env \<Rightarrow> Platform \<Rightarrow> obj \<Rightarrow> obj \<Rightarrow> boot_input \<Rightarrow> string list" where
  "qemu_argv e p m spec bi =
     (let secureBoot = specSecureBoot spec; dir = bi_dir bi in
      [''-machine'', Machine p @ '',accel='' @ Accel p @ (if secureBoot then '',smm=on'' else ''''), ''-cpu'', CPU p,
       ''-smp'', itoa (specCPU spec), ''-m'', itoa (toMB (str (field spec ''memory'') ''2Gi''))]
      @ (if secureBoot then [''-global'', ''driver=cfi.pflash01,property=secure,value=on''] else [])
      @ [''-drive'', ''if=pflash,format=raw,readonly=on,file='' @ bi_fwCode bi,
         ''-drive'', ''if=pflash,format=raw,file='' @ bi_varsPath bi,
         ''-uuid'', machineUUID (e_sha256 e) (GetName m),
         ''-drive'', ''if=none,id=sys,format=qcow2,file='' @ path_join [dir, ''system.qcow2''],
         ''-device'', ''virtio-blk-pci,drive=sys,serial='' @ DiskSerialSystem @ '',bootindex=0'',
         ''-drive'', ''if=none,id=cd,media=cdrom,file='' @ bi_image bi,
         ''-device'', ''virtio-blk-pci,drive=cd,bootindex='' @ dec_of_nat isoBootIndex,
         ''-netdev'', netdev_arg m,
         ''-device'', userNICDevice (e_sha256 e) m (bi_network bi),
         ''-device'', ''virtio-rng-pci'',
         ''-display'', ''none'',
         ''-serial'', ''file:'' @ path_join [dir, ''serial.log''],
         ''-pidfile'', path_join [dir, ''qemu.pid''],
         ''-daemonize'']
      @ (if bi_dataPath bi \<noteq> '''' then
           [''-drive'', ''if=none,id=data,format=qcow2,file='' @ bi_dataPath bi,
            ''-device'', ''virtio-blk-pci,drive=data,serial='' @ DiskSerialData] else [])
      @ concat (map extra_disk_args (enumerate 0 (bi_extraPaths bi)))
      @ (if bi_tpmSocket bi \<noteq> '''' then
           [''-chardev'', ''socket,id=chrtpm,path='' @ bi_tpmSocket bi, ''-tpmdev'', ''emulator,id=tpm0,chardev=chrtpm'',
            ''-device'', TPMDevice p @ '',tpmdev=tpm0''] else [])
      @ clusterNICArgs (e_sha256 e) m (bi_network bi))"

text \<open>The site as the collision check sees it on this world.\<close>

definition site_entries :: "hostw \<Rightarrow> string \<Rightarrow> (string \<times> bool) list" where
  "site_entries w d =
     map (\<lambda>p. (drop (Suc (length d)) p, True))
       (filter (\<lambda>p. has_prefix p (d @ ''/'') \<and> CHR ''/'' \<notin> set (drop (Suc (length d)) p)) (hw_dirs w))"

definition site_view_of :: "env \<Rightarrow> hostw \<Rightarrow> site_view" where
  "site_view_of e w =
     \<lparr>sv_entries = (\<lambda>d. if e_io_fail e d then Inl False else if list_ex (below d) (hw_dirs w) then Inr (site_entries w d) else Inl True),
      sv_record = (\<lambda>p. if e_io_fail e p then Inl False else case hw_files w p of None \<Rightarrow> Inl True | Some b \<Rightarrow> Inr b),
      sv_unmarshal = e_unmarshal e\<rparr>"

definition writeMachineRecord :: "env \<Rightarrow> string \<Rightarrow> obj \<Rightarrow> hostw \<Rightarrow> string option \<times> hostw" where
  "writeMachineRecord e dir m w = write_file e w (path_join [dir, machineRecordName]) (e_marshal e m)"

text \<open>The disks, the TPM and the firmware of one machine, in the order \<open>create\<close> prepares them.\<close>

definition prepare_disks ::
  "env \<Rightarrow> obj \<Rightarrow> string \<Rightarrow> hostw \<Rightarrow> (create_error + string \<times> string list) \<times> hostw" where
  "prepare_disks e spec dir w =
     (case ensureQcow2 e (path_join [dir, ''system.qcow2'']) (str (field spec ''disk'') ''16Gi'') w of
        (Some err, w1) \<Rightarrow> (Inl err, w1)
      | (None, w1) \<Rightarrow>
          let sz = specDataDisk spec; dataPath = (if sz \<noteq> '''' then path_join [dir, ''data.qcow2''] else '''') in
          case (if sz \<noteq> '''' then ensureQcow2 e dataPath sz w1 else (None, w1)) of
            (Some err, w2) \<Rightarrow> (Inl err, w2)
          | (None, w2) \<Rightarrow>
              (case ensure_extra e dir 0 (specExtraDisks spec) w2 of
                 (Inl err, w3) \<Rightarrow> (Inl err, w3)
               | (Inr extras, w3) \<Rightarrow> (Inr (dataPath, extras), w3)))"

definition prepare_firmware ::
  "env \<Rightarrow> Platform \<Rightarrow> obj \<Rightarrow> string \<Rightarrow> hostw \<Rightarrow> (create_error + string \<times> string) \<times> hostw" where
  "prepare_firmware e p spec dir w =
     (let secureBoot = specSecureBoot spec; varsPath = path_join [dir, ''efivars.fd''] in
      if secureBoot \<and> SecureFirmwareErr p \<noteq> None then (Inl (No_secure_firmware (the (SecureFirmwareErr p))), w)
      else
        let (fwCode, fwVars) = (if secureBoot then (SecureFirmwareCode p, SecureFirmwareVars p) else (FirmwareCode p, FirmwareVars p)) in
        case ensureEFIVars e varsPath fwVars w of
          (Some err, w1) \<Rightarrow> (Inl err, w1)
        | (None, w1) \<Rightarrow> (Inr (fwCode, varsPath), w1))"

definition launch ::
  "env \<Rightarrow> Platform \<Rightarrow> obj \<Rightarrow> obj \<Rightarrow> boot_input \<Rightarrow> hostw \<Rightarrow> (create_error + int) \<times> hostw" where
  "launch e p m spec bi w =
     (case e_qemu e (QEMUBinary p) (qemu_argv e p m spec bi) w of
        (Some err, w1) \<Rightarrow> (Inl (Qemu_failed err), w1)
      | (None, w1) \<Rightarrow>
          (case read_file e w1 (path_join [bi_dir bi, ''qemu.pid'']) of
             None \<Rightarrow> (Inl Pidfile_missing, w1)
           | Some b \<Rightarrow>
               let (pid, ok) = atoi (trim_space b) in
               if ok then (Inr pid, w1) else (Inl Pidfile_malformed, w1)))"

text \<open>Everything after the image is resolved.\<close>

definition create_prepared ::
  "env \<Rightarrow> Platform \<Rightarrow> obj \<Rightarrow> obj \<Rightarrow> string \<Rightarrow> string \<Rightarrow> hostw \<Rightarrow> (create_error + int) \<times> hostw" where
  "create_prepared e p m spec dir img w =
     (case prepare_disks e spec dir w of
        (Inl err, w1) \<Rightarrow> (Inl err, w1)
      | (Inr (dataPath, extras), w1) \<Rightarrow>
        (case (if specTPM spec then ensureSWTPM e dir w1 else (Inr '''', w1)) of
           (Inl err, w2) \<Rightarrow> (Inl err, w2)
         | (Inr tpmSocket, w2) \<Rightarrow>
           (case prepare_firmware e p spec dir w2 of
              (Inl err, w3) \<Rightarrow> (Inl err, w3)
            | (Inr (fwCode, varsPath), w3) \<Rightarrow>
              (case specClusterNetwork (e_pod e) (e_svc e) m of
                 Inl err \<Rightarrow> (Inl (Create_site err), w3)
               | Inr cn \<Rightarrow>
                   launch e p m spec \<lparr>bi_dir = dir, bi_image = img, bi_fwCode = fwCode, bi_varsPath = varsPath,
                     bi_dataPath = dataPath, bi_extraPaths = extras, bi_tpmSocket = tpmSocket, bi_network = cn\<rparr> w3))))"

definition create :: "env \<Rightarrow> obj \<Rightarrow> string \<Rightarrow> hostw \<Rightarrow> (create_error + int) \<times> hostw" where
  "create e m dir w =
     (let spec = nested_map m [''spec''] in
      case e_detect e of
        Inl err \<Rightarrow> (Inl (Create_detect err), w)
      | Inr p \<Rightarrow>
        (case checkSite (site_view_of e w) (e_stateRoot e) (e_pod e) (e_svc e) m of
           Some err \<Rightarrow> (Inl (Create_site err), w)
         | None \<Rightarrow>
           (case mkdir_all e w dir of
              (Some err, w1) \<Rightarrow> (Inl (Create_io err), w1)
            | (None, w1) \<Rightarrow>
              (case writeMachineRecord e dir m w1 of
                 (Some err, w2) \<Rightarrow> (Inl (Create_io err), w2)
               | (None, w2) \<Rightarrow>
                 (case resolveImage e w2 spec of
                    Inl err \<Rightarrow> (Inl err, w2)
                  | Inr img \<Rightarrow> create_prepared e p m spec dir img w2)))))"

definition Create_hvf :: "env \<Rightarrow> obj \<Rightarrow> hostw \<Rightarrow> create_error option \<times> hostw" where
  "Create_hvf e m w =
     (if isBaremetal m then (ignoreBaremetalOp m, w)
      else case create e m (dir_of e m) w of
          (Inl err, w1) \<Rightarrow> (Some err, w1)
        | (Inr _, w1) \<Rightarrow> (None, w1))"

subsection \<open>Signals\<close>

lemma waitGone_gone: "\<not> matches e w pid dir \<Longrightarrow> waitGone e n pid dir w = (Gone, w)"
  by (simp add: waitGone.simps)

lemma waitGone_outcome:
  "waitGone e n pid dir w = (r, w') \<Longrightarrow> (r = Gone \<longleftrightarrow> \<not> matches e w' pid dir) \<and> (r = Abandoned \<longrightarrow> hw_cancelled w')"
proof (induction n arbitrary: w)
  case 0
  then show ?case by (auto simp: waitGone.simps split: if_splits)
next
  case (Suc n)
  then show ?case by (subst (asm) (2) waitGone.simps) (auto split: if_splits)
qed

text \<open>
  C6. Every signal of the ladder is gated: whatever the guest, the clock and the other processes do,
  each signal \<open>halt\<close> sends goes to the pid it was given, which is positive and is this machine's
  qemu in the very world the signal is sent in. SIGKILL follows only a SIGTERM whose whole wait
  ran out with the process still this machine's, so a cancelled wait never escalates.
\<close>

theorem halt_signals_gated:
  assumes "halt e pid dir w = (r, w', tr)" "(p, s, ws) \<in> set tr"
  shows "p = pid \<and> 0 < p \<and> matches e ws p dir \<and> map (fst \<circ> snd) tr \<in> {[SIGTERM], [SIGTERM, SIGKILL]}
    \<and> (s = SIGKILL \<longrightarrow> waitGone e sigtermTicks pid dir (e_signal e pid SIGTERM w) = (Still_ours, ws))"
  using assms
  by (auto simp: halt_def Let_def split: if_splits prod.splits wait_result.splits dest: waitGone_outcome)

text \<open>
  The ladder never lies: \<open>halt\<close> reports success only when the process is no longer this machine's
  qemu, reports an abandoned wait only when it was cancelled, and its only other failure is a
  process that survived SIGKILL.
\<close>

theorem halt_outcomes:
  assumes "halt e pid dir w = (r, w', tr)"
  shows "(r = None \<longrightarrow> pid \<le> 0 \<or> \<not> matches e w' pid dir)
    \<and> (r = Some (Wait_abandoned pid) \<longrightarrow> hw_cancelled w')
    \<and> (r = Some (Survived_SIGKILL pid) \<longrightarrow> map (fst \<circ> snd) tr = [SIGTERM, SIGKILL] \<and> matches e w' pid dir)
    \<and> (r \<in> {None, Some (Wait_abandoned pid), Some (Survived_SIGKILL pid)})"
  using assms
  by (auto simp: halt_def Let_def split: if_splits prod.splits wait_result.splits dest: waitGone_outcome)

subsection \<open>Teardown\<close>

lemma remove_empty_only [simp]:
  "hw_files (remove_empty w d) = hw_files w" "hw_procs (remove_empty w d) = hw_procs w" "hw_cancelled (remove_empty w d) = hw_cancelled w"
  "set (hw_dirs (remove_empty w d)) \<subseteq> set (hw_dirs w)"
  by (auto simp: remove_empty_def)

lemma matches_procs: "hw_procs w' = hw_procs w \<Longrightarrow> matches e w' = matches e w"
  by (intro ext) (simp add: matches_def procs_of_def)

text \<open>How a teardown ends, by what the ladder reported.\<close>

lemma destroy_cases:
  assumes "destroy e dir w = (r, w', tr)" "destroy_swtpm e dir w = (w1, t1)" "halt e (readPid e w1 dir) dir w1 = (h, w2, t2)"
  obtains (abandoned) "h \<noteq> None" "hw_cancelled w2" "r = Some (Teardown_abandoned dir)" "w' = w2"
  | (failed) "h = None \<or> \<not> hw_cancelled w2" "r = Some (Remove_failed dir)" "w' = snd (remove_all e w2 dir)" "\<exists>q. stuck e w2 dir q"
  | (swept) "h = None \<or> \<not> hw_cancelled w2" "r = None" "w' = remove_empty (snd (remove_all e w2 dir)) (path_dir dir)" "remove_all e w2 dir = (None, snd (remove_all e w2 dir))"
proof (cases "h \<noteq> None \<and> hw_cancelled w2")
  case True
  with assms abandoned show ?thesis by (simp add: destroy_def)
next
  case False
  have "fst (remove_all e w2 dir) = (if \<exists>q. stuck e w2 dir q then Some dir else None)" by (simp add: remove_all_def)
  then show ?thesis
    using assms False failed swept
    by (cases "remove_all e w2 dir"; cases "\<exists>q. stuck e w2 dir q") (auto simp: destroy_def)
qed

lemma destroy_leaves:
  assumes "destroy e dir w = (r, w', tr)" "destroy_swtpm e dir w = (w1, t1)" "halt e (readPid e w1 dir) dir w1 = (h, w2, t2)"
  shows "hw_procs w' = hw_procs w2 \<and> hw_cancelled w' = hw_cancelled w2"
  using assms by (cases rule: destroy_cases) (simp_all add: remove_all_only)

lemma destroy_swept:
  assumes "destroy e dir w = (None, w', tr)" "below dir p"
  shows "hw_files w' p = None \<and> p \<notin> set (hw_dirs w')"
proof -
  obtain w1 t1 where tpm: "destroy_swtpm e dir w = (w1, t1)" by fastforce
  obtain h w2 t2 where halt: "halt e (readPid e w1 dir) dir w1 = (h, w2, t2)" by (metis prod_cases3)
  from assms(1) tpm halt show ?thesis
  proof (cases rule: destroy_cases)
    case swept
    have "hw_files (snd (remove_all e w2 dir)) p = None \<and> p \<notin> set (hw_dirs (snd (remove_all e w2 dir)))"
      using remove_all_done [OF swept(4)] assms(2) by simp
    then show ?thesis using swept(3) remove_empty_only(4) by (auto simp del: remove_empty_only(4))
  qed simp_all
qed

text \<open>
  C7. Teardown sweeps everything, or leaves a live machine alone. When \<open>destroy\<close> succeeds, no file and no
  directory below the machine's directory is left. When it was cancelled and the process of the pid file
  is still this machine's qemu, it reports an abandoned teardown and has removed nothing: the host is as
  the signals left it. When it was not cancelled and nothing below the directory refuses to be removed, it
  succeeds, even over a process that nothing could kill.
\<close>

theorem destroy_sweeps:
  assumes "destroy e dir w = (r, w', tr)" "destroy_swtpm e dir w = (w1, t1)"
  shows "(r = None \<longrightarrow> (\<forall>p. below dir p \<longrightarrow> hw_files w' p = None \<and> p \<notin> set (hw_dirs w')))
    \<and> (hw_cancelled w' \<and> 0 < readPid e w1 dir \<and> matches e w' (readPid e w1 dir) dir \<longrightarrow>
        r = Some (Teardown_abandoned dir) \<and> (\<exists>h t. halt e (readPid e w1 dir) dir w1 = (Some h, w', t)))
    \<and> (\<not> hw_cancelled w' \<and> (\<forall>q. below dir q \<longrightarrow> \<not> e_io_fail e q) \<longrightarrow> r = None)"
proof -
  let ?pid = "readPid e w1 dir"
  obtain h w2 t2 where halt: "halt e ?pid dir w1 = (h, w2, t2)" by (metis prod_cases3)
  have gone: "\<not> matches e w2 ?pid dir" if "h = None" "0 < ?pid" using halt_outcomes [OF halt] that by auto
  have kept: "hw_cancelled w' = hw_cancelled w2" "matches e w' = matches e w2"
    using destroy_leaves [OF assms halt] matches_procs by blast+
  from assms(1,2) halt show ?thesis
  proof (cases rule: destroy_cases)
    case abandoned
    then show ?thesis using halt by auto
  next
    case failed
    then have "\<exists>q. below dir q \<and> e_io_fail e q" by (auto simp: stuck_def)
    with failed gone kept show ?thesis by auto
  next
    case swept
    have "hw_files w' p = None \<and> p \<notin> set (hw_dirs w')" if "below dir p" for p
      using destroy_swept assms(1) swept(2) that by blast
    with swept(1,2) gone kept show ?thesis by auto
  qed
qed

text \<open>A running machine and the environment of an obliging host, for the witnesses.\<close>

definition lab_platform :: Platform where
  "lab_platform = \<lparr>OS = ''linux'', QEMUBinary = ''qemu-system-x86_64'', Machine = ''q35'', Accel = ''kvm'', CPU = ''host'',
     FirmwareCode = ''/fw/code.fd'', FirmwareVars = ''/fw/vars.fd'', SecureFirmwareCode = '''', SecureFirmwareVars = '''',
     SecureFirmwareErr = None, ConsoleArg = ''console=ttyS0'', ImageArch = ''amd64'', TPMDevice = ''tpm-tis''\<rparr>"

definition quiet_env :: env where
  "quiet_env = \<lparr>e_goos = ''linux'', e_detect = Inr lab_platform, e_stateRoot = ''/s'', e_imageRoot = ''/i'',
     e_tmpDir = ''/tmp'', e_sha256 = zero_digest, e_pod = (V4 0x0AF40000, 16), e_svc = (V4 0x0A600000, 12),
     e_marshal = (\<lambda>_. ''''), e_unmarshal = (\<lambda>_. None), e_io_fail = (\<lambda>_. False),
     e_qemu_img = (\<lambda>p s w. (None, w\<lparr>hw_files := (hw_files w)(p \<mapsto> '''')\<rparr>)), e_qemu = (\<lambda>b as w. (None, w)),
     e_swtpm = (\<lambda>as w. (None, w)), e_signal = (\<lambda>pid s w. w\<lparr>hw_procs := (hw_procs w)(pid := None)\<rparr>),
     e_tick = (\<lambda>w. w), e_shutdown = (\<lambda>c ep w. (Some ''refused'', w))\<rparr>"

definition running_host :: hostw where
  "running_host = \<lparr>hw_files = [''/s/lab/u/system.qcow2'' \<mapsto> ''disk'', ''/s/lab/u/qemu.pid'' \<mapsto> ''42''],
     hw_dirs = [''/s/lab/u''], hw_procs = [42 \<mapsto> ''qemu /s/lab/u/qemu.pid''], hw_cancelled = False\<rparr>"

lemma running_matches: "matches quiet_env running_host 42 ''/s/lab/u''"
  by (simp add: matches_def ProcessMatches_def processCmdline_def linuxCmdline_def procs_of_def quiet_env_def
      running_host_def machineToken_def clean_def clean_comps_def parseCmdline_def has_prefix_def)

lemma running_halt:
  "halt quiet_env 42 ''/s/lab/u'' running_host =
     (None, running_host\<lparr>hw_procs := (hw_procs running_host)(42 := None)\<rparr>, [(42, SIGTERM, running_host)])"
proof -
  let ?w = "running_host\<lparr>hw_procs := (hw_procs running_host)(42 := None)\<rparr>"
  have "e_signal quiet_env 42 SIGTERM running_host = ?w" by (simp add: quiet_env_def)
  moreover have "\<not> matches quiet_env ?w 42 ''/s/lab/u''"
    by (simp add: matches_def ProcessMatches_def procs_of_def)
  then have "waitGone quiet_env sigtermTicks 42 ''/s/lab/u'' ?w = (Gone, ?w)" by (rule waitGone_gone)
  ultimately show ?thesis using running_matches by (simp add: halt_def Let_def)
qed

theorem halt_signals_gated_witness:
  "matches quiet_env running_host 42 ''/s/lab/u'' \<and>
   halt quiet_env 42 ''/s/lab/u'' running_host =
     (None, running_host\<lparr>hw_procs := (hw_procs running_host)(42 := None)\<rparr>, [(42, SIGTERM, running_host)])"
  using halt_signals_gated [OF running_halt, of 42 SIGTERM running_host] running_halt by simp

theorem halt_outcomes_witness:
  "\<not> matches quiet_env (running_host\<lparr>hw_procs := (hw_procs running_host)(42 := None)\<rparr>) 42 ''/s/lab/u''"
  using halt_outcomes [OF running_halt] by simp

text \<open>A host whose processes do not hear signals, and a cancelled teardown of a machine on it.\<close>

definition deaf_env :: env where
  "deaf_env = quiet_env\<lparr>e_signal := (\<lambda>_ _ w. w)\<rparr>"

lemma running_pid: "readPid quiet_env (running_host\<lparr>hw_cancelled := c\<rparr>) ''/s/lab/u'' = 42"
  "destroy_swtpm quiet_env ''/s/lab/u'' (running_host\<lparr>hw_cancelled := c\<rparr>) = (running_host\<lparr>hw_cancelled := c\<rparr>, [])"
  by (simp_all add: readPid_def destroy_swtpm_def read_file_def quiet_env_def running_host_def path_join_def clean_def clean_comps_def
      trim_space_visible visible_def atoi_def atoi_digits_def ascii_digit_def digit_val_def)

lemma deaf_destroy:
  "destroy deaf_env ''/s/lab/u'' (running_host\<lparr>hw_cancelled := True\<rparr>) =
     (Some (Teardown_abandoned ''/s/lab/u''), running_host\<lparr>hw_cancelled := True\<rparr>, [(42, SIGTERM, running_host\<lparr>hw_cancelled := True\<rparr>)])"
proof -
  let ?w = "running_host\<lparr>hw_cancelled := True\<rparr>"
  have m: "matches deaf_env ?w 42 ''/s/lab/u''"
    using running_matches by (simp add: matches_def procs_of_def deaf_env_def)
  then have "waitGone deaf_env sigtermTicks 42 ''/s/lab/u'' ?w = (Abandoned, ?w)"
    by (subst waitGone.simps) (simp add: sigtermTicks_def)
  with m have "halt deaf_env 42 ''/s/lab/u'' ?w = (Some (Wait_abandoned 42), ?w, [(42, SIGTERM, ?w)])"
    by (simp add: halt_def Let_def) (simp add: deaf_env_def)
  moreover have "readPid deaf_env ?w ''/s/lab/u'' = 42" "destroy_swtpm deaf_env ''/s/lab/u'' ?w = (?w, [])"
    by (simp_all add: readPid_def destroy_swtpm_def read_file_def deaf_env_def quiet_env_def running_host_def path_join_def clean_def
        clean_comps_def trim_space_visible visible_def atoi_def atoi_digits_def ascii_digit_def digit_val_def)
  ultimately show ?thesis by (simp add: destroy_def)
qed

theorem destroy_sweeps_witness:
  "(\<exists>w' tr. destroy quiet_env ''/s/lab/u'' running_host = (None, w', tr) \<and> hw_files w' ''/s/lab/u/system.qcow2'' = None)
   \<and> fst (destroy deaf_env ''/s/lab/u'' (running_host\<lparr>hw_cancelled := True\<rparr>)) = Some (Teardown_abandoned ''/s/lab/u'')"
proof
  have run: "running_host\<lparr>hw_cancelled := False\<rparr> = running_host" by (simp add: running_host_def)
  note pid = running_pid [of False, unfolded run]
  obtain r w' tr where d: "destroy quiet_env ''/s/lab/u'' running_host = (r, w', tr)" by (metis prod_cases3)
  from destroy_leaves [OF d pid(2) running_halt [folded pid(1)]] have "\<not> hw_cancelled w'"
    by (simp add: running_host_def)
  then have "r = None" using destroy_sweeps [OF d pid(2)] by (simp add: quiet_env_def)
  moreover have "below ''/s/lab/u'' ''/s/lab/u/system.qcow2''" by (simp add: below_def has_prefix_def)
  ultimately show "\<exists>w' tr. destroy quiet_env ''/s/lab/u'' running_host = (None, w', tr) \<and> hw_files w' ''/s/lab/u/system.qcow2'' = None"
    using destroy_sweeps [OF d pid(2)] d by blast
  show "fst (destroy deaf_env ''/s/lab/u'' (running_host\<lparr>hw_cancelled := True\<rparr>)) = Some (Teardown_abandoned ''/s/lab/u'')"
    by (simp add: deaf_destroy)
qed

text \<open>
  The TPM's process is the exception to the rule: \<open>destroy\<close> sends SIGTERM to whatever process the
  number in \<^verbatim>\<open>swtpm.pid\<close> names now, here one that has nothing to do with the machine.
\<close>

definition recycled_host :: hostw where
  "recycled_host = \<lparr>hw_files = [''/s/lab/u/swtpm.pid'' \<mapsto> ''7''], hw_dirs = [''/s/lab/u''],
     hw_procs = [7 \<mapsto> ''postgres''], hw_cancelled = False\<rparr>"

lemma swtpm_signal_ungated:
  "destroy_swtpm quiet_env ''/s/lab/u'' recycled_host =
     (recycled_host\<lparr>hw_procs := (hw_procs recycled_host)(7 := None)\<rparr>, [(7, SIGTERM, recycled_host)])
   \<and> \<not> matches quiet_env recycled_host 7 ''/s/lab/u''"
  by (simp add: destroy_swtpm_def read_file_def quiet_env_def recycled_host_def path_join_def clean_def clean_comps_def
      trim_space_visible visible_def atoi_def atoi_digits_def ascii_digit_def digit_val_def matches_def ProcessMatches_def
      processCmdline_def linuxCmdline_def procs_of_def machineToken_def parseCmdline_def has_prefix_def)

subsection \<open>Creation\<close>

text \<open>The host on which qemu-img, asked for the disk at \<open>p\<close>, does \<open>f\<close> instead.\<close>

definition with_img :: "env \<Rightarrow> string \<Rightarrow> (string \<Rightarrow> hostw \<Rightarrow> string option \<times> hostw) \<Rightarrow> env" where
  "with_img e p f = e\<lparr>e_qemu_img := (\<lambda>q. if q = p then f else e_qemu_img e q)\<rparr>"

lemma with_img_fields [simp]:
  "e_detect (with_img e p f) = e_detect e" "e_stateRoot (with_img e p f) = e_stateRoot e" "e_pod (with_img e p f) = e_pod e"
  "e_svc (with_img e p f) = e_svc e" "e_sha256 (with_img e p f) = e_sha256 e" "e_io_fail (with_img e p f) = e_io_fail e"
  "e_tick (with_img e p f) = e_tick e" "e_swtpm (with_img e p f) = e_swtpm e" "e_qemu (with_img e p f) = e_qemu e"
  "stat (with_img e p f) = stat e" "read_file (with_img e p f) = read_file e" "write_file (with_img e p f) = write_file e"
  "mkdir_all (with_img e p f) = mkdir_all e" "matches (with_img e p f) = matches e" "dir_of (with_img e p f) = dir_of e"
  "site_view_of (with_img e p f) = site_view_of e" "resolveImage (with_img e p f) = resolveImage e"
  "swtpmSocketPath (with_img e p f) = swtpmSocketPath e" "qemu_argv (with_img e p f) = qemu_argv e"
  "writeMachineRecord (with_img e p f) = writeMachineRecord e"
  by (simp_all add: with_img_def fun_eq_iff stat_def read_file_def write_file_def mkdir_all_def matches_def procs_of_def dir_of_def
      site_view_of_def resolveImage_def swtpmSocketPath_def qemu_argv_def writeMachineRecord_def split: val.split)

lemma with_img_run: "e_qemu_img (with_img e p f) q = (if q = p then f else e_qemu_img e q)"
  by (simp add: with_img_def)

lemma await_file_with_img [simp]: "await_file (with_img e p f) n path w = await_file e n path w"
  by (induction n arbitrary: w) simp_all

lemma ensureSWTPM_with_img [simp]: "ensureSWTPM (with_img e p f) = ensureSWTPM e"
  unfolding fun_eq_iff ensureSWTPM_def swtpm_running_def swtpm_argv_def with_img_fields await_file_with_img by simp

lemma launch_with_img [simp]: "launch (with_img e p f) = launch e"
  unfolding fun_eq_iff launch_def with_img_fields by simp

lemma prepare_firmware_with_img [simp]: "prepare_firmware (with_img e p f) = prepare_firmware e"
  unfolding fun_eq_iff prepare_firmware_def ensureEFIVars_def with_img_fields by simp

text \<open>qemu-img leaves alone the files it is not asked for.\<close>

definition img_leaves :: "env \<Rightarrow> string \<Rightarrow> bool" where
  "img_leaves e p = (\<forall>q sz v. q \<noteq> p \<longrightarrow> hw_files (snd (e_qemu_img e q sz v)) p = hw_files v p)"

lemma img_leavesD: "img_leaves e p \<Longrightarrow> q \<noteq> p \<Longrightarrow> e_qemu_img e q sz v = (r, v') \<Longrightarrow> hw_files v' p = hw_files v p"
  unfolding img_leaves_def by (metis snd_conv)

lemma ensureQcow2_spares:
  assumes "hw_files w p \<noteq> None" "img_leaves e p"
    and "ensureQcow2 e path sz w = (r, w')"
  shows "ensureQcow2 (with_img e p f) path sz w = (r, w') \<and> hw_files w' p = hw_files w p"
proof -
  have "stat e w p \<noteq> Not_there" using assms(1) by (simp add: stat_def)
  then show ?thesis
    using assms(3) img_leavesD [OF assms(2), of path "trim_suffix sz ''i''" w]
    by (cases "path = p") (auto simp: ensureQcow2_def with_img_run split: stat_result.splits prod.splits option.splits)
qed

lemma ensure_extra_spares:
  assumes "hw_files w p \<noteq> None" "img_leaves e p"
    and "ensure_extra e dir k szs w = (r, w')"
  shows "ensure_extra (with_img e p f) dir k szs w = (r, w') \<and> hw_files w' p = hw_files w p"
  using assms(1,3)
proof (induction szs arbitrary: k w r w')
  case (Cons sz szs)
  let ?path = "path_join [dir, ''extra-'' @ dec_of_nat k @ ''.qcow2'']"
  obtain r1 w1 where one: "ensureQcow2 e ?path sz w = (r1, w1)" by fastforce
  note spared = ensureQcow2_spares [OF Cons.prems(1) assms(2) one, where f = f]
  show ?case
  proof (cases r1)
    case None
    obtain r2 w2 where rest: "ensure_extra e dir (Suc k) szs w1 = (r2, w2)" by fastforce
    from Cons.IH [OF _ rest] spared Cons.prems(1) have "ensure_extra (with_img e p f) dir (Suc k) szs w1 = (r2, w2) \<and> hw_files w2 p = hw_files w1 p"
      by simp
    with Cons.prems(2) None one rest spared show ?thesis by (cases r2) (auto simp: Let_def)
  qed (use Cons.prems(2) one spared in \<open>auto simp: Let_def\<close>)
qed simp

lemma prepare_disks_spares:
  assumes "hw_files w p \<noteq> None" and img: "img_leaves e p"
    and "prepare_disks e spec dir w = (r, w')"
  shows "prepare_disks (with_img e p f) spec dir w = (r, w') \<and> hw_files w' p = hw_files w p"
proof -
  let ?sz = "specDataDisk spec" and ?data = "path_join [dir, ''data.qcow2'']"
  obtain r1 w1 where sys: "ensureQcow2 e (path_join [dir, ''system.qcow2'']) (str (field spec ''disk'') ''16Gi'') w = (r1, w1)" by fastforce
  obtain r2 w2 where data: "(if ?sz \<noteq> '''' then ensureQcow2 e ?data ?sz w1 else (None, w1)) = (r2, w2)" by fastforce
  obtain r3 w3 where extra: "ensure_extra e dir 0 (specExtraDisks spec) w2 = (r3, w3)" by fastforce
  note s1 = ensureQcow2_spares [OF assms(1) img sys, where f = f]
  have s2: "(if ?sz \<noteq> '''' then ensureQcow2 (with_img e p f) ?data ?sz w1 else (None, w1)) = (r2, w2) \<and> hw_files w2 p = hw_files w1 p"
    using data s1 assms(1) ensureQcow2_spares [OF _ img, where w = w1 and path = ?data and sz = ?sz and r = r2 and w' = w2 and f = f] by (auto split: if_splits)
  have s3: "ensure_extra (with_img e p f) dir 0 (specExtraDisks spec) w2 = (r3, w3) \<and> hw_files w3 p = hw_files w2 p"
    using s1 s2 assms(1) ensure_extra_spares [OF _ img extra, where f = f] by simp
  show ?thesis
    using assms(3) sys data extra s1 s2 s3
    by (auto simp: prepare_disks_def Let_def split: option.splits sum.splits)
qed

text \<open>
  C22. Starting a machine never formats a disk that is there. Whatever file \<open>p\<close> exists (one disk of the
  machine or all of them, while others are still to be made), \<^verbatim>\<open>Create\<close> comes out the same whatever qemu-img
  would do if it were asked for \<open>p\<close>, on every branch and every outcome, since it never is; and the contents of
  \<open>p\<close> are the same after the disks have been prepared. qemu-img is only relied on to leave alone the files
  it is not asked for.
\<close>

theorem Create_spares_disks:
  assumes "hw_files w p = Some b" and "img_leaves e p"
  shows "Create_hvf (with_img e p f) m w = Create_hvf e m w
    \<and> (\<forall>spec dir r w'. prepare_disks e spec dir w = (r, w') \<longrightarrow> hw_files w' p = Some b)"
proof
  have same: "prepare_disks (with_img e p f) spec dir v = prepare_disks e spec dir v" if "hw_files v p \<noteq> None" for spec dir v
    using prepare_disks_spares [OF that assms(2), where spec = spec and dir = dir and f = f] by (cases "prepare_disks e spec dir v") simp
  have "create (with_img e p f) m dir w = create e m dir w" for dir
  proof -
    have "hw_files (snd (mkdir_all e w dir)) p \<noteq> None" using assms(1) by (simp add: mkdir_all_def)
    then have "hw_files (snd (writeMachineRecord e dir m (snd (mkdir_all e w dir)))) p \<noteq> None"
      by (simp add: writeMachineRecord_def write_file_def)
    then show ?thesis
      by (auto simp: create_def Let_def create_prepared_def same split: sum.split option.split prod.split)
  qed
  then show "Create_hvf (with_img e p f) m w = Create_hvf e m w" by (simp add: Create_hvf_def)
  show "\<forall>spec dir r w'. prepare_disks e spec dir w = (r, w') \<longrightarrow> hw_files w' p = Some b"
    using prepare_disks_spares [OF _ assms(2), of w] assms(1) by auto
qed

text \<open>
  A refusal leaves no residue: a host that cannot run the machine, or a machine that collides
  with its site, is refused before anything is written.
\<close>

theorem create_refused_without_residue:
  "(\<forall>err. e_detect e = Inl err \<longrightarrow> create e m dir w = (Inl (Create_detect err), w))
   \<and> (\<forall>p err. e_detect e = Inr p \<longrightarrow> checkSite (site_view_of e w) (e_stateRoot e) (e_pod e) (e_svc e) m = Some err \<longrightarrow>
        create e m dir w = (Inl (Create_site err), w))"
  by (simp add: create_def)

theorem create_refused_without_residue_witness:
  "create (quiet_env\<lparr>e_detect := Inl (Unsupported_os ''plan9'')\<rparr>) [] ''/s/lab/u'' running_host =
     (Inl (Create_detect (Unsupported_os ''plan9'')), running_host)"
  using create_refused_without_residue [of "quiet_env\<lparr>e_detect := Inl (Unsupported_os ''plan9'')\<rparr>" "[]" "''/s/lab/u''" running_host] by simp

text \<open>
  A machine whose image does not resolve leaves its directory and its record behind, and is
  nevertheless reported Absent: the record keeps claiming its ports and its address.
\<close>

lemma unresolved_image_residue:
  assumes "e_detect e = Inr p" "checkSite (site_view_of e w) (e_stateRoot e) (e_pod e) (e_svc e) m = None"
    and "\<not> e_io_fail e dir" "\<not> e_io_fail e (path_join [dir, machineRecordName])"
    and "nested m [''spec''] = None"
  shows "fst (create e m dir w) = Inl Image_required
    \<and> hw_files (snd (create e m dir w)) (path_join [dir, machineRecordName]) = Some (e_marshal e m)"
  using assms
  by (auto simp: create_def mkdir_all_def writeMachineRecord_def write_file_def resolveImage_def nested_map_def field_def)

end
