(* ===== verification/Tinq_Driver.thy ===== *)
theory Tinq_Driver
  imports Tinq_Host
begin

section \<open>The QEMU driver meets the driver contract\<close>

text \<open>
  \<open>hvf_driver\<close> packs the verbs of \<^verbatim>\<open>src/cmd/tinq/main.go\<close> into the interface of the reconcile loop.
  What it needs of the programs it runs is the locale \<open>qemu_host\<close>: qemu-img leaves the file it was
  asked for, a successful \<^verbatim>\<open>qemu -daemonize\<close> leaves its pid in the pid file and a process with
  exactly the arguments it was given, and neither signals nor time nor the guest remove a disk.
  Under it the driver meets \<open>driver_contract\<close> on every virtual machine, so the results of the loop
  hold for it; the last part shows an environment that meets the assumptions.
\<close>

definition hvf_driver :: "env \<Rightarrow> hostw driver" where
  "hvf_driver e =
     \<lparr>Observe = Observe_hvf e,
      Create = (\<lambda>m w. map_prod (map_option (\<lambda>_. ''create'')) id (Create_hvf e m w)),
      Stop = (\<lambda>m w. case Stop_hvf e m w of (r, w', _) \<Rightarrow> (map_option (\<lambda>_. ''stop'') r, w')),
      Destroy = (\<lambda>m w. case Destroy_hvf e m w of (r, w', _) \<Rightarrow> (map_option (\<lambda>_. ''destroy'') r, w'))\<rparr>"

text \<open>The state of the host itself, as the comments of \<^verbatim>\<open>State\<close> define the three values.\<close>

definition system_disk :: "env \<Rightarrow> obj \<Rightarrow> string" where
  "system_disk e m = path_join [dir_of e m, ''system.qcow2'']"

definition hvf_state :: "env \<Rightarrow> obj \<Rightarrow> hostw \<Rightarrow> State" where
  "hvf_state e m w =
     (if hw_files w (system_disk e m) = None \<and> system_disk e m \<notin> set (hw_dirs w) then Absent
      else if 0 < readPid e w (dir_of e m) \<and> matches e w (readPid e w (dir_of e m)) (dir_of e m) then Running
      else Stopped)"

definition hvf_owns :: "env \<Rightarrow> obj \<Rightarrow> bool" where
  "hvf_owns e m = (\<not> isBaremetal m \<and>
     (\<exists>cs. dir_of e m = abs_path cs \<and> state_comps cs \<and> CHR 0x00 \<notin> set (abs_path cs)))"

text \<open>
  What a signal, a poll interval or a shutdown request may do to the files the driver decides by: no system
  disk comes or goes, and a pid file of qemu may go but is not rewritten. All other files are free: the
  pid file and the state of swtpm, sockets, logs, and what is in a disk.
\<close>

definition keeps_files :: "hostw \<Rightarrow> hostw \<Rightarrow> bool" where
  "keeps_files w w' =
     ((\<forall>q. has_suffix q ''/system.qcow2'' \<longrightarrow> (hw_files w' q = None) = (hw_files w q = None) \<and> (q \<in> set (hw_dirs w')) = (q \<in> set (hw_dirs w)))
     \<and> (\<forall>q. has_suffix q ''/qemu.pid'' \<longrightarrow> hw_files w' q = None \<or> hw_files w' q = hw_files w q))"

locale qemu_host =
  fixes e :: env
  assumes linux: "e_goos e = ''linux''"
    and img_creates: "e_qemu_img e p sz w = (None, w') \<Longrightarrow>
          hw_files w' p \<noteq> None \<and> (\<forall>q. hw_files w q \<noteq> None \<longrightarrow> hw_files w' q \<noteq> None) \<and> set (hw_dirs w) \<subseteq> set (hw_dirs w')"
    and swtpm_adds: "e_swtpm e as w = (r, w') \<Longrightarrow> has_suffix q ''/system.qcow2'' \<Longrightarrow>
          (hw_files w q \<noteq> None \<longrightarrow> hw_files w' q \<noteq> None) \<and> (q \<in> set (hw_dirs w) \<longrightarrow> q \<in> set (hw_dirs w'))"
    and qemu_daemonizes: "e_qemu e b as w = (None, w') \<Longrightarrow>
          (\<forall>pre pf post. as = pre @ ''-pidfile'' # pf # post \<longrightarrow>
             (\<exists>c pid. hw_files w' pf = Some c \<and> atoi (trim_space c) = (pid, True) \<and> 0 < pid
                \<and> hw_procs w' pid = Some (argv_bytes (b # as))))
          \<and> (\<forall>q. hw_files w q \<noteq> None \<longrightarrow> hw_files w' q \<noteq> None) \<and> set (hw_dirs w) \<subseteq> set (hw_dirs w')"
    and signal_keeps: "keeps_files w (e_signal e pid sg w)"
    and tick_keeps: "keeps_files w (e_tick e w)"
    and shutdown_keeps: "keeps_files w (snd (e_shutdown e c ep w))"
    and socket_elsewhere: "\<not> has_suffix (swtpmSocketPath e d) ''/system.qcow2''"
begin

lemma keeps_trans: "keeps_files u v \<Longrightarrow> keeps_files v w \<Longrightarrow> keeps_files u w"
  unfolding keeps_files_def by metis

lemma keeps_refl: "keeps_files w w"
  by (simp add: keeps_files_def)

lemma waitGone_keeps: "keeps_files w (snd (waitGone e n pid dir w))"
proof (induction n arbitrary: w)
  case 0
  show ?case by (simp add: waitGone.simps keeps_refl)
next
  case (Suc n)
  have "keeps_files w (snd (waitGone e n pid dir (e_tick e w)))"
    using Suc [of "e_tick e w"] tick_keeps keeps_trans by blast
  then show ?case by (subst waitGone.simps) (simp add: keeps_refl)
qed

lemma halt_keeps: "halt e pid dir w = (r, w', tr) \<Longrightarrow> keeps_files w w'"
proof -
  assume h: "halt e pid dir w = (r, w', tr)"
  obtain r2 w2 where a: "waitGone e sigtermTicks pid dir (e_signal e pid SIGTERM w) = (r2, w2)" by fastforce
  obtain r4 w4 where b: "waitGone e sigtermTicks pid dir (e_signal e pid SIGKILL w2) = (r4, w4)" by fastforce
  have k2: "keeps_files w w2" using signal_keeps waitGone_keeps a keeps_trans by (metis snd_conv)
  have k4: "keeps_files w2 w4" using signal_keeps waitGone_keeps b keeps_trans by (metis snd_conv)
  have "w' = w \<or> w' = w2 \<or> w' = w4"
    using h by (auto simp: halt_def Let_def a b split: if_splits wait_result.splits)
  with k2 keeps_trans [OF k2 k4] keeps_refl show ?thesis by blast
qed


text \<open>Whether a path exists; a system disk that exists survives every step of a creation.\<close>

definition there :: "string \<Rightarrow> hostw \<Rightarrow> bool" where
  "there q w = (hw_files w q \<noteq> None \<or> q \<in> set (hw_dirs w))"

lemma keeps_there: "keeps_files w w' \<Longrightarrow> has_suffix q ''/system.qcow2'' \<Longrightarrow> there q w' = there q w"
  by (simp add: keeps_files_def there_def)

lemma stat_there: "stat e w q = Present \<Longrightarrow> there q w" "\<not> e_io_fail e q \<Longrightarrow> stat e w q = Present \<longleftrightarrow> there q w"
  by (auto simp: stat_def there_def split: if_splits)

lemma ensureQcow2_there: "ensureQcow2 e path sz w = (None, w') \<Longrightarrow> there path w' \<and> (there q w \<longrightarrow> there q w')"
proof -
  assume a: "ensureQcow2 e path sz w = (None, w')"
  show ?thesis
  proof (cases "stat e w path")
    case Present
    with a show ?thesis by (simp add: ensureQcow2_def stat_there(1))
  next
    case Not_there
    with a have "e_qemu_img e path (trim_suffix sz ''i'') w = (None, w')"
      by (simp add: ensureQcow2_def split: prod.splits option.splits)
    from img_creates [OF this] show ?thesis by (auto simp: there_def)
  qed (use a in \<open>simp add: ensureQcow2_def\<close>)
qed

lemma ensure_extra_there: "ensure_extra e dir i szs w = (Inr ps, w') \<Longrightarrow> there q w \<Longrightarrow> there q w'"
proof (induction szs arbitrary: i w ps)
  case (Cons sz szs)
  then show ?case
    using ensureQcow2_there [of _ sz w _ q]
    by (auto simp: Let_def split: prod.splits option.splits sum.splits)
qed simp

lemma prepare_disks_there:
  assumes "prepare_disks e spec dir w = (Inr x, w')"
  shows "there (path_join [dir, ''system.qcow2'']) w'"
proof -
  let ?q = "path_join [dir, ''system.qcow2'']"
  from assms obtain w1 where a: "ensureQcow2 e ?q (str (field spec ''disk'') ''16Gi'') w = (None, w1)"
    by (auto simp: prepare_disks_def split: prod.splits option.splits)
  then have "there ?q w1" using ensureQcow2_there by blast
  from assms a obtain w2 where b: "(if specDataDisk spec \<noteq> '''' then ensureQcow2 e (path_join [dir, ''data.qcow2'']) (specDataDisk spec) w1
      else (None, w1)) = (None, w2)" and ex: "\<exists>ps. ensure_extra e dir 0 (specExtraDisks spec) w2 = (Inr ps, w')"
    by (auto simp: prepare_disks_def Let_def split: prod.splits option.splits sum.splits if_splits)
  from b \<open>there ?q w1\<close> have "there ?q w2"
    using ensureQcow2_there by (auto split: if_splits)
  with ex show ?thesis using ensure_extra_there by blast
qed

lemma await_file_keeps: "await_file e n path w = (r, w') \<Longrightarrow> keeps_files w w'"
proof (induction n arbitrary: w)
  case (Suc n)
  then show ?case using tick_keeps keeps_refl keeps_trans by (auto split: if_splits) blast
qed (simp add: keeps_refl)

lemma ensureSWTPM_there:
  assumes "ensureSWTPM e dir w = (Inr sock, w')" "has_suffix q ''/system.qcow2''" "there q w"
  shows "there q w'"
proof (cases "swtpm_running e dir w")
  case True
  with assms show ?thesis by (simp add: ensureSWTPM_def Let_def)
next
  case False
  from False assms(1) obtain w1 w3 where m: "mkdir_all e w (path_join [dir, ''tpm'']) = (None, w1)"
    and s: "e_swtpm e (swtpm_argv e dir) (w1\<lparr>hw_files := (hw_files w1)(swtpmSocketPath e dir := None)\<rparr>) = (None, w3)"
    and a: "await_file e 50 (path_join [dir, ''swtpm.pid'']) w3 = (True, w')"
    by (auto simp: ensureSWTPM_def Let_def split: prod.splits option.splits if_splits bool.splits)
  have "q \<noteq> swtpmSocketPath e dir" using socket_elsewhere assms(2) by auto
  moreover have "there q w1" using m assms(3) by (auto simp: mkdir_all_def there_def split: if_splits)
  ultimately have "there q (w1\<lparr>hw_files := (hw_files w1)(swtpmSocketPath e dir := None)\<rparr>)" by (simp add: there_def)
  then have "there q w3" using swtpm_adds [OF s assms(2)] by (auto simp: there_def)
  then show ?thesis using keeps_there [OF await_file_keeps [OF a] assms(2)] by blast
qed

lemma prepare_firmware_there: "prepare_firmware e p spec dir w = (Inr x, w') \<Longrightarrow> there q w \<Longrightarrow> there q w'"
  by (auto simp: prepare_firmware_def ensureEFIVars_def write_file_def there_def Let_def
      split: if_splits option.splits prod.splits)


lemma argv_contains:
  assumes "a \<in> set args" "CHR 0x00 \<notin> set a"
  shows "str_contains (parseCmdline (argv_bytes args)) a"
proof -
  from assms(1) obtain xs ys where "args = xs @ a # ys" by (auto simp: in_set_conv_decomp)
  then have "parseCmdline (argv_bytes args) = parseCmdline (argv_bytes xs) @ parseCmdline a @ parseCmdline (CHR 0x00 # argv_bytes ys)"
    by (simp add: argv_bytes_def parseCmdline_def)
  moreover have "parseCmdline a = a" using assms(2) by (auto simp: parseCmdline_def intro: map_idI)
  ultimately show ?thesis by (simp add: str_containsI)
qed

text \<open>The process of a launched machine is recognised as this machine's.\<close>

definition has_pair :: "string \<Rightarrow> string \<Rightarrow> string list \<Rightarrow> bool" where
  "has_pair a b xs = (\<exists>pre post. xs = pre @ a # b # post)"

lemma pair_here: "has_pair a b (a # b # xs)"
  unfolding has_pair_def by (metis append_Nil)

lemma pair_left: "has_pair a b ys \<Longrightarrow> has_pair a b (xs @ ys)"
  unfolding has_pair_def by (metis append_assoc)

lemma pair_right: "has_pair a b xs \<Longrightarrow> has_pair a b (xs @ ys)"
  unfolding has_pair_def by (metis append_assoc append_Cons)

lemma pair_cons: "has_pair a b xs \<Longrightarrow> has_pair a b (x # xs)"
  unfolding has_pair_def by (metis append_Cons)

lemma qemu_argv_pidfile:
  "\<exists>pre post. qemu_argv e p m spec bi = pre @ ''-pidfile'' # path_join [bi_dir bi, ''qemu.pid''] # post"
  unfolding qemu_argv_def Let_def has_pair_def [symmetric]
  by (rule pair_left, rule pair_left, rule pair_right, (rule pair_here | rule pair_cons)+)

lemma launch_running:
  assumes own: "dir_of e m = abs_path cs" "state_comps cs" "CHR 0x00 \<notin> set (abs_path cs)"
    and l: "launch e p m spec bi w = (Inr pid, w')" "bi_dir bi = dir_of e m" and sys: "there (system_disk e m) w"
  shows "hvf_state e m w' = Running"
proof -
  let ?d = "abs_path cs"
  let ?pf = "path_join [?d, ''qemu.pid'']"
  note cs = state_compsD [OF own(2)]
  from l(1) have q: "e_qemu e (QEMUBinary p) (qemu_argv e p m spec bi) w = (None, w')"
    by (auto simp: launch_def Let_def split: prod.splits option.splits if_splits)
  obtain pre post where argv: "qemu_argv e p m spec bi = pre @ ''-pidfile'' # ?pf # post"
    using qemu_argv_pidfile [of p m spec bi] l(2) own(1) by auto
  from qemu_daemonizes [OF q] argv obtain c k where k: "hw_files w' ?pf = Some c" "atoi (trim_space c) = (k, True)" "0 < k"
      "hw_procs w' k = Some (argv_bytes (QEMUBinary p # qemu_argv e p m spec bi))" by blast
  from l(1) q have "\<not> e_io_fail e ?pf"
    using l(2) own(1) by (auto simp: launch_def read_file_def split: option.splits if_splits)
  then have pid: "readPid e w' ?d = k" using k(1,2) by (simp add: readPid_def read_file_def)
  have pf: "?pf = ?d @ ''/'' @ ''qemu.pid''"
    using path_join_abs [OF cs [THEN conjunct1] cs [THEN conjunct2], of "[''qemu.pid'']"] cs
    by (simp add: plain_comp_def) (simp add: abs_path_def join_append)
  have "CHR 0x00 \<notin> set ?pf" using own(3) by (simp add: pf)
  then have "str_contains (parseCmdline (argv_bytes (QEMUBinary p # qemu_argv e p m spec bi))) ?pf"
    by (intro argv_contains) (simp_all add: argv)
  moreover have "str_contains ?pf (?d @ ''/'')" using str_containsI [of "[]" "?d @ ''/''" "''qemu.pid''"] by (simp add: pf)
  ultimately have "str_contains (parseCmdline (argv_bytes (QEMUBinary p # qemu_argv e p m spec bi))) (?d @ ''/'')"
    by (rule str_contains_trans)
  then have "matches e w' k ?d"
    using k cs by (simp add: matches_def ProcessMatches_def procs_of_def processCmdline_def linuxCmdline_def linux token_abs)
      (simp add: abs_path_def)
  moreover have "there (system_disk e m) w'" using sys qemu_daemonizes [OF q] by (auto simp: there_def)
  ultimately show ?thesis using pid k(3) own(1) by (simp add: hvf_state_def there_def)
qed

lemma system_disk_suffix: "hvf_owns e m \<Longrightarrow> has_suffix (system_disk e m) ''/system.qcow2''"
proof -
  assume "hvf_owns e m"
  then obtain cs where "dir_of e m = abs_path cs" "state_comps cs" by (auto simp: hvf_owns_def)
  moreover from this have "path_join [abs_path cs, ''system.qcow2''] = abs_path cs @ ''/system.qcow2''"
    using path_join_abs [of cs "[''system.qcow2'']"] state_compsD [of cs]
    by (simp add: plain_comp_def) (simp add: abs_path_def join_append)
  ultimately show ?thesis by (auto simp: system_disk_def has_suffix_iff)
qed

lemma create_running_hvf:
  assumes "hvf_owns e m" "Create_hvf e m w = (None, w')"
  shows "hvf_state e m w' = Running"
proof -
  let ?dir = "dir_of e m" and ?spec = "nested_map m [''spec'']"
  from assms obtain pid where c: "create e m ?dir w = (Inr pid, w')"
    by (auto simp: Create_hvf_def hvf_owns_def split: prod.splits sum.splits)
  from c obtain p w2 img where prep: "create_prepared e p m ?spec ?dir img w2 = (Inr pid, w')"
    by (auto simp: create_def Let_def split: sum.splits option.splits prod.splits)
  from prep obtain dp ex w3 tpm w4 fc vp w5 cn where d: "prepare_disks e ?spec ?dir w2 = (Inr (dp, ex), w3)"
    and t: "(if specTPM ?spec then ensureSWTPM e ?dir w3 else (Inr '''', w3)) = (Inr tpm, w4)"
    and f: "prepare_firmware e p ?spec ?dir w4 = (Inr (fc, vp), w5)"
    and l: "launch e p m ?spec \<lparr>bi_dir = ?dir, bi_image = img, bi_fwCode = fc, bi_varsPath = vp,
              bi_dataPath = dp, bi_extraPaths = ex, bi_tpmSocket = tpm, bi_network = cn\<rparr> w5 = (Inr pid, w')"
    unfolding create_prepared_def
    by (simp split: sum.splits prod.splits)
  note suffix = system_disk_suffix [OF assms(1)]
  have "there (system_disk e m) w3" using prepare_disks_there [OF d] by (simp add: system_disk_def)
  then have "there (system_disk e m) w4" using t ensureSWTPM_there [OF _ suffix] by (auto split: if_splits)
  then have "there (system_disk e m) w5" by (rule prepare_firmware_there [OF f])
  with l assms(1) show ?thesis by (auto simp: hvf_owns_def intro: launch_running)
qed

lemma stop_stopped_hvf:
  assumes "hvf_owns e m" "hvf_state e m w = Running" "Stop_hvf e m w = (None, w', tr)"
  shows "hvf_state e m w' = Stopped"
proof -
  let ?dir = "dir_of e m"
  let ?pid = "readPid e w ?dir"
  have run: "there (system_disk e m) w" "0 < ?pid" "matches e w ?pid ?dir"
    using assms(2) by (auto simp: hvf_state_def there_def split: if_splits)
  have obs: "\<exists>st. Observe_hvf e m w = Inr (Running, st)"
    using assms run
    by (auto simp: Observe_hvf_def Stop_hvf_def Let_def hvf_owns_def system_disk_def stat_def there_def
        split: stat_result.splits if_splits)
  obtain r1 w1 where sd: "shutdownGuest e m w = (r1, w1)" by fastforce
  have k1: "keeps_files w w1"
    using sd shutdown_keeps keeps_refl by (auto simp: shutdownGuest_def split: option.splits) (metis snd_conv)
  have after: "keeps_files w w' \<and> \<not> matches e w' ?pid ?dir"
  proof (cases r1)
    case (Some err)
    with assms(1,3) obs sd obtain t where "halt e ?pid ?dir w1 = (None, w', t)"
      by (auto simp: Stop_hvf_def Let_def hvf_owns_def split: prod.splits)
    then show ?thesis using halt_outcomes [of e ?pid ?dir w1] halt_keeps k1 keeps_trans run(2) by force
  next
    case None
    obtain r2 w2 where wt: "waitGone e gracefulStopTicks ?pid ?dir w1 = (r2, w2)" by fastforce
    have k2: "keeps_files w w2" using waitGone_keeps wt k1 keeps_trans by (metis snd_conv)
    show ?thesis
    proof (cases r2)
      case Gone
      with None assms(1,3) obs sd wt have "w' = w2" by (auto simp: Stop_hvf_def Let_def hvf_owns_def)
      with k2 waitGone_outcome [OF wt] Gone show ?thesis by simp
    next
      case Still_ours
      with None assms(1,3) obs sd wt obtain t where "halt e ?pid ?dir w2 = (None, w', t)"
        by (auto simp: Stop_hvf_def Let_def hvf_owns_def split: prod.splits)
      then show ?thesis using halt_outcomes [of e ?pid ?dir w2] halt_keeps k2 keeps_trans run(2) by force
    next
      case Abandoned
      with None assms(1,3) obs sd wt show ?thesis by (auto simp: Stop_hvf_def Let_def hvf_owns_def)
    qed
  qed
  have "there (system_disk e m) w'"
    using run(1) keeps_there [of w w'] after system_disk_suffix [OF assms(1)] by blast
  moreover have "readPid e w' ?dir \<in> {?pid, 0}"
  proof -
    obtain cs where cs: "?dir = abs_path cs" "state_comps cs" using assms(1) by (auto simp: hvf_owns_def)
    then have pf: "path_join [?dir, ''qemu.pid''] = ?dir @ ''/qemu.pid''"
      using path_join_abs [of cs "[''qemu.pid'']"] state_compsD [of cs]
      by (simp add: plain_comp_def) (simp add: abs_path_def join_append)
    then have "has_suffix (path_join [?dir, ''qemu.pid'']) ''/qemu.pid''" by (auto simp: has_suffix_iff)
    with after have "hw_files w' (path_join [?dir, ''qemu.pid'']) = None
        \<or> hw_files w' (path_join [?dir, ''qemu.pid'']) = hw_files w (path_join [?dir, ''qemu.pid''])"
      unfolding keeps_files_def by blast
    then show ?thesis by (auto simp: readPid_def read_file_def)
  qed
  ultimately show ?thesis using after by (auto simp: hvf_state_def there_def)
qed

lemma destroy_absent_hvf:
  assumes "hvf_owns e m" "Destroy_hvf e m w = (None, w', tr)"
  shows "hvf_state e m w' = Absent"
proof -
  from assms have d: "destroy e (dir_of e m) w = (None, w', tr)" by (simp add: Destroy_hvf_def hvf_owns_def)
  obtain cs where cs: "dir_of e m = abs_path cs" "state_comps cs" using assms(1) by (auto simp: hvf_owns_def)
  then have "system_disk e m = abs_path cs @ ''/system.qcow2''"
    using path_join_abs [of cs "[''system.qcow2'']"] state_compsD [of cs]
    by (simp add: system_disk_def plain_comp_def) (simp add: abs_path_def join_append)
  then have "below (dir_of e m) (system_disk e m)" using cs by (auto simp: below_def has_prefix_iff)
  with destroy_swept [OF d] show ?thesis by (simp add: hvf_state_def)
qed


lemma halt_keeps_absent:
  assumes "hvf_owns e m" "hvf_state e m w = Absent" "halt e pid dir w = (r, w', tr)"
  shows "hvf_state e m w' = Absent"
  using assms keeps_there [OF halt_keeps [OF assms(3)] system_disk_suffix [OF assms(1)]]
  by (auto simp: hvf_state_def there_def split: if_splits)

lemma destroy_keeps_absent_hvf:
  assumes "hvf_owns e m" "hvf_state e m w = Absent" "Destroy_hvf e m w = (r, w', tr)"
  shows "hvf_state e m w' = Absent"
proof -
  let ?dir = "dir_of e m"
  obtain w1 t1 where tpm: "destroy_swtpm e ?dir w = (w1, t1)" by fastforce
  obtain h w2 t2 where halt: "halt e (readPid e w1 ?dir) ?dir w1 = (h, w2, t2)" by (metis prod_cases3)
  have "keeps_files w w1"
    using tpm signal_keeps keeps_refl by (auto simp: destroy_swtpm_def Let_def split: option.splits if_splits prod.splits)
  then have "hvf_state e m w1 = Absent"
    using assms(1,2) keeps_there [OF _ system_disk_suffix [OF assms(1)]]
    by (auto simp: hvf_state_def there_def split: if_splits)
  then have w2: "hvf_state e m w2 = Absent" using halt_keeps_absent [OF assms(1) _ halt] by blast
  have "w' = w2 \<or> r = None \<or> w' = snd (remove_all e w2 ?dir)"
    using assms(1,3) tpm halt
    by (auto simp: Destroy_hvf_def hvf_owns_def destroy_def Let_def split: if_splits option.splits prod.splits)
  moreover have "hvf_state e m (snd (remove_all e w2 ?dir)) = Absent"
    using w2 by (auto simp: hvf_state_def remove_all_def split: if_splits)
  ultimately show ?thesis using w2 destroy_absent_hvf [OF assms(1)] assms(3) by auto
qed

lemma observe_truth_hvf:
  "hvf_owns e m \<Longrightarrow> Observe_hvf e m w = Inr (s, st) \<Longrightarrow> s = hvf_state e m w"
  by (auto simp: Observe_hvf_def hvf_state_def hvf_owns_def system_disk_def stat_def Let_def split: if_splits)

end

sublocale qemu_host \<subseteq> hvf: driver_contract "hvf_driver e" "hvf_state e" "hvf_owns e"
proof
  fix m w s st
  show "hvf_owns e m \<Longrightarrow> Observe (hvf_driver e) m w = Inr (s, st) \<Longrightarrow> s = hvf_state e m w"
    by (simp add: hvf_driver_def observe_truth_hvf)
next
  fix m w w'
  assume "hvf_owns e m" "Create (hvf_driver e) m w = (None, w')"
  then show "hvf_state e m w' = Running"
    by (cases "Create_hvf e m w") (auto simp: hvf_driver_def create_running_hvf)
next
  fix m w w'
  assume "hvf_owns e m" "hvf_state e m w = Running" "Stop (hvf_driver e) m w = (None, w')"
  then show "hvf_state e m w' = Stopped"
    by (cases "Stop_hvf e m w") (auto simp: hvf_driver_def intro: stop_stopped_hvf)
next
  fix m w w'
  assume "hvf_owns e m" "Destroy (hvf_driver e) m w = (None, w')"
  then show "hvf_state e m w' = Absent"
    by (cases "Destroy_hvf e m w") (auto simp: hvf_driver_def intro: destroy_absent_hvf)
next
  fix m w
  assume "hvf_owns e m" "hvf_state e m w = Absent"
  then show "hvf_state e m (snd (Destroy (hvf_driver e) m w)) = Absent"
    by (cases "Destroy_hvf e m w") (auto simp: hvf_driver_def intro: destroy_keeps_absent_hvf)
qed

context qemu_host
begin

lemma is_driver: "driver_contract (hvf_driver e) (hvf_state e) (hvf_owns e)"
  by (rule hvf.driver_contract_axioms)

end

subsection \<open>An environment that meets the assumptions\<close>

fun pidfiles :: "string list \<Rightarrow> string list" where
  "pidfiles (a # b # xs) = (if a = ''-pidfile'' then [b] else []) @ pidfiles (b # xs)"
| "pidfiles xs = []"

definition ideal_env :: env where
  "ideal_env = quiet_env\<lparr>e_qemu := (\<lambda>b as w.
     if list_all (\<lambda>q. has_suffix q ''/qemu.pid'') (pidfiles as)
     then (None, w\<lparr>hw_files := (\<lambda>q. if q \<in> set (pidfiles as) then Some ''42'' else hw_files w q),
                    hw_procs := (hw_procs w)(42 \<mapsto> argv_bytes (b # as))\<rparr>)
     else (Some ''pid file'', w))\<rparr>"

lemma pidfiles_pair: "pf \<in> set (pidfiles (pre @ ''-pidfile'' # pf # post))"
  by (induction pre rule: pidfiles.induct) (auto simp: neq_Nil_conv)

lemma ideal_socket: "\<not> has_suffix (swtpmSocketPath ideal_env d) ''/system.qcow2''"
  by (simp add: swtpmSocketPath_def ideal_env_def quiet_env_def zero_digest_def hex_def hex_digit_def path_join_def
      clean_def clean_comps_def has_suffix_def Let_def) code_simp

interpretation ideal: qemu_host ideal_env
proof
  show "e_goos ideal_env = ''linux''" by (simp add: ideal_env_def quiet_env_def)
  show "keeps_files w (e_signal ideal_env pid sg w)" "keeps_files w (e_tick ideal_env w)"
    "keeps_files w (snd (e_shutdown ideal_env c ep w))" for w pid sg c ep
    by (auto simp: ideal_env_def quiet_env_def keeps_files_def)
  show "\<not> has_suffix (swtpmSocketPath ideal_env d) ''/system.qcow2''" for d by (rule ideal_socket)
next
  fix b as w w'
  assume q: "e_qemu ideal_env b as w = (None, w')"
  have "atoi (trim_space ''42'') = (42, True)"
    by (simp add: trim_space_visible visible_def atoi_def atoi_digits_def ascii_digit_def digit_val_def)
  with q pidfiles_pair show "(\<forall>pre pf post. as = pre @ ''-pidfile'' # pf # post \<longrightarrow>
             (\<exists>c pid. hw_files w' pf = Some c \<and> atoi (trim_space c) = (pid, True) \<and> 0 < pid
                \<and> hw_procs w' pid = Some (argv_bytes (b # as))))
          \<and> (\<forall>q. hw_files w q \<noteq> None \<longrightarrow> hw_files w' q \<noteq> None) \<and> set (hw_dirs w) \<subseteq> set (hw_dirs w')"
    by (auto simp: ideal_env_def split: if_splits)
qed (auto simp: ideal_env_def quiet_env_def)

subsection \<open>The loop drives virtual machines\<close>


text \<open>
  Deleting never leaks: from a fresh object with nothing behind it, whatever ticks, failures,
  deletion requests and crashes follow, once the API server has removed the object the host has no
  system disk for it any more.
\<close>

theorem hvf_no_leak:
  assumes "qemu_host e" "hvf_owns e (r_obj s)" "r_present s" "r_finalizers s = []" "hvf_state e (r_obj s) (ext s) = Absent"
    and "\<And>m w w'. hvf_owns e m \<Longrightarrow> crash w w' \<Longrightarrow> hvf_state e m w = Absent \<Longrightarrow> hvf_state e m w' = Absent"
    and "(sys_step (hvf_driver e) crash f)\<^sup>*\<^sup>* s s'" "\<not> r_present s'"
  shows "hvf_state e (r_obj s') (ext s') = Absent"
proof -
  have c: "driver_contract (hvf_driver e) (hvf_state e) (hvf_owns e)"
    using assms(1) by (rule qemu_host.is_driver)
  have "driver_contract.gc_inv (hvf_state e) (hvf_owns e) f s"
    using assms(2-5) by (simp add: driver_contract.gc_inv_def [OF c])
  then have "driver_contract.gc_inv (hvf_state e) (hvf_owns e) f s'"
    using driver_contract.reachable_gc [OF c assms(7)] assms(6) by blast
  with assms(8) show ?thesis by (simp add: driver_contract.gc_inv_def [OF c])
qed

text \<open>A running machine of site \<^verbatim>\<open>lab\<close>, and the object that names it.\<close>

definition lab_vm :: obj where
  "lab_vm = [(''metadata'', VMap [(''name'', VStr ''m''), (''uid'', VStr ''u'')]), (''spec'', VMap [(''site'', VStr ''lab''), (''image'', VStr ''talos.iso'')])]"

definition lab_sys :: "hostw sys" where
  "lab_sys = \<lparr>r_obj = lab_vm, r_deleting = False, r_finalizers = [''f''], r_generation = 1, r_status = None,
     r_present = True, ext = running_host\<rparr>"

lemma lab_dir: "dir_of ideal_env lab_vm = ''/s/lab/u''"
  by (simp add: dir_of_def machine_dir_def lab_vm_def ideal_env_def quiet_env_def nested_string_def GetUID_def path_join_def
      clean_def clean_comps_def)

lemma lab_observe: "\<exists>st. Observe_hvf ideal_env lab_vm running_host = Inr (Running, st)"
proof -
  have "readPid ideal_env running_host ''/s/lab/u'' = 42"
    by (simp add: readPid_def read_file_def ideal_env_def quiet_env_def running_host_def path_join_def clean_def clean_comps_def
        trim_space_visible visible_def atoi_def atoi_digits_def ascii_digit_def digit_val_def)
  moreover have "matches ideal_env running_host 42 ''/s/lab/u''"
    using running_matches by (simp add: matches_def procs_of_def ideal_env_def)
  moreover have "stat ideal_env running_host (path_join [''/s/lab/u'', ''system.qcow2'']) = Present"
    by (simp add: stat_def ideal_env_def quiet_env_def running_host_def path_join_def clean_def clean_comps_def)
  moreover have "\<not> isBaremetal lab_vm" by (simp add: isBaremetal_iff lab_vm_def)
  ultimately show ?thesis by (simp add: Observe_hvf_def lab_dir)
qed

lemma running_no_nul: "CHR 0x00 \<notin> set ''/s/lab/u''" by simp

lemma lab_owns: "hvf_owns ideal_env lab_vm"
proof -
  have "abs_path [''s'', ''lab'', ''u''] = ''/s/lab/u''" by (simp add: abs_path_def)
  moreover have "state_comps [''s'', ''lab'', ''u'']" by (simp add: state_comps_def plain_comp_def)
  moreover have "\<not> isBaremetal lab_vm" by (simp add: isBaremetal_iff lab_vm_def)
  ultimately show ?thesis unfolding hvf_owns_def lab_dir by (metis (no_types) running_no_nul)
qed


definition fresh_sys :: "hostw sys" where
  "fresh_sys = \<lparr>r_obj = lab_vm, r_deleting = True, r_finalizers = [], r_generation = 1, r_status = None, r_present = True,
     ext = running_host\<lparr>hw_files := Map.empty\<rparr>\<rparr>"

theorem hvf_no_leak_witness:
  "hvf_state ideal_env lab_vm (running_host\<lparr>hw_files := Map.empty\<rparr>) = Absent"
proof -
  have "sys_step (hvf_driver ideal_env) (\<lambda>_ _. False) ''f'' fresh_sys (fresh_sys\<lparr>r_present := False\<rparr>)"
    by (rule removed) (simp_all add: fresh_sys_def)
  then have "(sys_step (hvf_driver ideal_env) (\<lambda>_ _. False) ''f'')\<^sup>*\<^sup>* fresh_sys (fresh_sys\<lparr>r_present := False\<rparr>)" by blast
  moreover have "hvf_state ideal_env lab_vm (running_host\<lparr>hw_files := Map.empty\<rparr>) = Absent"
    by (simp add: hvf_state_def system_disk_def lab_dir running_host_def path_join_def clean_def clean_comps_def)
  ultimately show ?thesis
    using hvf_no_leak [OF ideal.qemu_host_axioms, of fresh_sys "\<lambda>_ _. False" "''f''" "fresh_sys\<lparr>r_present := False\<rparr>"] lab_owns
    by (simp add: fresh_sys_def)
qed

subsection \<open>A machine that is created\<close>

text \<open>A host with an image and firmware, and with what is at the place of the system disk of the machine.\<close>

definition stocked_host :: "bytes option \<Rightarrow> hostw" where
  "stocked_host disk = \<lparr>hw_files = [''/i/talos.iso'' \<mapsto> ''iso'', ''/fw/vars.fd'' \<mapsto> ''vars''](''/s/lab/u/system.qcow2'' := disk),
     hw_dirs = [''/s''], hw_procs = Map.empty, hw_cancelled = False\<rparr>"

lemma lab_spec: "nested_map lab_vm [''spec''] = [(''site'', VStr ''lab''), (''image'', VStr ''talos.iso'')]"
  "specClusterNetwork p s lab_vm = Inr None"
  by (simp_all add: nested_map_def specClusterNetwork_def lab_vm_def)

lemma lab_state_file: "plain_comp x \<Longrightarrow> path_join [''/s/lab/u'', x] = ''/s/lab/u/'' @ x"
  using path_join_abs [of "[''s'', ''lab'', ''u'']" "[x]"] by (simp add: plain_comp_def abs_path_def)

lemma lab_site: "checkSite (site_view_of ideal_env (stocked_host disk)) (e_stateRoot ideal_env) (e_pod ideal_env) (e_svc ideal_env) lab_vm = None"
proof -
  have "siteMachines (site_view_of ideal_env (stocked_host disk)) (e_stateRoot ideal_env) (nested_string lab_vm [''spec'', ''site'']) d = Inr []" for d
    by (simp add: siteMachines_def site_view_of_def stocked_host_def ideal_env_def quiet_env_def nested_string_def lab_vm_def
        below_def has_prefix_def path_join_def clean_def clean_comps_def)
  then show ?thesis by (simp add: checkSite_def lab_spec)
qed

definition lab_boot :: "string \<Rightarrow> string \<Rightarrow> string \<Rightarrow> boot_input" where
  "lab_boot img fw vars = \<lparr>bi_dir = ''/s/lab/u'', bi_image = img, bi_fwCode = fw, bi_varsPath = vars, bi_dataPath = [], bi_extraPaths = [],
     bi_tpmSocket = [], bi_network = None\<rparr>"

lemma lab_pidfiles:
  "pidfiles (qemu_argv ideal_env lab_platform lab_vm (nested_map lab_vm [''spec'']) (lab_boot img fw vars)) = [''/s/lab/u/qemu.pid'']"
proof -
  have "length (machineUUID (e_sha256 ideal_env) (GetName lab_vm)) = 36"
    using machineUUID_v4 by (simp add: ideal_env_def quiet_env_def zero_digest_def)
  then have uuid: "machineUUID (e_sha256 ideal_env) (GetName lab_vm) \<noteq> ''-pidfile''" by auto
  have sizes: "itoa (specCPU (nested_map lab_vm [''spec''])) = ''2''" "itoa (toMB ''2Gi'') = ''2048''"
    by (simp_all add: lab_spec specCPU_def toInt_def field_def itoa_def dec_eval toMB_def trim_space_visible visible_def trim_right_set_def
        has_suffix_def atoi_def atoi_digits_def ascii_digit_def digit_val_def int64_def)
  have memory: "str (field [(''site'', VStr ''lab''), (''image'', VStr ''talos.iso'')] ''memory'') ''2Gi'' = ''2Gi''" by (simp add: field_def str_def)
  show ?thesis
    using uuid unfolding qemu_argv_def lab_spec memory sizes [unfolded lab_spec]
    by (simp add: specSecureBoot_def field_def netdev_arg_def userNICDevice_def clusterNICArgs_def lab_platform_def lab_boot_def
        lab_state_file plain_comp_def)
qed

lemma lab_qemu:
  "e_qemu ideal_env b (qemu_argv ideal_env lab_platform lab_vm (nested_map lab_vm [''spec'']) (lab_boot img fw vars)) w =
     (None, w\<lparr>hw_files := (hw_files w)(''/s/lab/u/qemu.pid'' \<mapsto> ''42''),
        hw_procs := (hw_procs w)(42 \<mapsto> argv_bytes (b # qemu_argv ideal_env lab_platform lab_vm (nested_map lab_vm [''spec'']) (lab_boot img fw vars)))\<rparr>)"
proof -
  have "pidfiles as = [pf] \<Longrightarrow> has_suffix pf ''/qemu.pid'' \<Longrightarrow>
     e_qemu ideal_env b as w = (None, w\<lparr>hw_files := (hw_files w)(pf \<mapsto> ''42''), hw_procs := (hw_procs w)(42 \<mapsto> argv_bytes (b # as))\<rparr>)" for as pf
    by (simp add: ideal_env_def fun_upd_def)
  from this [OF lab_pidfiles] show ?thesis by (simp add: has_suffix_def)
qed

lemma lab_created:
  "\<exists>w. Create_hvf ideal_env lab_vm (stocked_host disk) = (None, w) \<and> \<not> hw_cancelled w
     \<and> hw_files w ''/s/lab/u/system.qcow2'' = Some (case disk of None \<Rightarrow> '''' | Some b \<Rightarrow> b)"
proof -
  have env: "e_detect ideal_env = Inr lab_platform" "e_io_fail ideal_env p = False" "e_imageRoot ideal_env = ''/i''" "e_marshal ideal_env m = []"
    "e_qemu_img ideal_env p s w = (None, w\<lparr>hw_files := (hw_files w)(p \<mapsto> [])\<rparr>)" for p s w m
    by (simp_all add: ideal_env_def quiet_env_def)
  have paths: "path_join [''/i'', ''talos.iso''] = ''/i/talos.iso''" "FirmwareVars lab_platform = ''/fw/vars.fd''"
    by (simp_all add: path_join_def clean_def clean_comps_def lab_platform_def)
  have "\<exists>w. create ideal_env lab_vm ''/s/lab/u'' (stocked_host disk) = (Inr 42, w) \<and> \<not> hw_cancelled w
     \<and> hw_files w ''/s/lab/u/system.qcow2'' = Some (case disk of None \<Rightarrow> '''' | Some b \<Rightarrow> b)"
    unfolding create_def Let_def env lab_site lab_spec
    by (cases disk)
      (simp_all add: mkdir_all_def env writeMachineRecord_def write_file_def machineRecordName_def plain_comp_def resolveImage_def field_def
        is_abs_def has_prefix_def paths stat_def stocked_host_def create_prepared_def prepare_disks_def ensureQcow2_def specDataDisk_def
        specExtraDisks_def specTPM_def prepare_firmware_def specSecureBoot_def ensureEFIVars_def read_file_def launch_def lab_spec
        lab_qemu [unfolded lab_spec lab_boot_def] str_def Let_def lab_state_file trim_space_visible visible_def atoi_def atoi_digits_def
        ascii_digit_def digit_val_def)
  moreover have "\<not> isBaremetal lab_vm" by (simp add: isBaremetal_iff lab_vm_def)
  ultimately show ?thesis by (auto simp: Create_hvf_def lab_dir)
qed

text \<open>Starting a stopped machine over an installed disk, on a host where qemu-img would wipe that disk.\<close>

theorem Create_spares_disks_witness:
  "\<exists>w. Create_hvf (with_img ideal_env ''/s/lab/u/system.qcow2'' (\<lambda>_ v. (None, v\<lparr>hw_files := Map.empty\<rparr>))) lab_vm (stocked_host (Some ''installed'')) = (None, w)
     \<and> hw_files w ''/s/lab/u/system.qcow2'' = Some ''installed''"
proof -
  have leaves: "img_leaves ideal_env p" for p by (simp add: img_leaves_def ideal_env_def quiet_env_def)
  have there: "hw_files (stocked_host (Some ''installed'')) ''/s/lab/u/system.qcow2'' = Some ''installed''" by (simp add: stocked_host_def)
  show ?thesis
    using lab_created [of "Some ''installed''"] unfolding Create_spares_disks [OF there leaves, THEN conjunct1] option.case by blast
qed

end
