(* ===== verification/Cluster_Client.thy ===== *)
theory Cluster_Client
  imports Cluster_Identity
begin

section \<open>Waiting for a node\<close>

text \<open>
  \<^verbatim>\<open>cluster/client.go\<close>: the two Talos clients, the polling loop behind every wait of a bring-up, the
  waits themselves and the two readers of a kubeconfig. The machinery's client and client-go are a
  record of the calls the code makes; each call takes the world and returns it, so a wait can be
  read as the sequence of its attempts. Times are milliseconds.
\<close>

subsection \<open>Errors\<close>

datatype code = AlreadyExists | FailedPrecondition | Unavailable | Other_code

datatype cause = Deadline_exceeded | Canceled

datatype client_error =
  No_endpoint
| Secret_parse string
| Dial_failed string
| Rpc string code string
| Wrong_stage string
| Kube_client string
| Kube_call string string
| No_nodes
| Node_not_ready string
| No_node_at string
| Gave_up string cause client_error
| No_current_context nat
| Undefined_cluster string
| No_server_address
| Reencoding_failed

text \<open>\<^verbatim>\<open>client.StatusCode\<close>: only an RPC error carries a code, and a give-up quotes its last attempt as text.\<close>

definition StatusCode :: "client_error \<Rightarrow> code" where
  "StatusCode err = (case err of Rpc _ c _ \<Rightarrow> c | _ \<Rightarrow> Other_code)"

subsection \<open>The polling loop\<close>

text \<open>
  The clock a wait sees: the time, whether the caller's context is cancelled, that context's own
  deadline, the \<^verbatim>\<open>select\<close> between the context and the next tick (the flag is True when the
  context's branch was taken) and the wait for the context alone.
\<close>

record 'w clock =
  c_now :: "'w \<Rightarrow> nat"
  c_cancelled :: "'w \<Rightarrow> bool"
  c_parent :: "nat option"
  c_select :: "nat \<Rightarrow> 'w \<Rightarrow> bool \<times> 'w"
  c_done :: "nat \<Rightarrow> 'w \<Rightarrow> 'w"

datatype 'a probe_result = Answered 'a | Retry client_error | stopWaiting client_error

type_synonym ('w, 'a) probe = "nat \<Rightarrow> 'w \<Rightarrow> 'a probe_result \<times> 'w"

definition probeInterval :: nat where "probeInterval = 1000"

definition probeAttempt :: nat where "probeAttempt = 10000"

definition ctx_cause :: "'w clock \<Rightarrow> 'w \<Rightarrow> cause" where
  "ctx_cause c w = (if c_cancelled c w then Canceled else Deadline_exceeded)"

definition ctx_err :: "'w clock \<Rightarrow> nat \<Rightarrow> 'w \<Rightarrow> bool" where
  "ctx_err c deadline w = (c_cancelled c w \<or> deadline \<le> c_now c w)"

text \<open>
  A ticker drops what nobody reads: after a tick is taken at a time past \<open>next\<close>, the following one
  is the first multiple of the interval that is still to come.
\<close>

definition next_tick :: "nat \<Rightarrow> nat \<Rightarrow> nat" where
  "next_tick next now = next + ((now - next) div probeInterval + 1) * probeInterval"

text \<open>
  The loop of \<open>waitFor\<close>. An attempt gets ten seconds, or what is left of the budget. The value of the
  attempt that succeeded is what the code's probe leaves in the variable it captures. The result
  comes with the log of what the attempts answered.
\<close>

function waitFor_loop ::
  "'w clock \<Rightarrow> string \<Rightarrow> ('w, 'a) probe \<Rightarrow> nat \<Rightarrow> nat \<Rightarrow> client_error option \<Rightarrow> 'w
    \<Rightarrow> (client_error + 'a) \<times> 'w \<times> 'a probe_result list" where
  "waitFor_loop c what probe deadline next prev w =
     (case probe (min (c_now c w + probeAttempt) deadline) w of
        (Answered x, w1) \<Rightarrow> (Inr x, w1, [Answered x])
      | (stopWaiting err, w1) \<Rightarrow> (Inl err, w1, [stopWaiting err])
      | (Retry err, w1) \<Rightarrow>
          let last1 = (if prev = None \<or> \<not> ctx_err c deadline w1 then err else the prev) in
          if deadline < c_now c w1 + 2 * probeInterval then
            let w2 = c_done c deadline w1 in (Inl (Gave_up what (ctx_cause c w2) last1), w2, [Retry err])
          else
            case c_select c next w1 of (done, w2) \<Rightarrow>
              if done \<or> deadline \<le> next then (Inl (Gave_up what (ctx_cause c w2) last1), w2, [Retry err])
              else case waitFor_loop c what probe deadline (next_tick next (c_now c w2)) (Some last1) w2 of
                  (r, w3, log) \<Rightarrow> (r, w3, Retry err # log))"
  by pat_completeness auto

termination
  by (relation "measure (\<lambda>(c, what, probe, deadline, next, prev, w). deadline - next)")
    (auto simp: next_tick_def probeInterval_def)

declare waitFor_loop.simps [simp del]

definition wait_deadline :: "'w clock \<Rightarrow> nat \<Rightarrow> 'w \<Rightarrow> nat" where
  "wait_deadline c timeout w =
     (case c_parent c of None \<Rightarrow> c_now c w + timeout | Some d \<Rightarrow> min d (c_now c w + timeout))"

definition waitFor ::
  "'w clock \<Rightarrow> nat \<Rightarrow> string \<Rightarrow> ('w, 'a) probe \<Rightarrow> 'w \<Rightarrow> (client_error + 'a) \<times> 'w \<times> 'a probe_result list" where
  "waitFor c timeout what probe w =
     waitFor_loop c what probe (wait_deadline c timeout w) (c_now c w + probeInterval) None w"


text \<open>\<open>run_wait\<close> forgets the log, as the callers do.\<close>

definition run_wait :: "'w clock \<Rightarrow> nat \<Rightarrow> string \<Rightarrow> ('w, 'a) probe \<Rightarrow> 'w \<Rightarrow> (client_error + 'a) \<times> 'w" where
  "run_wait c timeout what probe w = (case waitFor c timeout what probe w of (r, w', log) \<Rightarrow> (r, w'))"

subsection \<open>The clients\<close>

datatype credential = Insecure | Cluster_PKI bytes

datatype apply_mode = Apply_reboot | Apply_auto

record node =
  node_name :: string
  node_conditions :: "(string \<times> string) list"
  node_addresses :: "(string \<times> string) list"

text \<open>A kubeconfig, as \<^verbatim>\<open>clientcmd.Load\<close> reads it: contexts name clusters, clusters have a server and the rest.\<close>

record kube_config =
  kc_current :: string
  kc_contexts :: "(string \<times> string) list"
  kc_clusters :: "(string \<times> string \<times> bytes) list"
  kc_users :: bytes

type_synonym rpc_failure = "code \<times> string"

record 'w talos_api =
  tl_clock :: "'w clock"
  tl_new :: "credential \<Rightarrow> string \<Rightarrow> string option"
  tl_parse :: "bytes \<Rightarrow> bool"
  tl_version :: "credential \<Rightarrow> string \<Rightarrow> nat \<Rightarrow> 'w \<Rightarrow> (rpc_failure + string list) \<times> 'w"
  tl_stage :: "credential \<Rightarrow> string \<Rightarrow> nat \<Rightarrow> 'w \<Rightarrow> (rpc_failure + string) \<times> 'w"
  tl_apply :: "credential \<Rightarrow> string \<Rightarrow> apply_mode \<Rightarrow> bytes \<Rightarrow> 'w \<Rightarrow> rpc_failure option \<times> 'w"
  tl_bootstrap :: "credential \<Rightarrow> string \<Rightarrow> nat \<Rightarrow> 'w \<Rightarrow> rpc_failure option \<times> 'w"
  tl_kubeconfig :: "credential \<Rightarrow> string \<Rightarrow> nat \<Rightarrow> 'w \<Rightarrow> (rpc_failure + bytes) \<times> 'w"
  kb_parse :: "bytes \<Rightarrow> bool"
  kb_new :: "bytes \<Rightarrow> string option"
  kb_nodes :: "bytes \<Rightarrow> nat \<Rightarrow> 'w \<Rightarrow> (string + node list) \<times> 'w"
  kb_load :: "bytes \<Rightarrow> kube_config option"
  kb_write :: "kube_config \<Rightarrow> bytes option"

definition MaintenanceClient :: "'w talos_api \<Rightarrow> string \<Rightarrow> client_error + credential" where
  "MaintenanceClient api endpoint =
     (if endpoint = '''' then Inl No_endpoint
      else case tl_new api Insecure endpoint of
          Some err \<Rightarrow> Inl (Dial_failed err)
        | None \<Rightarrow> Inr Insecure)"

definition AuthenticatedClient :: "'w talos_api \<Rightarrow> bytes \<Rightarrow> string \<Rightarrow> client_error + credential" where
  "AuthenticatedClient api talosconfig endpoint =
     (if endpoint = '''' then Inl No_endpoint
      else if \<not> tl_parse api talosconfig then Inl (Secret_parse ''talosconfig'')
      else case tl_new api (Cluster_PKI talosconfig) endpoint of
          Some err \<Rightarrow> Inl (Dial_failed err)
        | None \<Rightarrow> Inr (Cluster_PKI talosconfig))"

definition rpc_error :: "string \<Rightarrow> rpc_failure \<Rightarrow> client_error" where
  "rpc_error context f = Rpc context (fst f) (snd f)"

subsection \<open>The waits\<close>

definition version_probe :: "'w talos_api \<Rightarrow> credential \<Rightarrow> string \<Rightarrow> ('w, unit) probe" where
  "version_probe api cred endpoint d w =
     (case tl_version api cred endpoint d w of
        (Inl f, w1) \<Rightarrow> (Retry (rpc_error '''' f), w1)
      | (Inr _, w1) \<Rightarrow> (Answered (), w1))"

definition WaitMaintenance :: "'w talos_api \<Rightarrow> string \<Rightarrow> nat \<Rightarrow> 'w \<Rightarrow> (client_error + unit) \<times> 'w" where
  "WaitMaintenance api endpoint timeout w =
     (case MaintenanceClient api endpoint of
        Inl err \<Rightarrow> (Inl err, w)
      | Inr cred \<Rightarrow> run_wait (tl_clock api) timeout (''the Talos maintenance API at '' @ endpoint) (version_probe api cred endpoint) w)"

definition WaitAPI :: "'w talos_api \<Rightarrow> bytes \<Rightarrow> string \<Rightarrow> nat \<Rightarrow> 'w \<Rightarrow> (client_error + unit) \<times> 'w" where
  "WaitAPI api talosconfig endpoint timeout w =
     (case AuthenticatedClient api talosconfig endpoint of
        Inl err \<Rightarrow> (Inl err, w)
      | Inr cred \<Rightarrow> run_wait (tl_clock api) timeout (''the authenticated Talos API at '' @ endpoint) (version_probe api cred endpoint) w)"

definition checkBootstrapStage :: "string \<Rightarrow> client_error option" where
  "checkBootstrapStage stage = (if stage = ''booting'' \<or> stage = ''running'' then None else Some (Wrong_stage stage))"

definition stage_probe :: "'w talos_api \<Rightarrow> credential \<Rightarrow> string \<Rightarrow> ('w, unit) probe" where
  "stage_probe api cred endpoint d w =
     (case tl_stage api cred endpoint d w of
        (Inl f, w1) \<Rightarrow> (Retry (rpc_error '''' f), w1)
      | (Inr stage, w1) \<Rightarrow>
          (case checkBootstrapStage stage of None \<Rightarrow> (Answered (), w1) | Some err \<Rightarrow> (Retry err, w1)))"

definition WaitBootstrapReady :: "'w talos_api \<Rightarrow> bytes \<Rightarrow> string \<Rightarrow> nat \<Rightarrow> 'w \<Rightarrow> (client_error + unit) \<times> 'w" where
  "WaitBootstrapReady api talosconfig endpoint timeout w =
     (case AuthenticatedClient api talosconfig endpoint of
        Inl err \<Rightarrow> (Inl err, w)
      | Inr cred \<Rightarrow> run_wait (tl_clock api) timeout (''the installed system to boot at '' @ endpoint) (stage_probe api cred endpoint) w)"

definition TalosAPIAnswers :: "'w talos_api \<Rightarrow> bytes \<Rightarrow> string \<Rightarrow> nat \<Rightarrow> 'w \<Rightarrow> client_error option \<times> 'w" where
  "TalosAPIAnswers api talosconfig endpoint timeout w =
     (case AuthenticatedClient api talosconfig endpoint of
        Inl err \<Rightarrow> (Some err, w)
      | Inr cred \<Rightarrow>
          (case tl_stage api cred endpoint (wait_deadline (tl_clock api) timeout w) w of
             (Inl f, w1) \<Rightarrow> (Some (rpc_error (''the Talos API at '' @ endpoint @ '' did not answer'') f), w1)
           | (Inr stage, w1) \<Rightarrow> (checkBootstrapStage stage, w1)))"

subsection \<open>Kubernetes\<close>

definition KubeAPIAnswers :: "'w talos_api \<Rightarrow> bytes \<Rightarrow> nat \<Rightarrow> 'w \<Rightarrow> client_error option \<times> 'w" where
  "KubeAPIAnswers api kubeconfig timeout w =
     (if \<not> kb_parse api kubeconfig then (Some (Secret_parse ''kubeconfig''), w)
      else case kb_new api kubeconfig of
          Some err \<Rightarrow> (Some (Kube_client err), w)
        | None \<Rightarrow>
            (case kb_nodes api kubeconfig (wait_deadline (tl_clock api) timeout w) w of
               (Inl err, w1) \<Rightarrow> (Some (Kube_call ''the Kubernetes API did not answer'' err), w1)
             | (Inr _, w1) \<Rightarrow> (None, w1)))"

fun nodeIsReady_loop :: "(string \<times> string) list \<Rightarrow> bool" where
  "nodeIsReady_loop [] = False"
| "nodeIsReady_loop ((ty, status) # cs) = (if ty = ''Ready'' then status = ''True'' else nodeIsReady_loop cs)"

definition nodeIsReady :: "node \<Rightarrow> bool" where
  "nodeIsReady n = nodeIsReady_loop (node_conditions n)"

definition nodeHasAddress :: "node \<Rightarrow> string \<Rightarrow> bool" where
  "nodeHasAddress n addr = (addr \<in> snd ` set (node_addresses n))"

definition all_ready_probe :: "'w talos_api \<Rightarrow> bytes \<Rightarrow> ('w, unit) probe" where
  "all_ready_probe api kubeconfig d w =
     (case kb_nodes api kubeconfig d w of
        (Inl err, w1) \<Rightarrow> (Retry (Kube_call '''' err), w1)
      | (Inr items, w1) \<Rightarrow>
          if items = [] then (Retry No_nodes, w1)
          else case find (\<lambda>n. \<not> nodeIsReady n) items of
              Some n \<Rightarrow> (Retry (Node_not_ready (node_name n)), w1)
            | None \<Rightarrow> (Answered (), w1))"

definition ready_at_probe :: "'w talos_api \<Rightarrow> bytes \<Rightarrow> string \<Rightarrow> ('w, unit) probe" where
  "ready_at_probe api kubeconfig addr d w =
     (case kb_nodes api kubeconfig d w of
        (Inl err, w1) \<Rightarrow> (Retry (Kube_call '''' err), w1)
      | (Inr items, w1) \<Rightarrow>
          (case find (\<lambda>n. nodeHasAddress n addr) items of
             None \<Rightarrow> (Retry (No_node_at addr), w1)
           | Some n \<Rightarrow> (if nodeIsReady n then Answered () else Retry (Node_not_ready (node_name n)), w1)))"

definition kube_wait :: "'w talos_api \<Rightarrow> bytes \<Rightarrow> nat \<Rightarrow> string \<Rightarrow> ('w, unit) probe \<Rightarrow> 'w \<Rightarrow> (client_error + unit) \<times> 'w" where
  "kube_wait api kubeconfig timeout what probe w =
     (if \<not> kb_parse api kubeconfig then (Inl (Secret_parse ''kubeconfig''), w)
      else case kb_new api kubeconfig of
          Some err \<Rightarrow> (Inl (Kube_client err), w)
        | None \<Rightarrow> run_wait (tl_clock api) timeout what probe w)"

definition WaitNodeReady :: "'w talos_api \<Rightarrow> bytes \<Rightarrow> nat \<Rightarrow> 'w \<Rightarrow> (client_error + unit) \<times> 'w" where
  "WaitNodeReady api kubeconfig timeout w =
     kube_wait api kubeconfig timeout ''a Ready Kubernetes node'' (all_ready_probe api kubeconfig) w"

definition WaitNodeReadyAt :: "'w talos_api \<Rightarrow> bytes \<Rightarrow> string \<Rightarrow> nat \<Rightarrow> 'w \<Rightarrow> (client_error + unit) \<times> 'w" where
  "WaitNodeReadyAt api kubeconfig addr timeout w =
     kube_wait api kubeconfig timeout (''the node at '' @ addr @ '' to be Ready'') (ready_at_probe api kubeconfig addr) w"

text \<open>The current context's cluster entry, with the two errors of a kubeconfig that has none.\<close>

definition current_cluster :: "kube_config \<Rightarrow> client_error + string \<times> string \<times> bytes" where
  "current_cluster cfg =
     (case map_of (kc_contexts cfg) (kc_current cfg) of
        None \<Rightarrow> Inl (No_current_context (length (kc_clusters cfg)))
      | Some cluster \<Rightarrow>
          (case map_of (kc_clusters cfg) cluster of
             None \<Rightarrow> Inl (Undefined_cluster cluster)
           | Some e \<Rightarrow> Inr (cluster, e)))"

definition EndpointFromKubeconfig :: "'w talos_api \<Rightarrow> bytes \<Rightarrow> client_error + string" where
  "EndpointFromKubeconfig api kubeconfig =
     (case kb_load api kubeconfig of
        None \<Rightarrow> Inl (Secret_parse ''kubeconfig'')
      | Some cfg \<Rightarrow>
          and_then (current_cluster cfg) (\<lambda>(cluster, server, rest).
            if server = '''' then Inl No_server_address else Inr server))"

definition set_server :: "kube_config \<Rightarrow> string \<Rightarrow> string \<Rightarrow> kube_config" where
  "set_server cfg cluster server =
     cfg\<lparr>kc_clusters := map (\<lambda>(n, s, r). (n, if n = cluster then server else s, r)) (kc_clusters cfg)\<rparr>"

definition KubeconfigWithServer :: "'w talos_api \<Rightarrow> bytes \<Rightarrow> string \<Rightarrow> client_error + bytes" where
  "KubeconfigWithServer api kubeconfig server =
     (case kb_load api kubeconfig of
        None \<Rightarrow> Inl (Secret_parse ''kubeconfig'')
      | Some cfg \<Rightarrow>
          and_then (current_cluster cfg) (\<lambda>(cluster, _).
            case kb_write api (set_server cfg cluster server) of
              None \<Rightarrow> Inl Reencoding_failed
            | Some out \<Rightarrow> Inr out))"

subsection \<open>What a wait promises\<close>

definition retried :: "'a probe_result list \<Rightarrow> client_error set" where
  "retried log = {err. Retry err \<in> set log}"

text \<open>
  The reading of a log: every attempt but the last asked to be retried, and the result is what the
  last one said, a give-up quoting one of the errors seen.
\<close>

definition log_reads :: "string \<Rightarrow> client_error option \<Rightarrow> client_error + 'a \<Rightarrow> 'a probe_result list \<Rightarrow> bool" where
  "log_reads what prev r log =
     (log \<noteq> [] \<and> set (butlast log) \<subseteq> range Retry \<and>
      (case last log of
         Answered x \<Rightarrow> r = Inr x
       | stopWaiting err \<Rightarrow> r = Inl err
       | Retry _ \<Rightarrow> \<exists>cause err. r = Inl (Gave_up what cause err) \<and> (err \<in> retried log \<or> prev = Some err)))"

lemma log_reads_single:
  "log_reads what prev (Inr x) [Answered x]" "log_reads what prev (Inl err) [stopWaiting err]"
  "kept = err \<or> prev = Some kept \<Longrightarrow> log_reads what prev (Inl (Gave_up what cause kept)) [Retry err]"
  by (auto simp: log_reads_def retried_def)

lemma log_reads_Cons:
  assumes "log_reads what (Some kept) r log" "kept = err \<or> prev = Some kept"
  shows "log_reads what prev r (Retry err # log)"
  using assms by (auto simp: log_reads_def retried_def split: probe_result.splits)

lemma next_tick_later: "next + probeInterval \<le> next_tick next now"
  by (simp add: next_tick_def)

lemma waitFor_loop_log:
  assumes "waitFor_loop c what probe deadline next prev w = (r, w', log)"
  shows "log_reads what prev r log \<and> (length log = 1 \<or> next + (length log - 2) * probeInterval < deadline)"
  using assms
proof (induction c what probe deadline "next" prev w arbitrary: r w' log rule: waitFor_loop.induct)
  case (1 c what probe deadline "next" prev w)
  obtain p w1 where p: "probe (min (c_now c w + probeAttempt) deadline) w = (p, w1)" by force
  note eq = "1.prems" [unfolded waitFor_loop.simps [of c what probe deadline "next" prev w] p prod.case]
  show ?case
  proof (cases p)
    case (Retry err)
    define kept where "kept = (if prev = None \<or> \<not> ctx_err c deadline w1 then err else the prev)"
    have kept: "kept = err \<or> prev = Some kept" by (auto simp: kept_def)
    obtain fin w2 where s: "c_select c next w1 = (fin, w2)" by force
    show ?thesis
    proof (cases "deadline < c_now c w1 + 2 * probeInterval \<or> fin \<or> deadline \<le> next")
      case True
      then show ?thesis
        using eq Retry s log_reads_single(3) [OF kept]
        by (auto simp: kept_def [symmetric] Let_def split: if_splits)
    next
      case False
      obtain r3 w3 log3 where rec:
        "waitFor_loop c what probe deadline (next_tick next (c_now c w2)) (Some kept) w2 = (r3, w3, log3)"
        by (metis prod_cases3)
      with eq Retry s False have out: "r = r3" "log = Retry err # log3"
        by (auto simp: kept_def [symmetric] Let_def)
      have ih: "log_reads what (Some kept) r3 log3"
        "length log3 = 1 \<or> next_tick next (c_now c w2) + (length log3 - 2) * probeInterval < deadline"
        using "1.IH" [OF p [symmetric] Retry kept_def _ s [symmetric] _ rec] False by auto
      then have "log3 \<noteq> []" by (auto simp: log_reads_def)
      have "next + (length log - 2) * probeInterval < deadline"
      proof (cases "length log3 = 1")
        case False
        with ih(2) next_tick_later [of "next" "c_now c w2"] \<open>log3 \<noteq> []\<close>
        have "next + probeInterval + (length log3 - 2) * probeInterval < deadline" by linarith
        moreover have "length log - 2 = Suc (length log3 - 2)"
          using False \<open>log3 \<noteq> []\<close> out by (cases log3) (auto simp: Suc_diff_Suc)
        ultimately show ?thesis by simp
      qed (use False out in simp)
      with log_reads_Cons [OF ih(1) kept] out show ?thesis by simp
    qed
  qed (use eq log_reads_single in auto)
qed

text \<open>
  C24. A wait is honest about its attempts. It makes at least one, and no more than its budget holds
  ticks; it retries exactly the attempts that asked for it, stops at the first answer or the first
  permanent refusal and returns that unchanged, and gives up only after a retry, quoting an error
  that the node gave.
\<close>

theorem waitFor_log:
  assumes "waitFor c timeout what probe w = (r, w', log)"
  shows "log_reads what None r log \<and> (length log - 1) * probeInterval \<le> timeout"
proof -
  let ?d = "wait_deadline c timeout w"
  have d: "?d \<le> c_now c w + timeout" by (auto simp: wait_deadline_def split: option.split)
  have l: "log_reads what None r log"
    "length log = 1 \<or> c_now c w + probeInterval + (length log - 2) * probeInterval < ?d"
    using waitFor_loop_log [OF assms [unfolded waitFor_def]] by auto
  have "(length log - 1) * probeInterval \<le> timeout"
  proof (cases "length log = 1")
    case False
    moreover have "log \<noteq> []" using l(1) by (simp add: log_reads_def)
    ultimately have "length log - 1 = Suc (length log - 2)" by (cases log) (auto simp: Suc_diff_Suc)
    with l(2) False d show ?thesis by simp
  qed simp
  with l(1) show ?thesis by simp
qed

text \<open>What a caller learns from success: the last thing that happened was an attempt that answered.\<close>

lemma waitFor_loop_answered:
  assumes "waitFor_loop c what probe deadline next prev w = (Inr x, w', log)"
  shows "\<exists>d w1. probe d w1 = (Answered x, w')"
  using assms
proof (induction c what probe deadline "next" prev w arbitrary: log rule: waitFor_loop.induct)
  case (1 c what probe deadline "next" prev w)
  obtain p w1 where p: "probe (min (c_now c w + probeAttempt) deadline) w = (p, w1)" by force
  note eq = "1.prems" [unfolded waitFor_loop.simps [of c what probe deadline "next" prev w] p prod.case]
  show ?case
  proof (cases p)
    case (Retry err)
    obtain fin w2 where s: "c_select c next w1 = (fin, w2)" by force
    with eq Retry show ?thesis
      using "1.IH" [OF p [symmetric] Retry refl _ s [symmetric]]
      by (auto simp: Let_def split: if_splits prod.splits)
  qed (use eq p in auto)
qed

lemma run_wait_answered: "run_wait c timeout what probe w = (Inr x, w') \<Longrightarrow> \<exists>d w1. probe d w1 = (Answered x, w')"
  using waitFor_loop_answered by (fastforce simp: run_wait_def waitFor_def split: prod.splits)

lemma AuthenticatedClient_Inr: "AuthenticatedClient api tc ep = Inr cred \<Longrightarrow> cred = Cluster_PKI tc"
  by (auto simp: AuthenticatedClient_def split: if_splits option.splits)

text \<open>
  C19. The gate before a bootstrap opens only for the installed system: when \<open>WaitBootstrapReady\<close>
  succeeds, the last thing that happened is an answer of the node, over the cluster's own PKI,
  that its stage is booting or running, never maintenance, installing or rebooting.
\<close>

theorem WaitBootstrapReady_stage:
  assumes "WaitBootstrapReady api talosconfig endpoint timeout w = (Inr (), w')"
  shows "\<exists>d w1 stage. tl_stage api (Cluster_PKI talosconfig) endpoint d w1 = (Inr stage, w') \<and> stage \<in> {''booting'', ''running''}"
proof -
  from assms obtain d w1 where "stage_probe api (Cluster_PKI talosconfig) endpoint d w1 = (Answered (), w')"
    by (auto simp: WaitBootstrapReady_def dest!: run_wait_answered AuthenticatedClient_Inr split: sum.splits)
  then show ?thesis
    by (auto simp: stage_probe_def checkBootstrapStage_def split: prod.splits sum.splits if_splits)
qed

lemma nodeIsReady_iff: "nodeIsReady n \<longleftrightarrow> map_of (node_conditions n) ''Ready'' = Some ''True''"
proof -
  have "nodeIsReady_loop cs \<longleftrightarrow> map_of cs ''Ready'' = Some ''True''" for cs by (induction cs) auto
  then show ?thesis by (simp add: nodeIsReady_def)
qed

text \<open>
  The wait at the end of a join looks at the joining node: when \<open>WaitNodeReadyAt\<close> succeeds, the
  cluster has just listed a node with that address, and the first such node is Ready.
\<close>

theorem WaitNodeReadyAt_node:
  assumes "WaitNodeReadyAt api kubeconfig addr timeout w = (Inr (), w')"
  shows "\<exists>d w1 items n. kb_nodes api kubeconfig d w1 = (Inr items, w') \<and> find (\<lambda>n. addr \<in> snd ` set (node_addresses n)) items = Some n
    \<and> map_of (node_conditions n) ''Ready'' = Some ''True''"
proof -
  from assms obtain d w1 where "ready_at_probe api kubeconfig addr d w1 = (Answered (), w')"
    by (auto simp: WaitNodeReadyAt_def kube_wait_def dest!: run_wait_answered split: if_splits option.splits)
  then show ?thesis
    by (auto simp: ready_at_probe_def nodeHasAddress_def nodeIsReady_iff split: prod.splits sum.splits option.splits if_splits)
qed

lemma WaitNodeReady_all:
  assumes "WaitNodeReady api kubeconfig timeout w = (Inr (), w')"
  shows "\<exists>d w1 items. kb_nodes api kubeconfig d w1 = (Inr items, w') \<and> items \<noteq> [] \<and> (\<forall>n \<in> set items. nodeIsReady n)"
proof -
  from assms obtain d w1 where "all_ready_probe api kubeconfig d w1 = (Answered (), w')"
    by (auto simp: WaitNodeReady_def kube_wait_def dest!: run_wait_answered split: if_splits option.splits)
  then show ?thesis
    by (auto simp: all_ready_probe_def find_None_iff split: prod.splits sum.splits option.splits if_splits)
qed

lemma current_cluster_set_server:
  "current_cluster cfg = Inr (cluster, server, rest) \<Longrightarrow>
   current_cluster (set_server cfg cluster server') = Inr (cluster, server', rest)"
proof -
  have "map_of (map (\<lambda>(n, s, r). (n, if n = cl then sv else s, r)) xs) cl = map_option (\<lambda>(s, r). (sv, r)) (map_of xs cl)"
    for cl sv and xs :: "(string \<times> string \<times> bytes) list"
    by (induction xs) auto
  then show "current_cluster cfg = Inr (cluster, server, rest) \<Longrightarrow>
      current_cluster (set_server cfg cluster server') = Inr (cluster, server', rest)"
    by (auto simp: current_cluster_def set_server_def split: option.splits)
qed

text \<open>
  The kubeconfig a bring-up leaves behind dials the host's forward: whenever client-go reads back
  what it writes, the endpoint of the rewritten kubeconfig is the server it was given, and the
  users and the current context are the ones the node issued.
\<close>

theorem KubeconfigWithServer_endpoint:
  assumes "\<And>cfg out. kb_write api cfg = Some out \<Longrightarrow> kb_load api out = Some cfg"
    and "KubeconfigWithServer api kubeconfig server = Inr out" "server \<noteq> ''''"
  shows "EndpointFromKubeconfig api out = Inr server
    \<and> (\<exists>cfg cfg'. kb_load api kubeconfig = Some cfg \<and> kb_load api out = Some cfg' \<and> kc_users cfg' = kc_users cfg
         \<and> kc_current cfg' = kc_current cfg)"
proof -
  from assms(2) obtain cfg cluster s rest where
    c: "kb_load api kubeconfig = Some cfg" "current_cluster cfg = Inr (cluster, s, rest)"
      "kb_write api (set_server cfg cluster server) = Some out"
    by (auto simp: KubeconfigWithServer_def result_simps split: option.splits)
  with assms(1) have "kb_load api out = Some (set_server cfg cluster server)" by blast
  with c current_cluster_set_server [OF c(2), of server] assms(3) show ?thesis
    by (auto simp: EndpointFromKubeconfig_def set_server_def)
qed

subsection \<open>A node that comes up in time is seen\<close>

lemma next_tick_bound: "next \<le> now \<Longrightarrow> next_tick next now \<le> now + probeInterval"
proof -
  assume "next \<le> now"
  moreover have "(now - next) div probeInterval * probeInterval \<le> now - next" by (rule div_times_less_eq_dividend)
  ultimately have "next + (now - next) div probeInterval * probeInterval \<le> now" by linarith
  then show ?thesis by (simp add: next_tick_def)
qed

lemma waitFor_loop_live:
  assumes up: "\<And>d w. T \<le> c_now c w \<Longrightarrow> c_now c w + probeInterval \<le> d \<Longrightarrow> \<exists>x w'. probe d w = (Answered x, w')"
    and patient: "\<And>d w err w'. probe d w \<noteq> (stopWaiting err, w')"
    and bounded: "\<And>d w p w'. probe d w = (p, w') \<Longrightarrow> c_now c w \<le> c_now c w' \<and> c_now c w' \<le> max d (c_now c w)"
    and ticks: "\<And>n w. \<exists>w'. c_select c n w = (False, w') \<and> c_now c w' = max n (c_now c w)"
    and budget: "T + probeAttempt + 2 * probeInterval \<le> deadline"
    and nxt: "next \<le> c_now c w + probeInterval" "c_now c w + probeInterval \<le> deadline"
  shows "\<exists>x w' log. waitFor_loop c what probe deadline next prev w = (Inr x, w', log)"
  using nxt
proof (induction "deadline - next" arbitrary: "next" prev w rule: less_induct)
  case less
  obtain p w1 where p: "probe (min (c_now c w + probeAttempt) deadline) w = (p, w1)" by force
  note eq = waitFor_loop.simps [of c what probe deadline "next" prev w] p
  show ?case
  proof (cases p)
    case (Retry err)
    then have early: "c_now c w < T"
      using up [of w "min (c_now c w + probeAttempt) deadline"] p less.prems(2)
      by (cases "T \<le> c_now c w") (auto simp: probeAttempt_def probeInterval_def)
    have w1: "c_now c w \<le> c_now c w1" "c_now c w1 \<le> c_now c w + probeAttempt" using bounded [OF p] by linarith+
    obtain w2 where s: "c_select c next w1 = (False, w2)" "c_now c w2 = max next (c_now c w1)" using ticks by blast
    have go: "\<not> deadline < c_now c w1 + 2 * probeInterval" "\<not> deadline \<le> next"
      using early w1 budget less.prems by (auto simp: probeAttempt_def probeInterval_def)
    have "deadline - next_tick next (c_now c w2) < deadline - next"
      using go(2) next_tick_later [of "next" "c_now c w2"] by (simp add: probeInterval_def)
    moreover have "next_tick next (c_now c w2) \<le> c_now c w2 + probeInterval" using s(2) next_tick_bound by simp
    moreover have "c_now c w2 + probeInterval \<le> deadline" using s(2) go w1(1) less.prems by (auto simp: probeInterval_def)
    ultimately obtain x w3 log where "waitFor_loop c what probe deadline (next_tick next (c_now c w2))
        (Some (if prev = None \<or> \<not> ctx_err c deadline w1 then err else the prev)) w2 = (Inr x, w3, log)"
      using less.hyps by blast
    with Retry s(1) go p show ?thesis by (simp add: eq(1) Let_def)
  qed (use eq patient in auto)
qed

text \<open>
  C25. A wait does not miss a node that comes up well before its deadline. Let every attempt that starts
  from time T on with at least a second to go be answered, attempts end by their deadline and never refuse
  for good, and the ticker tick. Then a wait that has at least twelve seconds left at T succeeds, whatever
  the node did before T. Twelve seconds are an attempt that hangs from just before T until it is cut off,
  and the two seconds before its deadline in which the wait starts no attempt.
\<close>

theorem waitFor_live:
  assumes "\<And>d w. T \<le> c_now c w \<Longrightarrow> c_now c w + 1000 \<le> d \<Longrightarrow> \<exists>x w'. probe d w = (Answered x, w')"
    and "\<And>d w err w'. probe d w \<noteq> (stopWaiting err, w')"
    and "\<And>d w p w'. probe d w = (p, w') \<Longrightarrow> c_now c w \<le> c_now c w' \<and> c_now c w' \<le> max d (c_now c w)"
    and "\<And>n w. \<exists>w'. c_select c n w = (False, w') \<and> c_now c w' = max n (c_now c w)"
    and "c_now c w \<le> T" "T + 12000 \<le> wait_deadline c timeout w"
  shows "\<exists>x w' log. waitFor c timeout what probe w = (Inr x, w', log)"
  unfolding waitFor_def
  by (rule waitFor_loop_live [OF assms(1-4) [folded probeInterval_def]])
    (use assms(5,6) in \<open>auto simp: probeAttempt_def probeInterval_def\<close>)

subsection \<open>A node on a wall clock\<close>

text \<open>The world is the time; the node is up after three seconds, and its cluster lists it as Ready.\<close>

definition wall_clock :: "nat clock" where
  "wall_clock = \<lparr>c_now = (\<lambda>w. w), c_cancelled = (\<lambda>_. False), c_parent = None,
     c_select = (\<lambda>n w. (False, max n w)), c_done = (\<lambda>d w. max d w)\<rparr>"

definition up_after :: "nat \<Rightarrow> 'a \<Rightarrow> nat \<Rightarrow> (rpc_failure + 'a) \<times> nat" where
  "up_after t x w = (if w < t then Inl (Unavailable, ''refused'') else Inr x, w)"

definition lab_kube :: "string \<Rightarrow> kube_config" where
  "lab_kube server = \<lparr>kc_current = ''admin'', kc_contexts = [(''admin'', ''lab'')],
     kc_clusters = [(''lab'', server, ''ca'')], kc_users = ''key''\<rparr>"

definition lab_api :: "nat talos_api" where
  "lab_api = \<lparr>tl_clock = wall_clock, tl_new = (\<lambda>_ _. None), tl_parse = (\<lambda>_. True),
     tl_version = (\<lambda>_ _ _. up_after 3000 [''v1.14.1'']), tl_stage = (\<lambda>_ _ _. up_after 3000 ''booting''),
     tl_apply = (\<lambda>_ _ _ _ w. (None, w)), tl_bootstrap = (\<lambda>_ _ _ w. (None, w)),
     tl_kubeconfig = (\<lambda>_ _ _ w. (Inr ''node'', w)),
     kb_parse = (\<lambda>_. True), kb_new = (\<lambda>_. None),
     kb_nodes = (\<lambda>_ _ w. (Inr [\<lparr>node_name = ''n'', node_conditions = [(''Ready'', ''True'')], node_addresses = [(''InternalIP'', ''10.0.0.2'')]\<rparr>], w)),
     kb_load = (\<lambda>b. Some (lab_kube (if b = ''host'' then ''https://h:6443'' else ''https://n:6443''))),
     kb_write = (\<lambda>cfg. if cfg = lab_kube ''https://h:6443'' then Some ''host'' else None)\<rparr>"

lemmas lab_api_simps = lab_api_def wall_clock_def up_after_def

lemma lab_stage_wait: "WaitBootstrapReady lab_api ''t'' ''h:1'' 600000 0 = (Inr (), 3000)"
  by (simp add: WaitBootstrapReady_def AuthenticatedClient_def run_wait_def waitFor_def wait_deadline_def lab_api_simps
      waitFor_loop.simps [of _ _ _ _ 1000] waitFor_loop.simps [of _ _ _ _ 2000] waitFor_loop.simps [of _ _ _ _ 3000]
      waitFor_loop.simps [of _ _ _ _ 4000] stage_probe_def checkBootstrapStage_def next_tick_def probeInterval_def
      probeAttempt_def ctx_err_def)

theorem WaitBootstrapReady_stage_witness:
  "WaitBootstrapReady lab_api ''t'' ''h:1'' 600000 0 = (Inr (), 3000)
   \<and> (\<exists>d w1 stage. tl_stage lab_api (Cluster_PKI ''t'') ''h:1'' d w1 = (Inr stage, 3000) \<and> stage \<in> {''booting'', ''running''})"
  using WaitBootstrapReady_stage [OF lab_stage_wait] lab_stage_wait by blast

definition lab_probe :: "(nat, unit) probe" where
  "lab_probe d w = (if w < 3000 \<or> d < w + 1000 then Retry No_nodes else Answered (), w)"

lemma lab_wait:
  "waitFor wall_clock 600000 ''x'' lab_probe 0 = (Inr (), 3000, [Retry No_nodes, Retry No_nodes, Retry No_nodes, Answered ()])"
  by (simp add: waitFor_def wait_deadline_def wall_clock_def lab_probe_def
      waitFor_loop.simps [of _ _ _ _ 1000] waitFor_loop.simps [of _ _ _ _ 2000] waitFor_loop.simps [of _ _ _ _ 3000]
      waitFor_loop.simps [of _ _ _ _ 4000] next_tick_def probeInterval_def probeAttempt_def ctx_err_def)

theorem waitFor_log_witness:
  "log_reads ''x'' None (Inr ()) [Retry No_nodes, Retry No_nodes, Retry No_nodes, Answered ()]"
  using waitFor_log [OF lab_wait] by blast

theorem waitFor_live_witness: "\<exists>x w' log. waitFor wall_clock 15000 ''x'' lab_probe 0 = (Inr x, w', log)"
  by (rule waitFor_live [of 3000]) (auto simp: wall_clock_def lab_probe_def wait_deadline_def)

lemma lab_ready_at: "WaitNodeReadyAt lab_api ''k'' ''10.0.0.2'' 600000 0 = (Inr (), 0)"
  by (simp add: WaitNodeReadyAt_def kube_wait_def run_wait_def waitFor_def lab_api_simps waitFor_loop.simps [of _ _ _ _ 1000]
      wait_deadline_def ready_at_probe_def nodeHasAddress_def nodeIsReady_iff probeInterval_def)

theorem WaitNodeReadyAt_node_witness:
  "\<exists>d w1 items n. kb_nodes lab_api ''k'' d w1 = (Inr items, 0)
    \<and> find (\<lambda>n. ''10.0.0.2'' \<in> snd ` set (node_addresses n)) items = Some n"
  using WaitNodeReadyAt_node [OF lab_ready_at] by blast

lemma lab_rewrite: "KubeconfigWithServer lab_api ''node'' ''https://h:6443'' = Inr ''host''"
  by (simp add: KubeconfigWithServer_def lab_api_simps lab_kube_def current_cluster_def set_server_def)

theorem KubeconfigWithServer_endpoint_witness: "EndpointFromKubeconfig lab_api ''host'' = Inr ''https://h:6443''"
proof -
  have "kb_write lab_api cfg = Some out \<Longrightarrow> kb_load lab_api out = Some cfg" for cfg out
    by (auto simp: lab_api_simps split: if_splits)
  from KubeconfigWithServer_endpoint [OF this lab_rewrite] show ?thesis by simp
qed

end
