(* ===== verification/Cluster_Nodeinfo.thy ===== *)
theory Cluster_Nodeinfo
  imports Cluster_Client "HOL-Library.Multiset"
begin

section \<open>What a node says about itself\<close>

text \<open>
  \<^verbatim>\<open>cluster/nodeinfo.go\<close>: the version a node reports, its disks and its links, and the two checks that
  refuse a machine file naming a disk or a NIC the node does not have. The tables are lists of rows
  of cells: the column widths and the header are constants of the text rendering. COSI's lists are
  arguments, a function of the client, the endpoint and the world.
\<close>

subsection \<open>Version\<close>

text \<open>A reply's messages by their tags, the empty string for a message without one.\<close>

fun versionTag :: "string list \<Rightarrow> string" where
  "versionTag [] = ''''"
| "versionTag (tag # tags) = (if tag \<noteq> '''' then tag else versionTag tags)"

definition NodeVersion :: "'w talos_api \<Rightarrow> string \<Rightarrow> 'w \<Rightarrow> (client_error + string) \<times> 'w" where
  "NodeVersion api endpoint w =
     (case MaintenanceClient api endpoint of
        Inl err \<Rightarrow> (Inl err, w)
      | Inr cred \<Rightarrow>
          (case tl_version api cred endpoint (c_now (tl_clock api) w) w of
             (Inl f, w1) \<Rightarrow> (Inl (rpc_error ''asking the node its Talos version'' f), w1)
           | (Inr tags, w1) \<Rightarrow> (Inr (versionTag tags), w1)))"

definition installed_version_probe :: "'w talos_api \<Rightarrow> credential \<Rightarrow> string \<Rightarrow> ('w, string) probe" where
  "installed_version_probe api cred endpoint d w =
     (case tl_version api cred endpoint d w of
        (Inl f, w1) \<Rightarrow> (Retry (rpc_error ''asking the installed node its Talos version'' f), w1)
      | (Inr tags, w1) \<Rightarrow> (Answered (versionTag tags), w1))"

definition InstalledNodeVersion :: "'w talos_api \<Rightarrow> bytes \<Rightarrow> string \<Rightarrow> nat \<Rightarrow> 'w \<Rightarrow> (client_error + string) \<times> 'w" where
  "InstalledNodeVersion api talosconfig endpoint timeout w =
     (case AuthenticatedClient api talosconfig endpoint of
        Inl err \<Rightarrow> (Inl err, w)
      | Inr cred \<Rightarrow> run_wait (tl_clock api) timeout (''the installed node at '' @ endpoint @ '' to report its Talos version'')
                      (installed_version_probe api cred endpoint) w)"

subsection \<open>Disks\<close>

record Disk =
  disk_ID :: string
  disk_Serial :: string
  disk_Model :: string
  disk_Size :: string
  disk_Transport :: string
  disk_WWID :: string
  disk_Rotational :: bool
  disk_Readonly :: bool
  disk_CDROM :: bool

text \<open>A COSI disk resource: its ID and the fields of its spec that are read.\<close>

record disk_spec =
  s_Serial :: string
  s_Model :: string
  s_PrettySize :: string
  s_Transport :: string
  s_WWID :: string
  s_Rotational :: bool
  s_Readonly :: bool
  s_CDROM :: bool

definition to_disk :: "string \<times> disk_spec \<Rightarrow> Disk" where
  "to_disk d =
     \<lparr>disk_ID = fst d, disk_Serial = s_Serial (snd d), disk_Model = s_Model (snd d), disk_Size = s_PrettySize (snd d),
      disk_Transport = s_Transport (snd d), disk_WWID = s_WWID (snd d), disk_Rotational = s_Rotational (snd d),
      disk_Readonly = s_Readonly (snd d), disk_CDROM = s_CDROM (snd d)\<rparr>"

definition toDisks :: "(string \<times> disk_spec) list \<Rightarrow> Disk list" where
  "toDisks ds = sort_key disk_ID (map to_disk ds)"

definition ListDisks ::
  "'w talos_api \<Rightarrow> (credential \<Rightarrow> string \<Rightarrow> 'w \<Rightarrow> (rpc_failure + (string \<times> disk_spec) list) \<times> 'w) \<Rightarrow> string \<Rightarrow> 'w
    \<Rightarrow> (client_error + Disk list) \<times> 'w" where
  "ListDisks api listing endpoint w =
     (case MaintenanceClient api endpoint of
        Inl err \<Rightarrow> (Inl err, w)
      | Inr cred \<Rightarrow>
          (case listing cred endpoint w of
             (Inl f, w1) \<Rightarrow> (Inl (rpc_error ''listing disks'' f), w1)
           | (Inr ds, w1) \<Rightarrow> (Inr (toDisks ds), w1)))"

datatype disk_note = Note_readonly | Note_cdrom | Note_rotational | Note_transport string | Note_wwid string

record disk_row =
  row_device :: string
  row_serial :: string
  row_model :: string
  row_size :: string
  row_notes :: "disk_note list"

definition disk_notes :: "Disk \<Rightarrow> disk_note list" where
  "disk_notes d =
     (if disk_Readonly d then [Note_readonly] else []) @ (if disk_CDROM d then [Note_cdrom] else [])
     @ (if disk_Rotational d then [Note_rotational] else [])
     @ (if disk_Transport d \<noteq> '''' then [Note_transport (disk_Transport d)] else [])
     @ (if disk_Serial d = '''' \<and> disk_WWID d \<noteq> '''' then [Note_wwid (disk_WWID d)] else [])"

definition FormatDisks :: "Disk list \<Rightarrow> disk_row list" where
  "FormatDisks disks = map (\<lambda>d. \<lparr>row_device = disk_ID d,
     row_serial = (if disk_Serial d = '''' then ''(none)'' else disk_Serial d),
     row_model = disk_Model d, row_size = disk_Size d, row_notes = disk_notes d\<rparr>) disks"

subsection \<open>Naming a disk\<close>

definition IsZero :: "DiskRef \<Rightarrow> bool" where
  "IsZero r = (Serial r = '''' \<and> WWID r = '''' \<and> DevPath r = '''')"

datatype disk_error =
  No_disks string
| Disk_not_named string "disk_row list"
| Named_twice string DiskRef
| Disk_unmatched string string "disk_row list"

definition Validate :: "DiskRef \<Rightarrow> string \<Rightarrow> disk_error option" where
  "Validate r what =
     (if length (filter (\<lambda>v. v \<noteq> '''') [Serial r, WWID r, DevPath r]) > 1 then Some (Named_twice what r) else None)"

definition ref_string :: "DiskRef \<Rightarrow> string" where
  "ref_string r =
     (if DevPath r \<noteq> '''' then DevPath r
      else if Serial r \<noteq> '''' then ''serial '' @ quote (Serial r)
      else if WWID r \<noteq> '''' then ''wwid '' @ quote (WWID r)
      else ''no serial or wwid'')"

definition Match :: "DiskRef \<Rightarrow> Disk \<Rightarrow> bool" where
  "Match r d =
     (if Serial r \<noteq> '''' then disk_Serial d = Serial r
      else if WWID r \<noteq> '''' then disk_WWID d = WWID r
      else False)"

definition RequireDisk :: "Disk list \<Rightarrow> DiskRef \<Rightarrow> string \<Rightarrow> disk_error option" where
  "RequireDisk disks ref what =
     (if disks = [] then Some (No_disks what)
      else if IsZero ref then Some (Disk_not_named what (FormatDisks disks))
      else case Validate ref what of
          Some err \<Rightarrow> Some err
        | None \<Rightarrow>
            if list_ex (Match ref) disks then None
            else Some (Disk_unmatched what (ref_string ref) (FormatDisks disks)))"

subsection \<open>Links\<close>

record Link =
  link_ID :: string
  link_HardwareAddr :: string
  link_PermanentAddr :: string
  link_Driver :: string
  link_OperState :: string
  link_Carrier :: bool
  link_Physical :: bool

record link_spec =
  l_HardwareAddr :: bytes
  l_PermanentAddr :: bytes
  l_Driver :: string
  l_OperState :: string
  l_LinkState :: bool
  l_Physical :: bool

text \<open>\<^verbatim>\<open>net.HardwareAddr.String\<close>: two lower-case hex digits per byte, separated by colons.\<close>

definition mac_string :: "bytes \<Rightarrow> string" where
  "mac_string b = join '':'' (map (\<lambda>c. hex [c]) b)"

definition to_link :: "string \<times> link_spec \<Rightarrow> Link" where
  "to_link l =
     \<lparr>link_ID = fst l, link_HardwareAddr = mac_string (l_HardwareAddr (snd l)),
      link_PermanentAddr = mac_string (l_PermanentAddr (snd l)), link_Driver = l_Driver (snd l),
      link_OperState = l_OperState (snd l), link_Carrier = l_LinkState (snd l), link_Physical = True\<rparr>"

definition toLinks :: "(string \<times> link_spec) list \<Rightarrow> Link list" where
  "toLinks ls = sort_key link_ID (map to_link (filter (\<lambda>l. l_Physical (snd l)) ls))"

definition ListLinks ::
  "'w talos_api \<Rightarrow> (credential \<Rightarrow> string \<Rightarrow> 'w \<Rightarrow> (rpc_failure + (string \<times> link_spec) list) \<times> 'w) \<Rightarrow> string \<Rightarrow> 'w
    \<Rightarrow> (client_error + Link list) \<times> 'w" where
  "ListLinks api listing endpoint w =
     (case MaintenanceClient api endpoint of
        Inl err \<Rightarrow> (Inl err, w)
      | Inr cred \<Rightarrow>
          (case listing cred endpoint w of
             (Inl f, w1) \<Rightarrow> (Inl (rpc_error ''listing links'' f), w1)
           | (Inr ls, w1) \<Rightarrow> (Inr (toLinks ls), w1)))"

datatype link_note = Note_carrier | Note_no_carrier | Note_permanent string

record link_row =
  lrow_device :: string
  lrow_mac :: string
  lrow_driver :: string
  lrow_state :: string
  lrow_notes :: "link_note list"

definition FormatLinks :: "Link list \<Rightarrow> link_row list" where
  "FormatLinks links = map (\<lambda>l. \<lparr>lrow_device = link_ID l, lrow_mac = link_HardwareAddr l, lrow_driver = link_Driver l,
     lrow_state = link_OperState l,
     lrow_notes = (if link_Carrier l then [Note_carrier] else [Note_no_carrier])
       @ (if link_PermanentAddr l \<noteq> '''' \<and> link_PermanentAddr l \<noteq> link_HardwareAddr l
          then [Note_permanent (link_PermanentAddr l)] else [])\<rparr>) links"

datatype link_error =
  No_links
| Link_not_named "link_row list"
| No_carrier string string "link_row list"
| Link_unmatched string "link_row list"

text \<open>
  \<^verbatim>\<open>strings.EqualFold\<close> against a MAC the node reports. Its letters are a to f, which no other rune
  folds to, so folding the ASCII letters decides it.
\<close>

definition EqualFold :: "string \<Rightarrow> string \<Rightarrow> bool" where
  "EqualFold a b = (to_lower a = to_lower b)"

fun RequireLink_loop :: "link_row list \<Rightarrow> Link list \<Rightarrow> string \<Rightarrow> link_error option" where
  "RequireLink_loop table [] mac = Some (Link_unmatched mac table)"
| "RequireLink_loop table (l # ls) mac =
     (if \<not> EqualFold (link_HardwareAddr l) mac then RequireLink_loop table ls mac
      else if \<not> link_Carrier l then Some (No_carrier mac (link_ID l) table)
      else None)"

definition RequireLink :: "Link list \<Rightarrow> string \<Rightarrow> link_error option" where
  "RequireLink links mac =
     (if links = [] then Some No_links
      else if mac = '''' then Some (Link_not_named (FormatLinks links))
      else RequireLink_loop (FormatLinks links) links mac)"

subsection \<open>What the checks accept\<close>

lemma Validate_None:
  "Validate r what = None \<longleftrightarrow>
     (WWID r = '''' \<and> DevPath r = '''') \<or> (Serial r = '''' \<and> DevPath r = '''') \<or> (Serial r = '''' \<and> WWID r = '''')"
  by (auto simp: Validate_def)

lemma RequireDisk_None:
  "RequireDisk disks ref what = None \<longleftrightarrow>
     disks \<noteq> [] \<and> \<not> IsZero ref \<and> Validate ref what = None \<and> list_ex (Match ref) disks"
  by (auto simp: RequireDisk_def split: option.split)

text \<open>
  \<open>RequireDisk\<close> accepts exactly the references that name one disk of the node by one identity: a
  serial alone or a WWID alone that some disk reports, byte for byte. A device path is never
  accepted, since no disk is matched by it.
\<close>

theorem RequireDisk_iff:
  "RequireDisk disks ref what = None \<longleftrightarrow>
     DevPath ref = '''' \<and>
     (\<exists>d \<in> set disks. (Serial ref \<noteq> '''' \<and> WWID ref = '''' \<and> disk_Serial d = Serial ref)
        \<or> (Serial ref = '''' \<and> WWID ref \<noteq> '''' \<and> disk_WWID d = WWID ref))"
  unfolding RequireDisk_None Validate_None IsZero_def Match_def list_ex_iff by auto

text \<open>
  The table is the remedy: whatever the table printed for a node shows as an identity of a disk,
  a serial in its column or a WWID in the notes, is accepted when it is copied into the file.
\<close>

theorem FormatDisks_remedy:
  assumes "row \<in> set (FormatDisks disks)"
  shows "(row_serial row \<noteq> ''(none)'' \<longrightarrow>
           RequireDisk disks \<lparr>Serial = row_serial row, WWID = '''', DevPath = ''''\<rparr> what = None)
    \<and> (\<forall>wwid. Note_wwid wwid \<in> set (row_notes row) \<longrightarrow>
           RequireDisk disks \<lparr>Serial = '''', WWID = wwid, DevPath = ''''\<rparr> what = None)"
proof -
  from assms obtain d where d: "d \<in> set disks"
    "row_serial row = (if disk_Serial d = '''' then ''(none)'' else disk_Serial d)" "row_notes row = disk_notes d"
    by (auto simp: FormatDisks_def)
  have "RequireDisk disks \<lparr>Serial = row_serial row, WWID = '''', DevPath = ''''\<rparr> what = None"
    if "row_serial row \<noteq> ''(none)''"
  proof -
    from that d(2) have "disk_Serial d = row_serial row" "row_serial row \<noteq> ''''" by (auto split: if_splits)
    with d(1) show ?thesis by (auto simp: RequireDisk_def IsZero_def Validate_def Match_def list_ex_iff)
  qed
  moreover have "RequireDisk disks \<lparr>Serial = '''', WWID = wwid, DevPath = ''''\<rparr> what = None"
    if "Note_wwid wwid \<in> set (row_notes row)" for wwid
  proof -
    from that d(3) have "disk_WWID d = wwid" "wwid \<noteq> ''''" by (auto simp: disk_notes_def split: if_splits)
    with d(1) show ?thesis by (auto simp: RequireDisk_def IsZero_def Validate_def Match_def list_ex_iff)
  qed
  ultimately show ?thesis by blast
qed

lemma sort_key_unique:
  assumes "mset xs = mset ys" "inj_on f (set xs)"
  shows "sort_key f xs = sort_key f ys"
proof (rule properties_for_sort_key [symmetric])
  show "mset (sort_key f xs) = mset ys" using assms(1) by simp
  fix k assume "k \<in> set (sort_key f xs)"
  then have k: "k \<in> set xs" by simp
  have eq: "f k = f x \<longleftrightarrow> x = k" if "x \<in> set xs" for x using assms(2) k that by (auto dest: inj_onD)
  have "filter (\<lambda>x. f k = f x) zs = replicate (count (mset zs) k) k" if "set zs = set xs" for zs
  proof -
    have "filter (\<lambda>x. f k = f x) zs = filter (\<lambda>x. x = k) zs" using eq that by (intro filter_cong) auto
    then show ?thesis by (simp add: filter_eq_replicate_mset replicate_count_mset_eq_filter_eq eq_commute [of _ k])
  qed
  moreover have "set ys = set xs" using assms(1) by (metis set_mset_mset)
  ultimately show "filter (\<lambda>x. f k = f x) (sort_key f xs) = filter (\<lambda>x. f k = f x) ys"
    using assms(1) by simp
qed simp

text \<open>
  The table never reshuffles: two listings of the same disks, in whatever order the node returned
  them, give the same table, its rows sorted by device.
\<close>

theorem toDisks_order:
  assumes "mset ds = mset ds'" "distinct (map fst ds)"
  shows "FormatDisks (toDisks ds) = FormatDisks (toDisks ds') \<and> sorted (map row_device (FormatDisks (toDisks ds)))"
proof -
  have "inj_on fst (set ds)" using assms(2) by (simp add: distinct_map)
  then have "inj_on disk_ID (set (map to_disk ds))" by (auto simp: inj_on_def to_disk_def)
  moreover have "mset (map to_disk ds) = mset (map to_disk ds')" using assms(1) by simp
  ultimately have "toDisks ds = toDisks ds'" unfolding toDisks_def by (intro sort_key_unique)
  moreover have "map row_device (FormatDisks xs) = map disk_ID xs" for xs by (simp add: FormatDisks_def)
  ultimately show ?thesis by (simp add: toDisks_def)
qed

lemma RequireLink_loop_None:
  "RequireLink_loop table ls mac = None \<longleftrightarrow>
     (\<exists>l. find (\<lambda>l. EqualFold (link_HardwareAddr l) mac) ls = Some l \<and> link_Carrier l)"
  by (induction ls) auto

text \<open>
  \<open>RequireLink\<close> accepts a MAC, in either case, exactly when it is not empty and the first link that
  has it is cabled; upper and lower case spellings of one MAC get the same answer.
\<close>

theorem RequireLink_iff:
  "RequireLink links mac = None \<longleftrightarrow>
     mac \<noteq> '''' \<and> (\<exists>l. find (\<lambda>l. to_lower (link_HardwareAddr l) = to_lower mac) links = Some l \<and> link_Carrier l)"
  by (auto simp: RequireLink_def RequireLink_loop_None EqualFold_def)

subsection \<open>A node with a USB bridge\<close>

definition nvme :: disk_spec where
  "nvme = \<lparr>s_Serial = ''S1'', s_Model = ''nvme'', s_PrettySize = ''1 TB'', s_Transport = ''nvme'', s_WWID = ''eui.1'',
     s_Rotational = False, s_Readonly = False, s_CDROM = False\<rparr>"

definition usb :: disk_spec where
  "usb = \<lparr>s_Serial = '''', s_Model = ''bridge'', s_PrettySize = ''2 TB'', s_Transport = ''usb'', s_WWID = ''t10.SSK'',
     s_Rotational = False, s_Readonly = False, s_CDROM = False\<rparr>"

lemma desk_disks: "toDisks [(''sdb'', usb), (''sda'', nvme)] = [to_disk (''sda'', nvme), to_disk (''sdb'', usb)]"
  by (simp add: toDisks_def to_disk_def)

theorem RequireDisk_iff_witness:
  "RequireDisk (toDisks [(''sdb'', usb), (''sda'', nvme)]) \<lparr>Serial = '''', WWID = ''t10.SSK'', DevPath = ''''\<rparr> ''install target'' = None"
  unfolding RequireDisk_iff desk_disks by (simp add: to_disk_def usb_def nvme_def)

theorem FormatDisks_remedy_witness:
  "RequireDisk (toDisks [(''sdb'', usb), (''sda'', nvme)]) \<lparr>Serial = ''S1'', WWID = '''', DevPath = ''''\<rparr> ''install target'' = None"
proof -
  have "\<lparr>row_device = ''sda'', row_serial = ''S1'', row_model = ''nvme'', row_size = ''1 TB'', row_notes = [Note_transport ''nvme'']\<rparr>
      \<in> set (FormatDisks (toDisks [(''sdb'', usb), (''sda'', nvme)]))"
    unfolding desk_disks by (simp add: FormatDisks_def disk_notes_def to_disk_def nvme_def)
  from FormatDisks_remedy [OF this] show ?thesis by simp
qed

theorem toDisks_order_witness:
  "FormatDisks (toDisks [(''sdb'', usb), (''sda'', nvme)]) = FormatDisks (toDisks [(''sda'', nvme), (''sdb'', usb)])"
  using toDisks_order [of "[(''sdb'', usb), (''sda'', nvme)]" "[(''sda'', nvme), (''sdb'', usb)]"] by simp

end
