(* ===== verification/Cluster_Config.thy ===== *)
theory Cluster_Config
  imports Cluster_Identity Cluster_Network Cluster_Nodeinfo
begin

section \<open>Generating a machine config\<close>

text \<open>
  \<^verbatim>\<open>cluster/config.go\<close>: from what is known about a machine to the documents it is installed with. The
  Talos machinery (its generator, its compatibility tables, its CEL parser, its size parser and its
  patcher) is a record of functions; everything the code itself decides, which options it passes,
  which sections it overwrites, which documents it replaces, is defined here.
\<close>

subsection \<open>Inputs\<close>

record ConfigInput =
  in_ClusterName :: string
  in_Endpoint :: string
  in_APIAddress :: string
  in_TalosVersion :: string
  in_KubernetesVersion :: string
  in_ConsoleArg :: string
  in_SystemDisk :: DiskRef
  in_DataDiskSerial :: string
  in_EphemeralMaxSize :: string
  in_InstallerImage :: string
  in_DisableKexec :: bool
  in_Network :: "Network option"
  in_ClusterNetwork :: "ClusterNetwork option"
  in_Hostname :: string
  in_ExtraSubjectAltNames :: "string list"
  in_Registries :: "RegistryMirror list"
  in_ConfigPatches :: "string list"
  in_SecretsBundle :: bytes

record Generated =
  ControlPlane :: bytes
  Talosconfig :: bytes
  Secrets :: bytes

text \<open>A parsed secrets bundle: whether its three parts are there, and its content.\<close>

record secrets_bundle =
  has_certs :: bool
  has_secrets :: bool
  has_cluster :: bool
  bundle_content :: bytes

text \<open>A size as \<^verbatim>\<open>block.Size\<close> parses it.\<close>

record block_size =
  size_zero :: bool
  size_relative :: bool
  size_value :: nat

datatype 'c gen_option =
  WithVersionContract 'c
| WithInstallImage string
| WithAllowSchedulingOnControlPlanes bool
| WithAdditionalSubjectAltNames "string list"
| WithEndpointList "string list"
| WithInstallExtraKernelArgs "string list"
| WithNetworkOptions network_config
| WithSecretsBundle secrets_bundle

text \<open>
  The machinery: \<open>'c\<close> is a version contract, \<open>'i\<close> a prepared input, \<open>'t\<close> a parsed Talos version,
  \<open>'k\<close> a parsed Kubernetes version and \<open>'p\<close> a loaded patch list.
\<close>

record ('c, 'i, 't, 'k, 'p) generator =
  g_machinery :: "'c machinery"
  NewInput :: "string \<Rightarrow> string \<Rightarrow> string \<Rightarrow> 'c gen_option list \<Rightarrow> string + 'i"
  input_Config :: "'i \<Rightarrow> string + document list"
  PatchV1Alpha1 :: "(v1alpha1 \<Rightarrow> v1alpha1) \<Rightarrow> document list \<Rightarrow> string + document list"
  container_New :: "document list \<Rightarrow> string option"
  LoadPatches :: "string list \<Rightarrow> string + 'p"
  ApplyPatches :: "document list \<Rightarrow> 'p \<Rightarrow> string + string + document list"
  config_Bytes :: "document list \<Rightarrow> string + bytes"
  input_Talosconfig :: "'i \<Rightarrow> string + string + bytes"
  input_Secrets :: "'i \<Rightarrow> string + bytes"
  ParseBundle :: "bytes \<Rightarrow> secrets_bundle option"
  ParseTalosVersion :: "string \<Rightarrow> string + 't"
  ParseKubernetesVersion :: "string \<Rightarrow> string + 'k"
  SupportedWith :: "'k \<Rightarrow> 't \<Rightarrow> string option"
  DefaultKubernetesVersion :: string
  cel_parses :: "string \<Rightarrow> bool"
  UnmarshalSize :: "string \<Rightarrow> string + block_size"

datatype config_error =
  Unknown_talos_version
| No_api_address
| Version_refused version_error
| Bad_version string
| Bad_generator_version string
| Bad_kubernetes_version string
| No_kubernetes_version string "string option"
| Unsupported_kubernetes string string string
| Identity_refused identity_error
| Secrets_unparsable
| Secrets_incomplete
| Size_unparsable string
| Size_is_zero string
| Size_too_small string nat
| Volume_selector string
| Machinery_failed string string

subsection \<open>Kubernetes version\<close>

definition cut_at :: "char \<Rightarrow> string \<Rightarrow> string \<times> string" where
  "cut_at c s = (takeWhile (\<lambda>x. x \<noteq> c) s, drop 1 (dropWhile (\<lambda>x. x \<noteq> c) s))"

text \<open>The walk down the minor versions; the counter is the number of candidates left to try.\<close>

fun kubernetesVersion_loop ::
  "('c, 'i, 't, 'k, 'p) generator \<Rightarrow> string \<Rightarrow> 't \<Rightarrow> string \<Rightarrow> string \<Rightarrow> string option \<Rightarrow> nat \<Rightarrow> config_error + string" where
  "kubernetesVersion_loop g talosVersion target major candidate unsupported 0 =
     Inl (No_kubernetes_version talosVersion unsupported)"
| "kubernetesVersion_loop g talosVersion target major candidate unsupported (Suc minor) =
     (case ParseKubernetesVersion g candidate of
        Inl err \<Rightarrow> Inl (Bad_kubernetes_version candidate)
      | Inr k8s \<Rightarrow>
          (case SupportedWith g k8s target of
             None \<Rightarrow> Inr candidate
           | Some err \<Rightarrow>
               kubernetesVersion_loop g talosVersion target major (major @ ''.'' @ dec_of_nat minor @ ''.0'') (Some err) minor))"

definition kubernetesVersion :: "('c, 'i, 't, 'k, 'p) generator \<Rightarrow> string \<Rightarrow> config_error + string" where
  "kubernetesVersion g talosVersion =
     (case ParseTalosVersion g talosVersion of
        Inl err \<Rightarrow> Inl (Bad_version talosVersion)
      | Inr target \<Rightarrow>
          let (major, rest) = cut_at CHR ''.'' (DefaultKubernetesVersion g);
              (minor, ok) = atoi (fst (cut_at CHR ''.'' rest)) in
          if \<not> ok then Inl (Bad_generator_version (DefaultKubernetesVersion g))
          else kubernetesVersion_loop g talosVersion target major (DefaultKubernetesVersion g) None (nat minor))"

definition resolveKubernetesVersion :: "('c, 'i, 't, 'k, 'p) generator \<Rightarrow> string \<Rightarrow> string \<Rightarrow> config_error + string" where
  "resolveKubernetesVersion g talosVersion pinned =
     (if pinned = '''' then kubernetesVersion g talosVersion
      else case ParseTalosVersion g talosVersion of
          Inl err \<Rightarrow> Inl (Bad_version talosVersion)
        | Inr target \<Rightarrow>
            (case ParseKubernetesVersion g pinned of
               Inl err \<Rightarrow> Inl (Bad_kubernetes_version pinned)
             | Inr k8s \<Rightarrow>
                 (case SupportedWith g k8s target of
                    Some err \<Rightarrow> Inl (Unsupported_kubernetes pinned talosVersion err)
                  | None \<Rightarrow> Inr pinned)))"

subsection \<open>Sections\<close>

text \<open>Go's map assignment, on an association list that keeps a key's place.\<close>

definition put :: "('k \<times> 'v) list \<Rightarrow> 'k \<Rightarrow> 'v \<Rightarrow> ('k \<times> 'v) list" where
  "put m k v = (if k \<in> fst ` set m then map (\<lambda>e. if fst e = k then (k, v) else e) m else m @ [(k, v)])"

definition add_mirror :: "RegistryMirror \<Rightarrow> registries_config \<Rightarrow> registries_config" where
  "add_mirror m out =
     (let entry = (case map_of (RegistryMirrors out) (Host m) of
                     Some e \<Rightarrow> e
                   | None \<Rightarrow> \<lparr>MirrorEndpoints = [], MirrorOverridePath = None\<rparr>);
          entry1 = entry\<lparr>MirrorEndpoints := MirrorEndpoints entry @ [Endpoint m]\<rparr>;
          entry2 = (if OverridePath m then entry1\<lparr>MirrorOverridePath := Some True\<rparr> else entry1);
          out1 = out\<lparr>RegistryMirrors := put (RegistryMirrors out) (Host m) entry2\<rparr> in
      if \<not> (InsecureSkipVerify m \<or> CA m \<noteq> '''') then out1
      else if Host m = ''*'' then out1
      else out1\<lparr>RegistryConfig := put (RegistryConfig out1) (Host m)
             \<lparr>TLSInsecureSkipVerify = (if InsecureSkipVerify m then Some True else None),
              TLSCA = (if CA m \<noteq> '''' then CA m else '''')\<rparr>\<rparr>)"

definition registriesConfig :: "RegistryMirror list \<Rightarrow> registries_config" where
  "registriesConfig mirrors = fold add_mirror mirrors no_registries"

definition parseSecretsBundle :: "('c, 'i, 't, 'k, 'p) generator \<Rightarrow> bytes \<Rightarrow> config_error + secrets_bundle" where
  "parseSecretsBundle g b =
     (case ParseBundle g b of
        None \<Rightarrow> Inl Secrets_unparsable
      | Some bundle \<Rightarrow>
          if \<not> has_certs bundle \<or> \<not> has_secrets bundle \<or> \<not> has_cluster bundle then Inl Secrets_incomplete
          else Inr bundle)"

definition installDiskSelector :: "DiskRef \<Rightarrow> disk_selector" where
  "installDiskSelector ref =
     (if WWID ref \<noteq> '''' then \<lparr>sel_serial = '''', sel_wwid = WWID ref\<rparr> else \<lparr>sel_serial = Serial ref, sel_wwid = ''''\<rparr>)"

subsection \<open>Volumes\<close>

definition userVolumeName :: string where "userVolumeName = ''local-path-provisioner''"

definition ephemeralFloor :: nat where "ephemeralFloor = 2 ^ 30"

definition ephemeralCap :: "('c, 'i, 't, 'k, 'p) generator \<Rightarrow> string \<Rightarrow> config_error + document" where
  "ephemeralCap g maxSize =
     (case UnmarshalSize g maxSize of
        Inl err \<Rightarrow> Inl (Size_unparsable maxSize)
      | Inr sz \<Rightarrow>
          if size_zero sz then Inl (Size_is_zero maxSize)
          else if \<not> size_relative sz \<and> size_value sz < ephemeralFloor then Inl (Size_too_small maxSize (size_value sz))
          else if \<not> cel_parses g ''system_disk'' then Inl (Volume_selector ''system_disk'')
          else Inr (VolumeConfig ''EPHEMERAL'' ''system_disk'' maxSize))"

definition userVolume :: "('c, 'i, 't, 'k, 'p) generator \<Rightarrow> string \<Rightarrow> config_error + document" where
  "userVolume g expr =
     (if \<not> cel_parses g expr then Inl (Volume_selector expr)
      else Inr (UserVolumeConfig userVolumeName expr ''partition'' ''1GiB'' True ''xfs''))"

definition volumeDocuments :: "('c, 'i, 't, 'k, 'p) generator \<Rightarrow> ConfigInput \<Rightarrow> config_error + document list" where
  "volumeDocuments g inp =
     (if in_DataDiskSerial inp \<noteq> '''' then
        and_then (userVolume g (''disk.serial == '' @ quote (in_DataDiskSerial inp))) (\<lambda>volume. Inr [volume])
      else if in_EphemeralMaxSize inp \<noteq> '''' then
        and_then (ephemeralCap g (in_EphemeralMaxSize inp)) (\<lambda>ephemeral.
        and_then (userVolume g ''system_disk'') (\<lambda>volume. Inr [ephemeral, volume]))
      else Inr [])"

subsection \<open>GenerateConfig\<close>

definition installer_image :: "ConfigInput \<Rightarrow> string" where
  "installer_image inp =
     (if in_InstallerImage inp \<noteq> '''' then in_InstallerImage inp
      else ''ghcr.io/siderolabs/installer:'' @ in_TalosVersion inp)"

text \<open>The extra names that are not the API address, each once, in their order.\<close>

fun extra_sans :: "string \<Rightarrow> string list \<Rightarrow> string list \<Rightarrow> string list" where
  "extra_sans api extra [] = extra"
| "extra_sans api extra (san # sans) =
     extra_sans api (if san \<noteq> api \<and> san \<notin> set extra then extra @ [san] else extra) sans"

definition genOpts :: "'c \<Rightarrow> ConfigInput \<Rightarrow> 'c gen_option list" where
  "genOpts contract inp =
     (let extra = extra_sans (in_APIAddress inp) [] (in_ExtraSubjectAltNames inp) in
      [WithVersionContract contract, WithInstallImage (installer_image inp), WithAllowSchedulingOnControlPlanes True,
       WithAdditionalSubjectAltNames [in_APIAddress inp], WithEndpointList [in_APIAddress inp]]
      @ (if in_ConsoleArg inp \<noteq> '''' then [WithInstallExtraKernelArgs [in_ConsoleArg inp]] else [])
      @ (case in_Network inp of None \<Rightarrow> [] | Some n \<Rightarrow> [WithNetworkOptions (networkOption n)])
      @ (case in_ClusterNetwork inp of None \<Rightarrow> []
         | Some cn \<Rightarrow> [WithAdditionalSubjectAltNames [addr_string (fst (cn_Address cn))]])
      @ (if extra \<noteq> [] then [WithAdditionalSubjectAltNames extra] else []))"

definition unattended :: "ConfigInput \<Rightarrow> bool" where
  "unattended inp = list_ex (\<lambda>patch. str_contains patch ''UnattendedInstallConfig'') (in_ConfigPatches inp)"

text \<open>The closure given to \<^verbatim>\<open>PatchV1Alpha1\<close>; its deferred function runs last.\<close>

definition patch_install :: "ConfigInput \<Rightarrow> install_config \<Rightarrow> install_config" where
  "patch_install inp i =
     (let i1 = (if DevPath (in_SystemDisk inp) \<noteq> ''''
                then i\<lparr>InstallDisk := DevPath (in_SystemDisk inp), InstallDiskSelector := None\<rparr>
                else i\<lparr>InstallDiskSelector := Some (installDiskSelector (in_SystemDisk inp))\<rparr>);
          i2 = i1\<lparr>InstallImage := installer_image inp\<rparr> in
      if in_ConsoleArg inp \<noteq> '''' \<and> InstallGrubUseUKICmdline i2 \<noteq> None
      then i2\<lparr>InstallGrubUseUKICmdline := Some False\<rparr> else i2)"

definition patch_machine :: "ConfigInput \<Rightarrow> machine_config \<Rightarrow> machine_config" where
  "patch_machine inp m =
     (let i = (case MachineInstall m of None \<Rightarrow> zero_install | Some i \<Rightarrow> i);
          m1 = m\<lparr>MachineInstall := Some (patch_install inp i)\<rparr>;
          m2 = (if in_DisableKexec inp
                then m1\<lparr>MachineSysctls := put (MachineSysctls m1) ''kernel.kexec_load_disabled'' ''1''\<rparr> else m1);
          m3 = (if in_Registries inp \<noteq> [] then m2\<lparr>MachineRegistries := registriesConfig (in_Registries inp)\<rparr> else m2) in
      if unattended inp then m3\<lparr>MachineInstall := None\<rparr> else m3)"

definition patch_cluster :: "ClusterNetwork \<Rightarrow> cluster_config \<Rightarrow> cluster_config" where
  "patch_cluster cn c =
     (let etcd = (case EtcdConfig c of None \<Rightarrow> zero_etcd | Some e \<Rightarrow> e) in
      c\<lparr>EtcdConfig := Some (etcd\<lparr>EtcdAdvertisedSubnets := [prefix_str (Masked (cn_Address cn))]\<rparr>)\<rparr>)"

definition patch_v1alpha1 :: "ConfigInput \<Rightarrow> v1alpha1 \<Rightarrow> v1alpha1" where
  "patch_v1alpha1 inp c =
     (let c1 = c\<lparr>MachineConfig := Some (patch_machine inp (case MachineConfig c of None \<Rightarrow> zero_machine | Some m \<Rightarrow> m))\<rparr> in
      case in_ClusterNetwork inp of
        None \<Rightarrow> c1
      | Some cn \<Rightarrow> c1\<lparr>ClusterConfig := Some (patch_cluster cn (case ClusterConfig c1 of None \<Rightarrow> zero_cluster | Some x \<Rightarrow> x))\<rparr>)"

definition wrap :: "string \<Rightarrow> string + 'a \<Rightarrow> config_error + 'a" where
  "wrap context r = map_error (Machinery_failed context) r"

text \<open>What happens to the generated documents before the machine's own patches are applied.\<close>

definition with_volumes :: "('c, 'i, 't, 'k, 'p) generator \<Rightarrow> ConfigInput \<Rightarrow> document list \<Rightarrow> config_error + document list" where
  "with_volumes g inp docs =
     and_then (volumeDocuments g inp) (\<lambda>vols.
       if vols = [] then Inr docs
       else let docs1 = withoutDocuments docs vols @ vols in
         case container_New g docs1 of
           Some err \<Rightarrow> Inl (Machinery_failed ''adding the volume documents'' err)
         | None \<Rightarrow> Inr docs1)"

definition with_patches :: "('c, 'i, 't, 'k, 'p) generator \<Rightarrow> ConfigInput \<Rightarrow> document list \<Rightarrow> config_error + document list" where
  "with_patches g inp docs =
     (if in_ConfigPatches inp = [] then Inr docs
      else and_then (wrap ''loading config patches'' (LoadPatches g (in_ConfigPatches inp))) (\<lambda>patches.
           and_then (wrap ''applying config patches'' (ApplyPatches g docs patches)) (\<lambda>out.
           wrap ''re-reading the patched config'' out)))"

definition generate_documents ::
  "('c, 'i, 't, 'k, 'p) generator \<Rightarrow> ConfigInput \<Rightarrow> 'i \<Rightarrow> config_error + document list" where
  "generate_documents g inp input =
     and_then (wrap ''generating control plane config'' (input_Config g input)) (\<lambda>cfg.
     and_then (wrap ''patching the install section'' (PatchV1Alpha1 g (patch_v1alpha1 inp) cfg)) (\<lambda>cfg1.
     and_then (map_error Identity_refused
        (withNodeIdentity (cel_parses g) (container_New g) cfg1 (in_ClusterNetwork inp) (in_Hostname inp))) (\<lambda>cfg2.
     and_then (with_volumes g inp cfg2) (with_patches g inp))))"

text \<open>The checks before anything is generated, and the prepared input they end in.\<close>

definition prepare_input :: "('c, 'i, 't, 'k, 'p) generator \<Rightarrow> ConfigInput \<Rightarrow> config_error + 'i" where
  "prepare_input g inp =
     (let version = in_TalosVersion inp in
      if version = '''' then Inl Unknown_talos_version
      else if in_APIAddress inp = '''' then Inl No_api_address
      else case snd (CheckVersion (g_machinery g) version) of
          Some err \<Rightarrow> Inl (Version_refused err)
        | None \<Rightarrow>
            (case ParseContract (g_machinery g) version of
               None \<Rightarrow> Inl (Bad_version version)
             | Some contract \<Rightarrow>
                 and_then (resolveKubernetesVersion g version (in_KubernetesVersion inp)) (\<lambda>k8sVersion.
                 case checkNodeIdentity (g_machinery g) version (in_ClusterNetwork inp) (in_Hostname inp) contract of
                   Some err \<Rightarrow> Inl (Identity_refused err)
                 | None \<Rightarrow>
                     and_then (if in_SecretsBundle inp \<noteq> []
                               then and_then (parseSecretsBundle g (in_SecretsBundle inp)) (\<lambda>b. Inr [WithSecretsBundle b])
                               else Inr []) (\<lambda>secrets.
                     wrap ''preparing config generation''
                       (NewInput g (in_ClusterName inp) (in_Endpoint inp) k8sVersion (genOpts contract inp @ secrets))))))"

definition GenerateConfig :: "('c, 'i, 't, 'k, 'p) generator \<Rightarrow> ConfigInput \<Rightarrow> config_error + Generated" where
  "GenerateConfig g inp =
     and_then (prepare_input g inp) (\<lambda>input.
     and_then (generate_documents g inp input) (\<lambda>cfg.
     and_then (wrap ''encoding control plane config'' (config_Bytes g cfg)) (\<lambda>controlPlane.
     and_then (wrap ''generating talosconfig'' (input_Talosconfig g input)) (\<lambda>clientConfig.
     and_then (wrap ''encoding talosconfig'' clientConfig) (\<lambda>talosconfig.
     and_then (wrap ''encoding secrets bundle'' (input_Secrets g input)) (\<lambda>secretsBundle.
     Inr \<lparr>ControlPlane = controlPlane, Talosconfig = talosconfig, Secrets = secretsBundle\<rparr>))))))"

subsection \<open>The newest Kubernetes the node can run\<close>

definition k8s_supported :: "('c, 'i, 't, 'k, 'p) generator \<Rightarrow> 't \<Rightarrow> string \<Rightarrow> bool" where
  "k8s_supported g target v = (case ParseKubernetesVersion g v of Inl _ \<Rightarrow> False | Inr k \<Rightarrow> SupportedWith g k target = None)"

definition minor_release :: "string \<Rightarrow> nat \<Rightarrow> string" where
  "minor_release major m = major @ ''.'' @ dec_of_nat m @ ''.0''"

definition walk_down :: "string \<Rightarrow> string \<Rightarrow> nat \<Rightarrow> string list" where
  "walk_down major newest n = (if n = 0 then [] else newest # map (minor_release major) (rev [1..<n]))"

lemma walk_down_Suc: "walk_down major newest (Suc n) = newest # walk_down major (minor_release major n) n"
  by (cases n) (simp_all add: walk_down_def)

lemma kubernetesVersion_loop_find:
  assumes "\<forall>v \<in> set (walk_down major newest n). \<exists>k. ParseKubernetesVersion g v = Inr k"
  shows "case find (k8s_supported g target) (walk_down major newest n) of
      Some v \<Rightarrow> kubernetesVersion_loop g tv target major newest uns n = Inr v
    | None \<Rightarrow> \<exists>err. kubernetesVersion_loop g tv target major newest uns n = Inl (No_kubernetes_version tv err)"
  using assms
proof (induction n arbitrary: newest uns)
  case (Suc n)
  then obtain k where k: "ParseKubernetesVersion g newest = Inr k" by (auto simp: walk_down_Suc)
  show ?case
  proof (cases "SupportedWith g k target")
    case None
    with k show ?thesis by (simp add: walk_down_Suc k8s_supported_def)
  next
    case (Some err)
    with k have "\<not> k8s_supported g target newest" by (simp add: k8s_supported_def)
    moreover from k Some have step: "kubernetesVersion_loop g tv target major newest uns (Suc n) =
        kubernetesVersion_loop g tv target major (minor_release major n) (Some err) n"
      by (simp add: minor_release_def)
    ultimately show ?thesis
      using Suc.IH [of "minor_release major n" "Some err"] Suc.prems unfolding walk_down_Suc step by simp
  qed
qed (simp add: walk_down_def)

text \<open>
  The Kubernetes version of an unpinned machine is the newest one its Talos can run: of the
  generator's default and the \<^verbatim>\<open>.0\<close> releases of the lower minors, in this order, the first that the
  compatibility data accepts; and the walk always ends, with a refusal when none of them is.
\<close>

theorem kubernetesVersion_newest:
  assumes "ParseTalosVersion g tv = Inr target" "cut_at CHR ''.'' (DefaultKubernetesVersion g) = (major, rest)"
    and "atoi (fst (cut_at CHR ''.'' rest)) = (minor, True)"
    and "\<forall>v \<in> set (walk_down major (DefaultKubernetesVersion g) (nat minor)). \<exists>k. ParseKubernetesVersion g v = Inr k"
  shows "case find (k8s_supported g target) (walk_down major (DefaultKubernetesVersion g) (nat minor)) of
      Some v \<Rightarrow> kubernetesVersion g tv = Inr v
    | None \<Rightarrow> \<exists>err. kubernetesVersion g tv = Inl (No_kubernetes_version tv err)"
proof -
  have eq: "kubernetesVersion g tv =
      kubernetesVersion_loop g tv target major (DefaultKubernetesVersion g) None (nat minor)"
    using assms(1-3) by (simp add: kubernetesVersion_def)
  show ?thesis unfolding eq by (rule kubernetesVersion_loop_find [OF assms(4)])
qed

subsection \<open>Registries\<close>

lemma map_of_put [simp]: "map_of (put m k v) k' = (if k' = k then Some v else map_of m k')"
proof -
  have "map_of (map (\<lambda>e. if fst e = k then (k, v) else e) m) k' = (if k' = k \<and> k \<in> fst ` set m then Some v else map_of m k')"
    by (induction m) (auto simp: image_iff split: if_splits)
  moreover have "map_of (m @ [(k, v)]) k' = (if k' = k \<and> k \<notin> fst ` set m then Some v else map_of m k')"
    by (induction m) (auto simp: image_iff split: if_splits)
  ultimately show ?thesis unfolding put_def by (cases "k \<in> fst ` set m"; cases "k' = k") simp_all
qed

definition mirror_reference :: "RegistryMirror list \<Rightarrow> string \<Rightarrow> mirror_config option" where
  "mirror_reference ms h =
     (let mine = filter (\<lambda>m. Host m = h) ms in
      if mine = [] then None
      else Some \<lparr>MirrorEndpoints = map Endpoint mine,
                 MirrorOverridePath = (if list_ex OverridePath mine then Some True else None)\<rparr>)"

definition needs_tls :: "RegistryMirror \<Rightarrow> bool" where
  "needs_tls m = (InsecureSkipVerify m \<or> CA m \<noteq> '''')"

definition tls_reference :: "RegistryMirror list \<Rightarrow> string \<Rightarrow> tls_config option" where
  "tls_reference ms h =
     (let mine = filter (\<lambda>m. Host m = h \<and> needs_tls m) ms in
      if h = ''*'' \<or> mine = [] then None
      else Some \<lparr>TLSInsecureSkipVerify = (if InsecureSkipVerify (last mine) then Some True else None), TLSCA = CA (last mine)\<rparr>)"

lemma add_mirror_mirrors:
  "map_of (RegistryMirrors (add_mirror m rc)) h =
     (if Host m = h then Some (case map_of (RegistryMirrors rc) h of
          None \<Rightarrow> \<lparr>MirrorEndpoints = [Endpoint m], MirrorOverridePath = (if OverridePath m then Some True else None)\<rparr>
        | Some e \<Rightarrow> \<lparr>MirrorEndpoints = MirrorEndpoints e @ [Endpoint m],
                     MirrorOverridePath = (if OverridePath m then Some True else MirrorOverridePath e)\<rparr>)
      else map_of (RegistryMirrors rc) h)"
proof -
  define entry where "entry = (case map_of (RegistryMirrors rc) (Host m) of
      Some e \<Rightarrow> e | None \<Rightarrow> \<lparr>MirrorEndpoints = [], MirrorOverridePath = None\<rparr>)"
  have "RegistryMirrors (add_mirror m rc) = put (RegistryMirrors rc) (Host m)
      \<lparr>MirrorEndpoints = MirrorEndpoints entry @ [Endpoint m],
       MirrorOverridePath = (if OverridePath m then Some True else MirrorOverridePath entry)\<rparr>"
    unfolding add_mirror_def Let_def entry_def [symmetric] by (cases entry) simp
  then show ?thesis by (simp add: entry_def split: option.split)
qed

lemma add_mirror_tls:
  "map_of (RegistryConfig (add_mirror m rc)) h =
     (if Host m = h \<and> needs_tls m \<and> h \<noteq> ''*'' then
        Some \<lparr>TLSInsecureSkipVerify = (if InsecureSkipVerify m then Some True else None), TLSCA = CA m\<rparr>
      else map_of (RegistryConfig rc) h)"
  unfolding add_mirror_def Let_def needs_tls_def by (cases "Host m = ''*''") auto

text \<open>
  The registry section is what the mirrors of each host say together: its endpoints in the order
  of the list, the path override when any entry asks for it; the TLS settings of a host are those
  of its last entry that has some, and the wildcard host has none.
\<close>

theorem registriesConfig_reference:
  "map_of (RegistryMirrors (registriesConfig ms)) h = mirror_reference ms h
   \<and> map_of (RegistryConfig (registriesConfig ms)) h = tls_reference ms h"
proof (induction ms rule: rev_induct)
  case Nil
  then show ?case by (simp add: registriesConfig_def no_registries_def mirror_reference_def tls_reference_def)
next
  case (snoc m ms)
  have step: "registriesConfig (ms @ [m]) = add_mirror m (registriesConfig ms)" by (simp add: registriesConfig_def)
  have "map_of (RegistryMirrors (add_mirror m (registriesConfig ms))) h = mirror_reference (ms @ [m]) h"
    using snoc by (cases "Host m = h") (auto simp: add_mirror_mirrors mirror_reference_def Let_def)
  moreover have "map_of (RegistryConfig (add_mirror m (registriesConfig ms))) h = tls_reference (ms @ [m]) h"
    using snoc by (cases "Host m = h \<and> needs_tls m") (auto simp: add_mirror_tls tls_reference_def)
  ultimately show ?case by (simp add: step)
qed

subsection \<open>What the node is installed with\<close>

lemma withNodeIdentity_keeps_v1:
  assumes "withNodeIdentity cel chk docs cn hn = Inr out" "V1Alpha1Config c r \<in> set docs"
  shows "V1Alpha1Config c r \<in> set out"
proof -
  have "edit_document cn hn (V1Alpha1Config c r) = V1Alpha1Config c r" by (simp add: edit_document_def)
  with assms(2) have "V1Alpha1Config c r \<in> set (map (edit_document cn hn) docs)" by force
  with assms show ?thesis by (auto simp: withNodeIdentity_def Let_def result_simps split: if_splits option.splits)
qed

lemma volumeDocuments_kinds:
  assumes "volumeDocuments g inp = Inr vols" "d \<in> set vols"
  shows "(\<exists>a b c. d = VolumeConfig a b c) \<or> (\<exists>s. d = UserVolumeConfig userVolumeName s ''partition'' ''1GiB'' True ''xfs'')"
  using assms
  by (auto simp: volumeDocuments_def userVolume_def ephemeralCap_def result_simps split: if_splits sum.splits)

lemma with_volumes_keeps_v1:
  assumes "with_volumes g inp docs = Inr out" "V1Alpha1Config c r \<in> set docs"
  shows "V1Alpha1Config c r \<in> set out"
proof -
  from assms(1) obtain vols where v: "volumeDocuments g inp = Inr vols" by (auto simp: with_volumes_def result_simps)
  have "documentIdentity (V1Alpha1Config c r) \<notin> documentIdentity ` set vols"
    using volumeDocuments_kinds [OF v] by (fastforce simp: documentIdentity_def)
  with assms v show ?thesis
    by (auto simp: with_volumes_def withoutDocuments_def Let_def split: if_splits option.splits)
qed

lemma with_volumes_capped:
  assumes "with_volumes g inp docs = Inr out" "in_DataDiskSerial inp = ''''" "in_EphemeralMaxSize inp \<noteq> ''''"
  shows "{d \<in> set out. documentIdentity d \<in> {(''VolumeConfig'', ''EPHEMERAL''), (''UserVolumeConfig'', userVolumeName)}} =
    {VolumeConfig ''EPHEMERAL'' ''system_disk'' (in_EphemeralMaxSize inp), UserVolumeConfig userVolumeName ''system_disk'' ''partition'' ''1GiB'' True ''xfs''}"
    (is "_ = {?e, ?v}")
proof -
  have "volumeDocuments g inp = Inr [?e, ?v]"
    using assms by (auto simp: with_volumes_def volumeDocuments_def userVolume_def ephemeralCap_def result_simps split: if_splits sum.splits)
  with assms(1) have "out = withoutDocuments docs [?e, ?v] @ [?e, ?v]"
    by (auto simp: with_volumes_def Let_def split: option.splits)
  moreover have "documentIdentity ?e = (''VolumeConfig'', ''EPHEMERAL'')" "documentIdentity ?v = (''UserVolumeConfig'', userVolumeName)"
    by (simp_all add: documentIdentity_def)
  ultimately show ?thesis by (auto simp: withoutDocuments_def)
qed

lemma with_volumes_data_disk:
  assumes "with_volumes g inp docs = Inr out" "in_DataDiskSerial inp \<noteq> ''''"
  shows "{d \<in> set out. documentIdentity d = (''UserVolumeConfig'', userVolumeName)} =
    {UserVolumeConfig userVolumeName (''disk.serial == '' @ quote (in_DataDiskSerial inp)) ''partition'' ''1GiB'' True ''xfs''}"
    (is "_ = {?v}")
proof -
  have "volumeDocuments g inp = Inr [?v]"
    using assms by (auto simp: with_volumes_def volumeDocuments_def userVolume_def split: if_splits)
  with assms(1) have "out = withoutDocuments docs [?v] @ [?v]"
    by (auto simp: with_volumes_def Let_def split: option.splits)
  moreover have "documentIdentity ?v = (''UserVolumeConfig'', userVolumeName)" by (simp add: documentIdentity_def)
  ultimately show ?thesis by (auto simp: withoutDocuments_def)
qed

definition names_disk :: "DiskRef \<Rightarrow> install_config \<Rightarrow> bool" where
  "names_disk ref i =
     (if DevPath ref \<noteq> '''' then InstallDisk i = DevPath ref \<and> InstallDiskSelector i = None
      else InstallDiskSelector i = Some (if WWID ref \<noteq> '''' then \<lparr>sel_serial = '''', sel_wwid = WWID ref\<rparr>
                                         else \<lparr>sel_serial = Serial ref, sel_wwid = ''''\<rparr>))"

text \<open>An install section that installs what the input asks for, and boots with its console argument.\<close>

definition installs_input :: "ConfigInput \<Rightarrow> install_config \<Rightarrow> bool" where
  "installs_input inp i =
     (InstallImage i = installer_image inp \<and> names_disk (in_SystemDisk inp) i
      \<and> (in_ConsoleArg inp \<noteq> '''' \<longrightarrow> InstallGrubUseUKICmdline i \<noteq> Some True))"

lemma patch_install_pins: "installs_input inp (patch_install inp i)"
  by (auto simp: installs_input_def patch_install_def Let_def names_disk_def installDiskSelector_def)

lemma patch_machine_pins:
  "(if unattended inp then MachineInstall (patch_machine inp m) = None
    else \<exists>i. MachineInstall (patch_machine inp m) = Some i \<and> installs_input inp i)"
  "in_DisableKexec inp \<Longrightarrow> map_of (MachineSysctls (patch_machine inp m)) ''kernel.kexec_load_disabled'' = Some ''1''"
  "in_Registries inp \<noteq> [] \<Longrightarrow> MachineRegistries (patch_machine inp m) = registriesConfig (in_Registries inp)"
  using patch_install_pins [of inp] by (simp_all add: patch_machine_def Let_def)

text \<open>The machine section and the etcd section that a config for the input carries.\<close>

definition pinned :: "ConfigInput \<Rightarrow> v1alpha1 \<Rightarrow> bool" where
  "pinned inp c =
     (\<exists>m. MachineConfig c = Some m
        \<and> (if unattended inp then MachineInstall m = None else \<exists>i. MachineInstall m = Some i \<and> installs_input inp i)
        \<and> (in_DisableKexec inp \<longrightarrow> map_of (MachineSysctls m) ''kernel.kexec_load_disabled'' = Some ''1'')
        \<and> (in_Registries inp \<noteq> [] \<longrightarrow> MachineRegistries m = registriesConfig (in_Registries inp))
        \<and> (\<forall>cn. in_ClusterNetwork inp = Some cn \<longrightarrow>
             (\<exists>cc ec. ClusterConfig c = Some cc \<and> EtcdConfig cc = Some ec
                \<and> EtcdAdvertisedSubnets ec = [prefix_str (Masked (cn_Address cn))])))"

lemma patch_v1alpha1_pinned: "pinned inp (patch_v1alpha1 inp c)"
proof -
  have "MachineConfig (patch_v1alpha1 inp c) = Some (patch_machine inp (case MachineConfig c of None \<Rightarrow> zero_machine | Some m \<Rightarrow> m))"
    by (simp add: patch_v1alpha1_def Let_def split: option.split)
  moreover have "\<exists>cc ec. ClusterConfig (patch_v1alpha1 inp c) = Some cc \<and> EtcdConfig cc = Some ec
      \<and> EtcdAdvertisedSubnets ec = [prefix_str (Masked (cn_Address cn))]" if "in_ClusterNetwork inp = Some cn" for cn
    using that by (simp add: patch_v1alpha1_def patch_cluster_def Let_def)
  ultimately show ?thesis unfolding pinned_def using patch_machine_pins by blast
qed

lemma prepare_input_opts:
  assumes "prepare_input g inp = Inr input"
  obtains k8s contract opts where "NewInput g (in_ClusterName inp) (in_Endpoint inp) k8s opts = Inr input" "set (genOpts contract inp) \<subseteq> set opts"
    "in_SecretsBundle inp \<noteq> [] \<longrightarrow> (\<exists>b. parseSecretsBundle g (in_SecretsBundle inp) = Inr b \<and> WithSecretsBundle b \<in> set opts)"
proof (cases "in_SecretsBundle inp = []")
  case True
  with assms obtain k8s contract where "NewInput g (in_ClusterName inp) (in_Endpoint inp) k8s (genOpts contract inp) = Inr input"
    by (auto simp: prepare_input_def wrap_def result_simps Let_def split: if_splits option.splits)
  then show ?thesis by (rule that [where contract = contract]) (simp_all add: True)
next
  case False
  with assms obtain k8s contract b where "NewInput g (in_ClusterName inp) (in_Endpoint inp) k8s (genOpts contract inp @ [WithSecretsBundle b]) = Inr input"
      "parseSecretsBundle g (in_SecretsBundle inp) = Inr b"
    by (auto simp: prepare_input_def wrap_def result_simps Let_def split: if_splits option.splits)
  then show ?thesis by (intro that) auto
qed


subsection \<open>A generator that runs\<close>

definition lab_generator :: "(nat, unit, nat, string, unit) generator" where
  "lab_generator = \<lparr>
     g_machinery = \<lparr>ParseContract = (\<lambda>_. Some 14), Greater = (\<lambda>a b. b < a), TalosVersion1_13 = 13, VersionTag = ''v1.14.1''\<rparr>,
     NewInput = (\<lambda>_ _ _ _. Inr ()), input_Config = (\<lambda>_. Inr [V1Alpha1Config \<lparr>MachineConfig = None, ClusterConfig = None\<rparr> '''']),
     PatchV1Alpha1 = (\<lambda>f docs. case docs of V1Alpha1Config c r # ds \<Rightarrow> Inr (V1Alpha1Config (f c) r # ds) | _ \<Rightarrow> Inl ''empty''),
     container_New = (\<lambda>_. None), LoadPatches = (\<lambda>_. Inr ()), ApplyPatches = (\<lambda>docs _. Inr (Inr docs)),
     config_Bytes = (\<lambda>_. Inr ''controlplane''), input_Talosconfig = (\<lambda>_. Inr (Inr ''talosconfig'')),
     input_Secrets = (\<lambda>_. Inr ''secrets''), ParseBundle = (\<lambda>_. None),
     ParseTalosVersion = (\<lambda>_. Inr 14), ParseKubernetesVersion = (\<lambda>v. Inr v),
     SupportedWith = (\<lambda>v _. if v = ''1.3.0'' then Some ''too new'' else None), DefaultKubernetesVersion = ''1.3.0'',
     cel_parses = (\<lambda>_. True), UnmarshalSize = (\<lambda>_. Inl ''no sizes'')\<rparr>"

definition lab_input :: ConfigInput where
  "lab_input = \<lparr>in_ClusterName = ''lab'', in_Endpoint = ''https://h:6443'', in_APIAddress = ''h'', in_TalosVersion = ''v1.14.1'',
     in_KubernetesVersion = '''', in_ConsoleArg = '''', in_SystemDisk = \<lparr>Serial = ''talos-system'', WWID = '''', DevPath = ''''\<rparr>,
     in_DataDiskSerial = ''talos-data'', in_EphemeralMaxSize = '''', in_InstallerImage = '''', in_DisableKexec = True,
     in_Network = None, in_ClusterNetwork = None, in_Hostname = '''', in_ExtraSubjectAltNames = [], in_Registries = [],
     in_ConfigPatches = [], in_SecretsBundle = []\<rparr>"

lemma lab_kubernetesVersion:
  "cut_at CHR ''.'' (DefaultKubernetesVersion lab_generator) = (''1'', ''3.0'')"
  "atoi (fst (cut_at CHR ''.'' ''3.0'')) = (3, True)"
  by (simp_all add: lab_generator_def cut_at_def atoi_def atoi_digits_def ascii_digit_def digit_val_def)

lemma lab_walk: "find (k8s_supported lab_generator 14) (walk_down ''1'' (DefaultKubernetesVersion lab_generator) (nat 3)) = Some ''1.2.0''"
  by (simp add: walk_down_def upt_rec lab_generator_def k8s_supported_def minor_release_def dec_eval numeral_2_eq_2 [symmetric])

theorem kubernetesVersion_newest_witness: "kubernetesVersion lab_generator ''v1.14.1'' = Inr ''1.2.0''"
  using kubernetesVersion_newest [of lab_generator "''v1.14.1''" 14 "''1''" "''3.0''" 3] lab_kubernetesVersion lab_walk
  by (simp add: lab_generator_def)

lemma lab_generated: "\<exists>gen. GenerateConfig lab_generator lab_input = Inr gen"
proof -
  have "kubernetesVersion lab_generator ''v1.14.1'' =
      kubernetesVersion_loop lab_generator ''v1.14.1'' 14 ''1'' (DefaultKubernetesVersion lab_generator) None (nat 3)"
    unfolding kubernetesVersion_def lab_kubernetesVersion prod.case Let_def by (simp add: lab_generator_def)
  then have "kubernetesVersion lab_generator ''v1.14.1'' = Inr ''1.2.0''"
    using kubernetesVersion_loop_find [where g = lab_generator and major = "''1''" and n = "nat 3" and target = 14
        and newest = "DefaultKubernetesVersion lab_generator" and tv = "''v1.14.1''" and uns = None] lab_walk
    by (simp add: lab_generator_def)
  then have k8s: "resolveKubernetesVersion lab_generator ''v1.14.1'' '''' = Inr ''1.2.0''"
    by (simp add: resolveKubernetesVersion_def)
  have mc: "snd (CheckVersion (g_machinery lab_generator) ''v1.14.1'') = None"
    "ParseContract (g_machinery lab_generator) ''v1.14.1'' = Some 14"
    "checkNodeIdentity (g_machinery lab_generator) ''v1.14.1'' None '''' 14 = None"
    "NewInput lab_generator a b c opts = Inr ()" for a b c opts
    by (simp_all add: lab_generator_def CheckVersion_def checkVersion_def checkNodeIdentity_def)
  have "prepare_input lab_generator lab_input = Inr ()"
    by (simp add: prepare_input_def lab_input_def k8s mc wrap_def Let_def)
  moreover have "\<exists>docs. generate_documents lab_generator lab_input () = Inr docs"
    by (simp add: lab_generator_def lab_input_def generate_documents_def wrap_def withNodeIdentity_def with_volumes_def
        volumeDocuments_def userVolume_def with_patches_def Let_def)
  moreover have "config_Bytes lab_generator docs = Inr ''controlplane''" "input_Talosconfig lab_generator () = Inr (Inr ''talosconfig'')"
    "input_Secrets lab_generator () = Inr ''secrets''" for docs
    by (simp_all add: lab_generator_def)
  ultimately show ?thesis by (auto simp: GenerateConfig_def wrap_def)
qed


end
