(* ===== verification/Go_Effect.thy ===== *)
theory Go_Effect
  imports Go_Prelude
begin

section \<open>Code that acts on a state and may fail\<close>

text \<open>
  A Go function that returns an error and changes what is around it is a function from a state to an
  error or a value and the next state; an error keeps the state reached so far. Triples with one
  postcondition for success and one for failure follow the shape of the code, so that a property
  of a long sequence of calls is proved call by call.
\<close>

type_synonym ('s, 'e, 'a) effect = "'s \<Rightarrow> ('e + 'a) \<times> 's"

definition give :: "'a \<Rightarrow> ('s, 'e, 'a) effect" where
  "give x s = (Inr x, s)"

definition refuse :: "'e \<Rightarrow> ('s, 'e, 'a) effect" where
  "refuse e s = (Inl e, s)"

definition then_do :: "('s, 'e, 'a) effect \<Rightarrow> ('a \<Rightarrow> ('s, 'e, 'b) effect) \<Rightarrow> ('s, 'e, 'b) effect" where
  "then_do m f s = (case m s of (Inl e, s1) \<Rightarrow> (Inl e, s1) | (Inr x, s1) \<Rightarrow> f x s1)"

text \<open>\<open>fails_as\<close> rewrites the error of a call, \<open>lift_result\<close> makes a check without effects a step.\<close>

definition fails_as :: "('e \<Rightarrow> 'f) \<Rightarrow> ('s, 'e, 'a) effect \<Rightarrow> ('s, 'f, 'a) effect" where
  "fails_as g m s = (case m s of (r, s1) \<Rightarrow> (map_error g r, s1))"

definition lift_result :: "'e + 'a \<Rightarrow> ('s, 'e, 'a) effect" where
  "lift_result r s = (r, s)"

definition triple :: "('s \<Rightarrow> bool) \<Rightarrow> ('s, 'e, 'a) effect \<Rightarrow> ('a \<Rightarrow> 's \<Rightarrow> bool) \<Rightarrow> ('s \<Rightarrow> bool) \<Rightarrow> bool" where
  "triple P m Q R = (\<forall>s. P s \<longrightarrow> (case m s of (Inr x, s') \<Rightarrow> Q x s' | (Inl e, s') \<Rightarrow> R s'))"

named_theorems triples \<open>rules that decompose a triple\<close>

lemma tripleD_ok: "triple P m Q R \<Longrightarrow> P s \<Longrightarrow> m s = (Inr x, s') \<Longrightarrow> Q x s'"
  by (auto simp: triple_def)

lemma tripleD_err: "triple P m Q R \<Longrightarrow> P s \<Longrightarrow> m s = (Inl e, s') \<Longrightarrow> R s'"
  by (force simp: triple_def)

lemma tripleI:
  assumes "\<And>s x s'. P s \<Longrightarrow> m s = (Inr x, s') \<Longrightarrow> Q x s'" "\<And>s e s'. P s \<Longrightarrow> m s = (Inl e, s') \<Longrightarrow> R s'"
  shows "triple P m Q R"
  using assms unfolding triple_def by (auto split: prod.split sum.split)

lemma tripleD_both: "triple P m (\<lambda>_. R) R \<Longrightarrow> P s \<Longrightarrow> m s = (r, s') \<Longrightarrow> R s'"
  by (cases r) (auto dest: tripleD_ok tripleD_err)

lemma triple_both: "(\<And>s r s'. P s \<Longrightarrow> m s = (r, s') \<Longrightarrow> R s') \<Longrightarrow> triple P m (\<lambda>_. R) R"
  by (rule tripleI) blast+

lemma triple_give [triples]: "(\<And>s. P s \<Longrightarrow> Q x s) \<Longrightarrow> triple P (give x) Q R"
  by (simp add: triple_def give_def)

lemma triple_refuse [triples]: "(\<And>s. P s \<Longrightarrow> R s) \<Longrightarrow> triple P (refuse e) Q R"
  by (simp add: triple_def refuse_def)

lemma triple_lift [triples]:
  "(\<And>x s. r = Inr x \<Longrightarrow> P s \<Longrightarrow> Q x s) \<Longrightarrow> (\<And>e s. r = Inl e \<Longrightarrow> P s \<Longrightarrow> R s) \<Longrightarrow> triple P (lift_result r) Q R"
  by (cases r) (auto simp: triple_def lift_result_def)

lemma triple_then [triples]:
  assumes "triple P m M R" "\<And>x. triple (M x) (f x) Q R"
  shows "triple P (then_do m f) Q R"
  by (rule tripleI)
    (auto simp: then_do_def dest: tripleD_ok [OF assms(1)] tripleD_err [OF assms(1)] tripleD_ok [OF assms(2)]
      tripleD_err [OF assms(2)] split: prod.splits sum.splits)

lemma triple_fails_as [triples]: "triple P m Q R \<Longrightarrow> triple P (fails_as g m) Q R"
  by (rule tripleI) (auto simp: fails_as_def result_simps dest: tripleD_ok tripleD_err split: prod.splits)

lemma triple_if [triples]:
  "(b \<Longrightarrow> triple P m Q R) \<Longrightarrow> (\<not> b \<Longrightarrow> triple P n Q R) \<Longrightarrow> triple P (if b then m else n) Q R"
  by simp

lemma triple_option [triples]:
  "(x = None \<Longrightarrow> triple P m Q R) \<Longrightarrow> (\<And>y. x = Some y \<Longrightarrow> triple P (f y) Q R) \<Longrightarrow>
   triple P (case x of None \<Rightarrow> m | Some y \<Rightarrow> f y) Q R"
  by (cases x) auto

lemma triple_pre: "triple P m Q R \<Longrightarrow> (\<And>s. P' s \<Longrightarrow> P s) \<Longrightarrow> triple P' m Q R"
  by (auto simp: triple_def)

lemma triple_post:
  "triple P m Q R \<Longrightarrow> (\<And>x s. Q x s \<Longrightarrow> Q' x s) \<Longrightarrow> (\<And>s. R s \<Longrightarrow> R' s) \<Longrightarrow> triple P m Q' R'"
  by (rule tripleI) (blast dest: tripleD_ok tripleD_err)+

text \<open>A property every call keeps, whether it succeeds or not.\<close>

definition keeps :: "('s \<Rightarrow> bool) \<Rightarrow> ('s, 'e, 'a) effect \<Rightarrow> bool" where
  "keeps P m = triple P m (\<lambda>_. P) P"

named_theorems keeping \<open>rules that decompose the preservation of a property\<close>

lemma keeps_give [keeping]: "keeps P (give x)"
  by (simp add: keeps_def triple_give)

lemma keeps_refuse [keeping]: "keeps P (refuse e)"
  by (simp add: keeps_def triple_refuse)

lemma keeps_lift [keeping]: "keeps P (lift_result r)"
  by (simp add: keeps_def triple_lift)

lemma keeps_then [keeping]: "keeps P m \<Longrightarrow> (\<And>x. keeps P (f x)) \<Longrightarrow> keeps P (then_do m f)"
  by (simp add: keeps_def triple_then)

lemma keeps_fails_as [keeping]: "keeps P m \<Longrightarrow> keeps P (fails_as g m)"
  by (simp add: keeps_def triple_fails_as)

lemma keeps_if [keeping]: "(b \<Longrightarrow> keeps P m) \<Longrightarrow> (\<not> b \<Longrightarrow> keeps P n) \<Longrightarrow> keeps P (if b then m else n)"
  by simp

lemma keeps_option [keeping]:
  "(x = None \<Longrightarrow> keeps P m) \<Longrightarrow> (\<And>y. x = Some y \<Longrightarrow> keeps P (f y)) \<Longrightarrow> keeps P (case x of None \<Rightarrow> m | Some y \<Rightarrow> f y)"
  by (cases x) auto

lemma keeps_sum [keeping]:
  "(\<And>e. x = Inl e \<Longrightarrow> keeps P (f e)) \<Longrightarrow> (\<And>y. x = Inr y \<Longrightarrow> keeps P (g y)) \<Longrightarrow> keeps P (case x of Inl e \<Rightarrow> f e | Inr y \<Rightarrow> g y)"
  by (cases x) auto

lemma keepsD: "keeps P m \<Longrightarrow> P s \<Longrightarrow> m s = (r, s') \<Longrightarrow> P s'"
  unfolding keeps_def by (rule tripleD_both)

lemma keeps_disj: "keeps P m \<Longrightarrow> keeps Q m \<Longrightarrow> keeps (\<lambda>s. P s \<or> Q s) m"
  unfolding keeps_def by (rule tripleI) (blast dest: tripleD_ok tripleD_err)+

lemma keeps_conj: "keeps P m \<Longrightarrow> keeps Q m \<Longrightarrow> keeps (\<lambda>s. P s \<and> Q s) m"
  unfolding keeps_def by (rule tripleI) (auto dest: tripleD_ok tripleD_err)

lemma keeps_ex: "(\<And>x. keeps (P x) m) \<Longrightarrow> keeps (\<lambda>s. \<exists>x. P x s) m"
  unfolding keeps_def by (rule tripleI) (blast dest: tripleD_ok tripleD_err)+

lemma triple_quiet: "keeps P m \<Longrightarrow> (\<And>s. P s \<Longrightarrow> R s) \<Longrightarrow> triple P m (\<lambda>_. P) R"
  unfolding keeps_def by (rule tripleI) (blast dest: tripleD_ok tripleD_err)+

lemma triple_keeps: "keeps P m \<Longrightarrow> (\<And>s. P' s \<Longrightarrow> P s) \<Longrightarrow> (\<And>s. P s \<Longrightarrow> Q s) \<Longrightarrow> triple P' m (\<lambda>_. Q) Q"
  unfolding keeps_def by (rule tripleI) (blast dest: tripleD_ok tripleD_err)+

text \<open>How a sequence of calls ended.\<close>

lemma then_do_eq:
  "then_do m f s = (r, s') \<longleftrightarrow> (\<exists>e. m s = (Inl e, s') \<and> r = Inl e) \<or> (\<exists>x s1. m s = (Inr x, s1) \<and> f x s1 = (r, s'))"
  by (auto simp: then_do_def split: prod.splits sum.splits)

lemma fails_as_eq_ok: "fails_as g m s = (Inr x, s') \<longleftrightarrow> m s = (Inr x, s')"
  by (auto simp: fails_as_def result_simps split: prod.splits)

lemma fails_as_eq_err: "fails_as g m s = (Inl e, s') \<longleftrightarrow> (\<exists>d. m s = (Inl d, s') \<and> e = g d)"
  by (auto simp: fails_as_def result_simps split: prod.splits)

lemmas effect_eqs = then_do_eq fails_as_eq_ok fails_as_eq_err

end
