(* ===== verification/Cluster_Up.thy ===== *)
theory Cluster_Up
  imports Cluster_Config Go_Effect Go_Filepath
begin

section \<open>Bringing a node up\<close>

text \<open>
  \<^verbatim>\<open>cluster/up.go\<close>: the ten steps from a machine that is off to a Ready node. The calls that reach a
  node are the hooks of \<^verbatim>\<open>upHooks\<close>, functions of the world; the state of a run is that world, the
  files of the state directory and a log of what was done, the steps it printed included (their
  labels: the wording of the lines is not modelled, nor are the detail lines under them).
\<close>

subsection \<open>Host and port\<close>

text \<open>\<^verbatim>\<open>net.SplitHostPort\<close>, with its refusals of a missing port, of stray brackets and of a second colon.\<close>

definition last_colon :: "string \<Rightarrow> nat option" where
  "last_colon s =
     (if CHR '':'' \<in> set s then Some (length s - 1 - length (takeWhile (\<lambda>c. c \<noteq> CHR '':'') (rev s))) else None)"

definition SplitHostPort :: "string \<Rightarrow> (string \<times> string) option" where
  "SplitHostPort s =
     (case last_colon s of
        None \<Rightarrow> None
      | Some i \<Rightarrow>
          if hd s = CHR ''['' then
            let close = length (takeWhile (\<lambda>c. c \<noteq> CHR '']'') s) in
            if close = length s \<or> close + 1 \<noteq> i then None
            else if CHR ''['' \<in> set (drop 1 s) \<or> CHR '']'' \<in> set (drop (close + 1) s) then None
            else Some (take (close - 1) (drop 1 s), drop (i + 1) s)
          else if CHR '':'' \<in> set (take i s) then None
          else if CHR ''['' \<in> set s \<or> CHR '']'' \<in> set s then None
          else Some (take i s, drop (i + 1) s))"

lemma SplitHostPort_plain:
  assumes "set host \<inter> {CHR '':'', CHR ''['', CHR '']''} = {}" "set port \<inter> {CHR '':'', CHR ''['', CHR '']''} = {}"
  shows "SplitHostPort (host @ '':'' @ port) = Some (host, port)"
proof -
  have "takeWhile (\<lambda>c. c \<noteq> CHR '':'') (rev port @ CHR '':'' # rev host) = rev port"
    using assms(2) by (subst takeWhile_append2) auto
  then have "last_colon (host @ '':'' @ port) = Some (length host)"
    by (simp add: last_colon_def)
  moreover have "hd (host @ '':'' @ port) \<noteq> CHR ''[''" using assms(1) by (cases host) auto
  ultimately show ?thesis using assms by (auto simp: SplitHostPort_def)
qed

subsection \<open>Options\<close>

record JoinOptions =
  j_SecretsBundle :: bytes
  j_ClusterEndpoint :: string
  j_Kubeconfig :: bytes

record UpOptions =
  o_ClusterName :: string
  o_StateDir :: string
  o_TalosEndpoint :: string
  o_KubeEndpoint :: string
  o_SystemDisk :: DiskRef
  o_DataDiskSerial :: string
  o_EphemeralMaxSize :: string
  o_InstallerImage :: string
  o_TalosVersion :: string
  o_VersionSource :: string
  o_Substrate :: string
  o_ConsoleArg :: string
  o_DisableKexec :: bool
  o_Network :: "Network option"
  o_ClusterNetwork :: "ClusterNetwork option"
  o_Hostname :: string
  o_Registries :: "RegistryMirror list"
  o_ConfigPatches :: "string list"
  o_KubernetesVersion :: string
  o_Join :: "JoinOptions option"
  o_StoppedMembers :: "string list"

definition hasUserVolume :: "UpOptions \<Rightarrow> bool" where
  "hasUserVolume opts = (o_DataDiskSerial opts \<noteq> '''' \<or> o_EphemeralMaxSize opts \<noteq> '''')"

definition upSteps :: nat where "upSteps = 10"

definition maintenanceTimeout :: nat where "maintenanceTimeout = 300000"

definition installTimeout :: nat where "installTimeout = 600000"

definition NodeVersionTimeout :: nat where "NodeVersionTimeout = 30000"

definition bootstrapTimeout :: nat where "bootstrapTimeout = 300000"

definition kubeconfigTimeout :: nat where "kubeconfigTimeout = 300000"

definition nodeReadyTimeout :: nat where "nodeReadyTimeout = 600000"

subsection \<open>Hooks and the state of a run\<close>

record 'w upHooks =
  h_generateConfig :: "ConfigInput \<Rightarrow> 'w \<Rightarrow> (config_error + Generated) \<times> 'w"
  h_waitMaintenance :: "string \<Rightarrow> nat \<Rightarrow> 'w \<Rightarrow> (client_error + unit) \<times> 'w"
  h_applyConfig :: "string \<Rightarrow> bytes \<Rightarrow> 'w \<Rightarrow> (client_error + unit) \<times> 'w"
  h_waitBootstrapReady :: "bytes \<Rightarrow> string \<Rightarrow> nat \<Rightarrow> 'w \<Rightarrow> (client_error + unit) \<times> 'w"
  h_waitNodeReadyAt :: "bytes \<Rightarrow> string \<Rightarrow> nat \<Rightarrow> 'w \<Rightarrow> (client_error + unit) \<times> 'w"
  h_bootstrap :: "bytes \<Rightarrow> string \<Rightarrow> 'w \<Rightarrow> (client_error + unit) \<times> 'w"
  h_kubeconfig :: "bytes \<Rightarrow> string \<Rightarrow> 'w \<Rightarrow> (client_error + bytes) \<times> 'w"
  h_waitNodeReady :: "bytes \<Rightarrow> nat \<Rightarrow> 'w \<Rightarrow> (client_error + unit) \<times> 'w"
  h_installStorage :: "bytes \<Rightarrow> 'w \<Rightarrow> (string + unit) \<times> 'w"

datatype event =
  Step string
| Boot
| Generate ConfigInput
| Write string
| Apply string bytes
| Bootstrap string
| Wait_for string
| Fetch_kubeconfig
| Install_storage

record 'w run =
  r_world :: 'w
  r_files :: "string \<Rightarrow> bytes option"
  r_log :: "event list"

text \<open>
  The rest of a run's surroundings: the API the kubeconfig helpers use, how the VM is booted, which
  paths cannot be read, which cannot be written (with what the failed write leaves at the path),
  the order in which Go ranges over the map of artifacts, and \<^verbatim>\<open>url.Parse\<close>.
\<close>

record ('c, 'w) up_env =
  ue_hooks :: "'w upHooks"
  ue_api :: "'w talos_api"
  ue_machinery :: "'c machinery"
  ue_boot :: "'w \<Rightarrow> (string + int) \<times> 'w"
  ue_read_fails :: "string \<Rightarrow> bool"
  ue_write_fails :: "string \<Rightarrow> bytes option option"
  ue_order :: "(string \<times> bytes) list \<Rightarrow> (string \<times> bytes) list"
  ue_url :: "string \<Rightarrow> (string \<times> string) option"

datatype up_failure =
  F_read string
| F_client client_error
| F_config config_error
| F_write string
| F_storage string

datatype up_error =
  No_talos_endpoint
| No_kube_endpoint
| Not_host_port string
| No_host_part string
| Up_network network_error
| Kube_endpoint_no_host string
| Kube_endpoint_moves string string string
| Up_version version_error
| Up_unknown_version
| Up_boot string
| Up_failed up_failure
| Up_join_failed up_failure

text \<open>
  A call of a hook: it is logged, and it changes the world only. The log holds the calls that were made; what
  was answered is in the result and the world.
\<close>

definition hook :: "event \<Rightarrow> ('w \<Rightarrow> ('e + 'a) \<times> 'w) \<Rightarrow> ('w run, 'e, 'a) effect" where
  "hook ev f s = (case f (r_world s) of (r, w) \<Rightarrow> (r, s\<lparr>r_world := w, r_log := r_log s @ [ev]\<rparr>))"

definition step :: "string \<Rightarrow> ('w run, 'e, unit) effect" where
  "step label s = (Inr (), s\<lparr>r_log := r_log s @ [Step label]\<rparr>)"

subsection \<open>Addresses\<close>

definition apiAddress :: "string \<Rightarrow> up_error + string" where
  "apiAddress endpoint =
     (case SplitHostPort endpoint of
        None \<Rightarrow> Inl (Not_host_port endpoint)
      | Some (host, port) \<Rightarrow> if host = '''' then Inl (No_host_part endpoint) else Inr host)"

definition installedEndpoint :: "string \<Rightarrow> Network option \<Rightarrow> up_error + string \<times> string" where
  "installedEndpoint endpoint net =
     and_then (apiAddress endpoint) (\<lambda>addr.
     case net of
       None \<Rightarrow> Inr (addr, endpoint)
     | Some n \<Rightarrow>
         and_then (map_error Up_network (IP (Some n))) (\<lambda>ip.
         case SplitHostPort endpoint of
           None \<Rightarrow> Inl (Not_host_port endpoint)
         | Some (_, port) \<Rightarrow> Inr (ip, JoinHostPort ip port)))"

definition checkKubeEndpoint :: "(string \<Rightarrow> (string \<times> string) option) \<Rightarrow> string \<Rightarrow> string \<Rightarrow> up_error option" where
  "checkKubeEndpoint url endpoint installedAddr =
     (case url endpoint of
        None \<Rightarrow> Some (Kube_endpoint_no_host endpoint)
      | Some (_, host) \<Rightarrow>
          if host = '''' then Some (Kube_endpoint_no_host endpoint)
          else if host = installedAddr then None
          else Some (Kube_endpoint_moves endpoint host installedAddr))"

subsection \<open>State directory\<close>

definition ReadTalosconfig :: "('c, 'w) up_env \<Rightarrow> string \<Rightarrow> ('w run, up_failure, bytes option) effect" where
  "ReadTalosconfig e dir s =
     (let p = path_join [dir, ''talosconfig''] in
      if ue_read_fails e p then (Inl (F_read p), s) else (Inr (r_files s p), s))"

text \<open>An artifact is removed before it is written, so that it is created with mode 0600.\<close>

definition write_artifact :: "('c, 'w) up_env \<Rightarrow> string \<Rightarrow> string \<times> bytes \<Rightarrow> ('w run, up_failure, unit) effect" where
  "write_artifact e dir a s =
     (let p = path_join [dir, fst a] in
      case ue_write_fails e p of
        Some left \<Rightarrow> (Inl (F_write p), s\<lparr>r_files := (r_files s)(p := left)\<rparr>)
      | None \<Rightarrow> (Inr (), s\<lparr>r_files := (r_files s)(p \<mapsto> snd a), r_log := r_log s @ [Write p]\<rparr>))"

fun write_all :: "('c, 'w) up_env \<Rightarrow> string \<Rightarrow> (string \<times> bytes) list \<Rightarrow> ('w run, up_failure, unit) effect" where
  "write_all e dir [] = give ()"
| "write_all e dir (a # as) = then_do (write_artifact e dir a) (\<lambda>_. write_all e dir as)"

definition writeArtifacts :: "('c, 'w) up_env \<Rightarrow> string \<Rightarrow> (string \<times> bytes) list \<Rightarrow> ('w run, up_failure, unit) effect" where
  "writeArtifacts e dir artifacts = write_all e dir (ue_order e artifacts)"

subsection \<open>The calls behind the hooks\<close>

definition applyConfiguration :: "'w talos_api \<Rightarrow> string \<Rightarrow> bytes \<Rightarrow> 'w \<Rightarrow> (client_error + unit) \<times> 'w" where
  "applyConfiguration api endpoint cfg w =
     (case MaintenanceClient api endpoint of
        Inl err \<Rightarrow> (Inl err, w)
      | Inr cred \<Rightarrow>
          (case tl_apply api cred endpoint Apply_reboot cfg w of
             (Some f, w1) \<Rightarrow> (Inl (rpc_error ''applying the machine config'' f), w1)
           | (None, w1) \<Rightarrow> (Inr (), w1)))"

definition alreadyBootstrapped :: "client_error \<Rightarrow> bool" where
  "alreadyBootstrapped err = (StatusCode err = AlreadyExists)"

definition bootstrap_probe :: "(nat \<Rightarrow> 'w \<Rightarrow> rpc_failure option \<times> 'w) \<Rightarrow> ('w, unit) probe" where
  "bootstrap_probe call d w =
     (case call d w of
        (None, w1) \<Rightarrow> (Answered (), w1)
      | (Some f, w1) \<Rightarrow>
          (if fst f = FailedPrecondition \<or> fst f = Unavailable then Retry (rpc_error ''bootstrapping etcd'' f)
           else stopWaiting (rpc_error ''bootstrapping etcd'' f), w1))"

definition bootstrapWithRetry ::
  "'w clock \<Rightarrow> nat \<Rightarrow> (nat \<Rightarrow> 'w \<Rightarrow> rpc_failure option \<times> 'w) \<Rightarrow> 'w \<Rightarrow> (client_error + unit) \<times> 'w" where
  "bootstrapWithRetry c timeout call w = run_wait c timeout ''the node to accept a bootstrap'' (bootstrap_probe call) w"

definition bootstrapEtcd :: "'w talos_api \<Rightarrow> bytes \<Rightarrow> string \<Rightarrow> 'w \<Rightarrow> (client_error + unit) \<times> 'w" where
  "bootstrapEtcd api talosconfig endpoint w =
     (case AuthenticatedClient api talosconfig endpoint of
        Inl err \<Rightarrow> (Inl err, w)
      | Inr cred \<Rightarrow> bootstrapWithRetry (tl_clock api) bootstrapTimeout (tl_bootstrap api cred endpoint) w)"

definition kubeconfig_probe :: "'w talos_api \<Rightarrow> credential \<Rightarrow> string \<Rightarrow> ('w, bytes) probe" where
  "kubeconfig_probe api cred endpoint d w =
     (case tl_kubeconfig api cred endpoint d w of
        (Inl f, w1) \<Rightarrow> (Retry (rpc_error '''' f), w1)
      | (Inr k, w1) \<Rightarrow> (Answered k, w1))"

definition fetchKubeconfig :: "'w talos_api \<Rightarrow> bytes \<Rightarrow> string \<Rightarrow> 'w \<Rightarrow> (client_error + bytes) \<times> 'w" where
  "fetchKubeconfig api talosconfig endpoint w =
     (case AuthenticatedClient api talosconfig endpoint of
        Inl err \<Rightarrow> (Inl err, w)
      | Inr cred \<Rightarrow> run_wait (tl_clock api) kubeconfigTimeout (''an admin kubeconfig from '' @ endpoint)
                      (kubeconfig_probe api cred endpoint) w)"

text \<open>The generator runs without touching the world; the installer of the StorageClass is a parameter here.\<close>

definition realHooks ::
  "'w talos_api \<Rightarrow> ('c, 'i, 't, 'k, 'p) generator \<Rightarrow> (bytes \<Rightarrow> 'w \<Rightarrow> (string + unit) \<times> 'w) \<Rightarrow> 'w upHooks" where
  "realHooks api g storage =
     \<lparr>h_generateConfig = (\<lambda>inp w. (GenerateConfig g inp, w)),
      h_waitMaintenance = WaitMaintenance api,
      h_applyConfig = applyConfiguration api,
      h_waitBootstrapReady = WaitBootstrapReady api,
      h_waitNodeReadyAt = WaitNodeReadyAt api,
      h_bootstrap = bootstrapEtcd api,
      h_kubeconfig = fetchKubeconfig api,
      h_waitNodeReady = WaitNodeReady api,
      h_installStorage = storage\<rparr>"

subsection \<open>Configure\<close>

definition config_input :: "('c, 'w) up_env \<Rightarrow> UpOptions \<Rightarrow> string \<Rightarrow> ConfigInput" where
  "config_input e opts installedAddr =
     (let (joinEndpoint, secrets) =
            (case o_Join opts of None \<Rightarrow> ('''', []) | Some j \<Rightarrow> (j_ClusterEndpoint j, j_SecretsBundle j)) in
      \<lparr>in_ClusterName = o_ClusterName opts,
       in_Endpoint = controlPlaneEndpoint (o_KubeEndpoint opts) (o_ClusterNetwork opts) joinEndpoint,
       in_APIAddress = installedAddr, in_TalosVersion = o_TalosVersion opts,
       in_KubernetesVersion = o_KubernetesVersion opts, in_ConsoleArg = o_ConsoleArg opts,
       in_SystemDisk = o_SystemDisk opts, in_DataDiskSerial = o_DataDiskSerial opts,
       in_EphemeralMaxSize = o_EphemeralMaxSize opts, in_InstallerImage = o_InstallerImage opts,
       in_DisableKexec = o_DisableKexec opts, in_Network = o_Network opts, in_ClusterNetwork = o_ClusterNetwork opts,
       in_Hostname = o_Hostname opts,
       in_ExtraSubjectAltNames = hostSANs (ue_url e) (o_KubeEndpoint opts) (o_ClusterNetwork opts),
       in_Registries = o_Registries opts, in_ConfigPatches = o_ConfigPatches opts, in_SecretsBundle = secrets\<rparr>)"

definition config_artifacts :: "UpOptions \<Rightarrow> string \<Rightarrow> Generated \<Rightarrow> (string \<times> bytes) list" where
  "config_artifacts opts endpoint gen =
     [(''controlplane.yaml'', ControlPlane gen), (''talosconfig'', Talosconfig gen), (''secrets.yaml'', Secrets gen)]
     @ (if o_ClusterNetwork opts \<noteq> None then [(''cluster-endpoint'', endpoint @ [CHR 0x0A])] else [])"

definition configure ::
  "('c, 'w) up_env \<Rightarrow> UpOptions \<Rightarrow> string \<Rightarrow> string \<Rightarrow> ('w run, up_failure, bytes) effect" where
  "configure e opts installedAddr installed =
     (let inp = config_input e opts installedAddr in
      then_do (fails_as F_config (hook (Generate inp) (h_generateConfig (ue_hooks e) inp))) (\<lambda>gen.
      then_do (writeArtifacts e (o_StateDir opts) (config_artifacts opts (in_Endpoint inp) gen)) (\<lambda>_.
      then_do (step ''config'') (\<lambda>_.
      then_do (fails_as F_client (hook (Apply (o_TalosEndpoint opts) (ControlPlane gen))
                 (h_applyConfig (ue_hooks e) (o_TalosEndpoint opts) (ControlPlane gen)))) (\<lambda>_.
      then_do (fails_as F_client (hook (Wait_for ''bootstrap ready'')
                 (h_waitBootstrapReady (ue_hooks e) (Talosconfig gen) installed installTimeout))) (\<lambda>_.
      then_do (step ''apply-config'') (\<lambda>_. give (Talosconfig gen))))))))"

subsection \<open>The end of a join, and of a restart without quorum\<close>

definition joined :: "('c, 'w) up_env \<Rightarrow> UpOptions \<Rightarrow> JoinOptions \<Rightarrow> string \<Rightarrow> ('w run, up_failure, unit) effect" where
  "joined e opts j installedAddr =
     (let nodeAddr = (case o_ClusterNetwork opts of None \<Rightarrow> installedAddr | Some cn \<Rightarrow> addr_string (fst (cn_Address cn))) in
      then_do (writeArtifacts e (o_StateDir opts) [(''kubeconfig'', j_Kubeconfig j)]) (\<lambda>_.
      then_do (fails_as F_client (hook (Wait_for (''node at '' @ nodeAddr))
                 (h_waitNodeReadyAt (ue_hooks e) (j_Kubeconfig j) nodeAddr nodeReadyTimeout))) (\<lambda>_.
      then_do (step ''kubeconfig'') (\<lambda>_. step ''storage''))))"

definition awaitingQuorum :: "('w run, 'e, unit) effect" where
  "awaitingQuorum = then_do (step ''kubeconfig'') (\<lambda>_. step ''storage'')"

subsection \<open>Up\<close>

text \<open>What is refused before anything is done: the endpoints and the static network.\<close>

definition up_checks :: "('c, 'w) up_env \<Rightarrow> UpOptions \<Rightarrow> up_error + string \<times> string" where
  "up_checks e opts =
     (if o_TalosEndpoint opts = '''' then Inl No_talos_endpoint
      else if o_KubeEndpoint opts = '''' then Inl No_kube_endpoint
      else and_then (apiAddress (o_TalosEndpoint opts)) (\<lambda>maintenanceAddr.
           and_then (map_error Up_network (CheckNetwork (o_Network opts) maintenanceAddr)) (\<lambda>_.
           and_then (installedEndpoint (o_TalosEndpoint opts) (o_Network opts)) (\<lambda>(installedAddr, installed).
           case (if o_Network opts \<noteq> None then checkKubeEndpoint (ue_url e) (o_KubeEndpoint opts) installedAddr else None) of
             Some err \<Rightarrow> Inl err
           | None \<Rightarrow> Inr (installedAddr, installed)))))"

definition version_guard :: "('c, 'w) up_env \<Rightarrow> UpOptions \<Rightarrow> ('w run, up_error, unit) effect" where
  "version_guard e opts =
     (case CheckVersion (ue_machinery e) (o_TalosVersion opts) of
        (_, Some err) \<Rightarrow> then_do (step ''version guard'') (\<lambda>_. refuse (Up_version err))
      | (True, None) \<Rightarrow> step ''version guard''
      | (False, None) \<Rightarrow> then_do (step ''version guard'') (\<lambda>_. refuse Up_unknown_version))"

text \<open>Steps 5 to 7: a machine with a talosconfig resumes, any other one is configured.\<close>

definition reach_installed ::
  "('c, 'w) up_env \<Rightarrow> UpOptions \<Rightarrow> string \<Rightarrow> string \<Rightarrow> ('w run, up_failure, bytes) effect" where
  "reach_installed e opts installedAddr installed =
     then_do (ReadTalosconfig e (o_StateDir opts)) (\<lambda>found.
     case found of
       Some talosconfig \<Rightarrow>
         then_do (step ''maintenance'') (\<lambda>_.
         then_do (step ''config'') (\<lambda>_.
         then_do (fails_as F_client (hook (Wait_for ''bootstrap ready'')
                    (h_waitBootstrapReady (ue_hooks e) talosconfig installed installTimeout))) (\<lambda>_.
         then_do (step ''apply-config'') (\<lambda>_. give talosconfig))))
     | None \<Rightarrow>
         then_do (fails_as F_client (hook (Wait_for ''maintenance'')
                    (h_waitMaintenance (ue_hooks e) (o_TalosEndpoint opts) maintenanceTimeout))) (\<lambda>_.
         then_do (step ''maintenance'') (\<lambda>_. configure e opts installedAddr installed)))"

text \<open>Step 8: the flag is True when the node refused a second bootstrap.\<close>

definition bootstrap_step :: "('c, 'w) up_env \<Rightarrow> bytes \<Rightarrow> string \<Rightarrow> ('w run, up_failure, bool) effect" where
  "bootstrap_step e talosconfig installed s =
     (case hook (Bootstrap installed) (h_bootstrap (ue_hooks e) talosconfig installed) s of
        (Inr _, s1) \<Rightarrow> then_do (step ''bootstrap'') (\<lambda>_. give False) s1
      | (Inl err, s1) \<Rightarrow>
          if alreadyBootstrapped err then then_do (step ''bootstrap'') (\<lambda>_. give True) s1
          else (Inl (F_client err), s1))"

definition finish :: "('c, 'w) up_env \<Rightarrow> UpOptions \<Rightarrow> bytes \<Rightarrow> string \<Rightarrow> ('w run, up_failure, unit) effect" where
  "finish e opts talosconfig installed =
     then_do (fails_as F_client (hook Fetch_kubeconfig (h_kubeconfig (ue_hooks e) talosconfig installed))) (\<lambda>raw.
     then_do (if o_ClusterNetwork opts \<noteq> None
              then fails_as F_client (lift_result (KubeconfigWithServer (ue_api e) raw (o_KubeEndpoint opts)))
              else give raw) (\<lambda>kubeconfig.
     then_do (writeArtifacts e (o_StateDir opts) [(''kubeconfig'', kubeconfig)]) (\<lambda>_.
     then_do (fails_as F_client (hook (Wait_for ''node ready'')
                (h_waitNodeReady (ue_hooks e) kubeconfig nodeReadyTimeout))) (\<lambda>_.
     then_do (step ''kubeconfig'') (\<lambda>_.
     if \<not> hasUserVolume opts then step ''storage''
     else then_do (fails_as F_storage (hook Install_storage (h_installStorage (ue_hooks e) kubeconfig))) (\<lambda>_.
          step ''storage''))))))"

text \<open>Steps 1 to 4, which end with the machine booted.\<close>

definition up_prologue :: "('c, 'w) up_env \<Rightarrow> UpOptions \<Rightarrow> ('w run, up_error, string \<times> string) effect" where
  "up_prologue e opts =
     then_do (lift_result (up_checks e opts)) (\<lambda>addrs.
     then_do (step ''platform'') (\<lambda>_.
     then_do (step ''version'') (\<lambda>_.
     then_do (version_guard e opts) (\<lambda>_.
     then_do (fails_as Up_boot (hook Boot (ue_boot e))) (\<lambda>pid.
     then_do (step ''boot'') (\<lambda>_. give addrs))))))"

text \<open>Steps 8 to 10, once the installed system serves.\<close>

definition up_tail :: "('c, 'w) up_env \<Rightarrow> UpOptions \<Rightarrow> bytes \<Rightarrow> string \<Rightarrow> string \<Rightarrow> ('w run, up_error, unit) effect" where
  "up_tail e opts talosconfig installedAddr installed =
     (case o_Join opts of
        Some j \<Rightarrow> then_do (step ''bootstrap'') (\<lambda>_. fails_as Up_join_failed (joined e opts j installedAddr))
      | None \<Rightarrow>
          then_do (fails_as Up_failed (bootstrap_step e talosconfig installed)) (\<lambda>rejoined.
          if rejoined \<and> o_StoppedMembers opts \<noteq> [] then awaitingQuorum
          else fails_as Up_failed (finish e opts talosconfig installed)))"

definition Up :: "('c, 'w) up_env \<Rightarrow> UpOptions \<Rightarrow> ('w run, up_error, unit) effect" where
  "Up e opts =
     then_do (up_prologue e opts) (\<lambda>(installedAddr, installed).
     then_do (fails_as Up_failed (reach_installed e opts installedAddr installed)) (\<lambda>talosconfig.
     up_tail e opts talosconfig installedAddr installed))"

subsection \<open>Reading a log\<close>


text \<open>Nothing of \<open>E\<close> happened since the log was \<open>l0\<close>.\<close>

definition clean_since :: "event list \<Rightarrow> event set \<Rightarrow> 'w run \<Rightarrow> bool" where
  "clean_since l0 E s = (\<exists>l. r_log s = l0 @ l \<and> set l \<inter> E = {})"

lemma clean_since_start: "clean_since (r_log s) E s"
  by (simp add: clean_since_def)

lemma clean_since_snoc:
  "clean_since l0 E s \<Longrightarrow> ev \<notin> E \<Longrightarrow> r_log s' = r_log s @ [ev] \<Longrightarrow> clean_since l0 E s'"
  by (auto simp: clean_since_def)

lemma keeps_hook [keeping]: "ev \<notin> E \<Longrightarrow> keeps (clean_since l0 E) (hook ev f)"
  unfolding keeps_def by (rule tripleI) (auto simp: hook_def split: prod.splits elim: clean_since_snoc)

lemma keeps_step [keeping]: "Step l \<notin> E \<Longrightarrow> keeps (clean_since l0 E) (step l)"
  unfolding keeps_def by (rule tripleI) (auto simp: step_def elim: clean_since_snoc)

lemma keeps_write [keeping]: "range Write \<inter> E = {} \<Longrightarrow> keeps (clean_since l0 E) (write_artifact e dir a)"
  unfolding keeps_def
  by (rule tripleI) (auto simp: write_artifact_def Let_def clean_since_def disjoint_iff split: option.splits)

lemma keeps_write_all: "range Write \<inter> E = {} \<Longrightarrow> keeps (clean_since l0 E) (write_all e dir as)"
  by (induction "as") (auto intro!: keeping)

lemma keeps_writeArtifacts [keeping]: "range Write \<inter> E = {} \<Longrightarrow> keeps (clean_since l0 E) (writeArtifacts e dir as)"
  by (simp add: writeArtifacts_def keeps_write_all)

lemma keeps_ReadTalosconfig [keeping]: "keeps P (ReadTalosconfig e dir)"
  unfolding keeps_def by (rule tripleI) (auto simp: ReadTalosconfig_def Let_def split: if_splits)

lemma keeps_guard [keeping]: "Step ''version guard'' \<notin> E \<Longrightarrow> keeps (clean_since l0 E) (version_guard e opts)"
  unfolding version_guard_def by (auto intro!: keeping split: prod.split option.split bool.split)

lemma keeps_bootstrap_step [keeping]:
  "Bootstrap ep \<notin> E \<Longrightarrow> Step ''bootstrap'' \<notin> E \<Longrightarrow> keeps (clean_since l0 E) (bootstrap_step e tc ep)"
  unfolding keeps_def
  by (rule tripleI)
    (auto simp: bootstrap_step_def hook_def then_do_def step_def give_def clean_since_def split: prod.splits sum.splits if_splits)

lemma keeps_prod [keeping]: "(\<And>a b. x = (a, b) \<Longrightarrow> keeps P (f a b)) \<Longrightarrow> keeps P (case x of (a, b) \<Rightarrow> f a b)"
  by (cases x) auto

lemmas up_parts = Up_def up_prologue_def up_tail_def reach_installed_def configure_def joined_def awaitingQuorum_def finish_def

text \<open>
  A node that joins a cluster never bootstraps etcd and never installs a StorageClass: whatever
  the hooks answer and however far the run gets, no such call is made.
\<close>

theorem Up_join_never_bootstraps:
  assumes "o_Join opts = Some j" "Up e opts s = (r, s')"
  shows "clean_since (r_log s) (range Bootstrap \<union> {Install_storage}) s'"
proof -
  have "keeps (clean_since (r_log s) (range Bootstrap \<union> {Install_storage})) (Up e opts)"
    unfolding up_parts Let_def by (auto simp: assms(1) intro!: keeping split: option.split)
  from keepsD [OF this clean_since_start assms(2)] show ?thesis .
qed

text \<open>What \<^verbatim>\<open>Up\<close> demands of its options before it acts, spelled out.\<close>

definition guards_pass :: "('c, 'w) up_env \<Rightarrow> UpOptions \<Rightarrow> bool" where
  "guards_pass e opts =
     (o_TalosEndpoint opts \<noteq> '''' \<and> o_KubeEndpoint opts \<noteq> ''''
      \<and> (\<exists>host. apiAddress (o_TalosEndpoint opts) = Inr host \<and> CheckNetwork (o_Network opts) host = Inr ())
      \<and> (o_Network opts \<noteq> None \<longrightarrow>
           (\<exists>ip. IP (o_Network opts) = Inr ip \<and> checkKubeEndpoint (ue_url e) (o_KubeEndpoint opts) ip = None))
      \<and> (\<exists>img gen. ParseContract (ue_machinery e) (o_TalosVersion opts) = Some img
           \<and> ParseContract (ue_machinery e) (VersionTag (ue_machinery e)) = Some gen \<and> \<not> Greater (ue_machinery e) img gen))"

lemma up_checks_pass:
  "up_checks e opts = Inr p \<Longrightarrow> CheckVersion (ue_machinery e) (o_TalosVersion opts) = (True, None) \<Longrightarrow> guards_pass e opts"
  by (cases p) (auto simp: guards_pass_def up_checks_def CheckVersion_def checkVersion_def installedEndpoint_def result_simps
      split: if_splits option.splits prod.splits)


subsection \<open>The files of the state directory\<close>

definition state_path :: "string \<Rightarrow> bool" where
  "state_path dir = (\<exists>cs. dir = abs_path cs \<and> cs \<noteq> [] \<and> list_all plain_comp cs)"

lemma artifact_path_inj:
  assumes "state_path dir" "plain_comp f" "plain_comp g" "path_join [dir, f] = path_join [dir, g]"
  shows "f = g"
proof -
  from assms(1) obtain cs where cs: "dir = abs_path cs" "cs \<noteq> []" "list_all plain_comp cs" by (auto simp: state_path_def)
  then have "abs_path (cs @ [f]) = abs_path (cs @ [g])" using assms(2-4) by (simp add: path_join_abs)
  then have "split_on CHR ''/'' (abs_path (cs @ [f])) = split_on CHR ''/'' (abs_path (cs @ [g]))" by simp
  then show "f = g" using cs(3) assms(2,3) by (simp add: split_abs_path)
qed

lemma artifact_names: "plain_comp ''talosconfig''" "plain_comp ''secrets.yaml''" "plain_comp ''kubeconfig''"
  "plain_comp ''controlplane.yaml''" "plain_comp ''cluster-endpoint''"
  by (simp_all add: plain_comp_def)

lemma artifact_paths_distinct:
  assumes "state_path dir" "distinct (map fst as)" "\<forall>a \<in> set as. plain_comp (fst a)"
  shows "distinct (map (\<lambda>a. path_join [dir, fst a]) as)"
proof -
  have "inj_on (\<lambda>f. path_join [dir, f]) (set (map fst as))"
    using artifact_path_inj [OF assms(1)] assms(3) by (auto intro: inj_onI)
  then have "distinct (map (\<lambda>f. path_join [dir, f]) (map fst as))" using assms(2) by (simp only: distinct_map simp_thms)
  then show ?thesis by (simp add: comp_def)
qed

text \<open>Which files a run must not touch from here on, with their contents.\<close>

definition holds_files :: "(string \<rightharpoonup> bytes) \<Rightarrow> 'w run \<Rightarrow> bool" where
  "holds_files F s = (\<forall>p b. F p = Some b \<longrightarrow> r_files s p = Some b)"

lemma files_hook [keeping]: "keeps (holds_files F) (hook ev f)"
  unfolding keeps_def by (rule tripleI) (auto simp: hook_def holds_files_def split: prod.splits)

lemma files_step [keeping]: "keeps (holds_files F) (step l)"
  unfolding keeps_def by (rule tripleI) (auto simp: step_def holds_files_def)

lemma files_write [keeping]: "F (path_join [dir, fst a]) = None \<Longrightarrow> keeps (holds_files F) (write_artifact e dir a)"
  unfolding keeps_def
  by (rule tripleI) (auto simp: write_artifact_def Let_def holds_files_def split: option.splits if_splits)

lemma files_write_all: "\<forall>a \<in> set as. F (path_join [dir, fst a]) = None \<Longrightarrow> keeps (holds_files F) (write_all e dir as)"
  by (induction "as") (auto intro!: keeping)

lemma files_writeArtifacts [keeping]:
  "set (ue_order e as) = set as \<Longrightarrow> \<forall>a \<in> set as. F (path_join [dir, fst a]) = None \<Longrightarrow>
   keeps (holds_files F) (writeArtifacts e dir as)"
  by (simp add: writeArtifacts_def files_write_all)

lemma files_bootstrap_step [keeping]: "keeps (holds_files F) (bootstrap_step e tc ep)"
  unfolding keeps_def
  by (rule tripleI)
    (auto simp: bootstrap_step_def hook_def then_do_def step_def give_def holds_files_def split: prod.splits sum.splits if_splits)

lemma files_guard [keeping]: "keeps (holds_files F) (version_guard e opts)"
  unfolding version_guard_def by (auto intro!: keeping split: prod.split option.split bool.split)

lemma write_all_writes:
  assumes "write_all e dir as s = (Inr (), s')" "distinct (map (\<lambda>a. path_join [dir, fst a]) as)" "a \<in> set as"
  shows "r_files s' (path_join [dir, fst a]) = Some (snd a)"
  using assms
proof (induction "as" arbitrary: s)
  case (Cons b bs)
  from Cons.prems(1) obtain s1 where s1: "write_artifact e dir b s = (Inr (), s1)" "write_all e dir bs s1 = (Inr (), s')"
    by (auto simp: then_do_def split: prod.splits sum.splits)
  show ?case
  proof (cases "a = b")
    case True
    let ?F = "[path_join [dir, fst b] \<mapsto> snd b]"
    have "holds_files ?F s1" using s1(1) by (auto simp: write_artifact_def Let_def holds_files_def split: option.splits)
    moreover have "keeps (holds_files ?F) (write_all e dir bs)"
      using Cons.prems(2) by (intro files_write_all) (auto simp: image_iff)
    ultimately have "holds_files ?F s'" using s1(2) by (blast intro: keepsD)
    with True show ?thesis by (auto simp: holds_files_def)
  qed (use Cons s1(2) in auto)
qed simp

definition credentials :: "string \<Rightarrow> Generated \<Rightarrow> string \<rightharpoonup> bytes" where
  "credentials dir gen = [path_join [dir, ''talosconfig''] \<mapsto> Talosconfig gen, path_join [dir, ''secrets.yaml''] \<mapsto> Secrets gen]"

lemma writeArtifacts_credentials:
  assumes "state_path dir" "mset (ue_order e (config_artifacts opts ep gen)) = mset (config_artifacts opts ep gen)"
    and "writeArtifacts e dir (config_artifacts opts ep gen) s = (Inr (), s')"
  shows "holds_files (credentials dir gen) s'"
proof -
  let ?as = "config_artifacts opts ep gen"
  have "distinct (map (\<lambda>a. path_join [dir, fst a]) ?as)"
    by (rule artifact_paths_distinct [OF assms(1)]) (auto simp: config_artifacts_def artifact_names)
  then have "distinct (map (\<lambda>a. path_join [dir, fst a]) (ue_order e ?as))"
    using mset_eq_imp_distinct_iff [of "map (\<lambda>a. path_join [dir, fst a]) (ue_order e ?as)" "map (\<lambda>a. path_join [dir, fst a]) ?as"]
      assms(2) by simp
  moreover have "set (ue_order e ?as) = set ?as" using assms(2) by (rule mset_eq_setD)
  ultimately have w: "r_files s' (path_join [dir, fst a]) = Some (snd a)" if "a \<in> set ?as" for a
    using write_all_writes [OF assms(3) [unfolded writeArtifacts_def]] that by simp
  have "path_join [dir, ''talosconfig''] \<noteq> path_join [dir, ''secrets.yaml'']"
    using artifact_path_inj [OF assms(1) artifact_names(1,2)] by auto
  then show ?thesis
    using w [of "(''talosconfig'', Talosconfig gen)"] w [of "(''secrets.yaml'', Secrets gen)"]
    by (auto simp: holds_files_def credentials_def config_artifacts_def split: if_splits)
qed

subsection \<open>A configured machine is never configured again\<close>

definition safe_since :: "event list \<Rightarrow> event set \<Rightarrow> (string \<rightharpoonup> bytes) \<Rightarrow> 'w run \<Rightarrow> bool" where
  "safe_since l0 E F s = (clean_since l0 E s \<and> holds_files F s)"

lemma keeps_safe: "keeps (clean_since l0 E) m \<Longrightarrow> keeps (holds_files F) m \<Longrightarrow> keeps (safe_since l0 E F) m"
  using keeps_conj [of "clean_since l0 E" m "holds_files F"] by (simp add: safe_since_def [abs_def])

lemmas safe_calls [keeping] =
  keeps_safe [OF keeps_hook files_hook] keeps_safe [OF keeps_step files_step]
  keeps_safe [OF keeps_writeArtifacts files_writeArtifacts] keeps_safe [OF keeps_guard files_guard]
  keeps_safe [OF keeps_bootstrap_step files_bootstrap_step]

definition applies :: "event set" where
  "applies = {ev. \<exists>ep cfg. ev = Apply ep cfg}"

definition installs :: "event set" where
  "installs = range Generate \<union> applies"

lemma not_installs [simp]:
  "Step l \<notin> installs" "Boot \<notin> installs" "Write p \<notin> installs" "Bootstrap ep \<notin> installs" "Wait_for x \<notin> installs"
  "Fetch_kubeconfig \<notin> installs" "Install_storage \<notin> installs" "range Write \<inter> installs = {}"
  by (auto simp: installs_def applies_def)

text \<open>What a machine with a talosconfig is spared: an installation, and the questions that only a maintenance system answers.\<close>

definition reinstalls :: "event set" where
  "reinstalls = installs \<union> Wait_for ` {''maintenance'', ''disks'', ''links''}"

lemma not_reinstalls:
  "Step l \<notin> reinstalls" "Boot \<notin> reinstalls" "Write p \<notin> reinstalls" "Bootstrap ep \<notin> reinstalls" "range Write \<inter> reinstalls = {}"
  "x \<notin> {''maintenance'', ''disks'', ''links''} \<Longrightarrow> Wait_for x \<notin> reinstalls" "Fetch_kubeconfig \<notin> reinstalls" "Install_storage \<notin> reinstalls"
  by (auto simp: reinstalls_def)

lemma kubeconfig_apart:
  "state_path dir \<Longrightarrow> path_join [dir, ''kubeconfig''] \<noteq> path_join [dir, ''talosconfig'']"
  "state_path dir \<Longrightarrow> path_join [dir, ''kubeconfig''] \<noteq> path_join [dir, ''secrets.yaml'']"
  using artifact_path_inj [of dir, OF _ artifact_names(3,1)] artifact_path_inj [of dir, OF _ artifact_names(3,2)] by auto

lemma reach_installed_resumes:
  assumes "F (path_join [o_StateDir opts, ''talosconfig'']) = Some tc"
  shows "keeps (safe_since l0 reinstalls F) (reach_installed e opts a i)"
  unfolding keeps_def reach_installed_def
proof (rule triple_then)
  show "triple (safe_since l0 reinstalls F) (ReadTalosconfig e (o_StateDir opts))
      (\<lambda>found s. found = Some tc \<and> safe_since l0 reinstalls F s) (safe_since l0 reinstalls F)"
    using assms
    by (intro tripleI) (auto simp: ReadTalosconfig_def Let_def safe_since_def holds_files_def split: if_splits)
next
  fix found
  show "triple (\<lambda>s. found = Some tc \<and> safe_since l0 reinstalls F s)
      (case found of
         Some talosconfig \<Rightarrow>
           then_do (step ''maintenance'') (\<lambda>_.
           then_do (step ''config'') (\<lambda>_.
           then_do (fails_as F_client (hook (Wait_for ''bootstrap ready'')
                      (h_waitBootstrapReady (ue_hooks e) talosconfig i installTimeout))) (\<lambda>_.
           then_do (step ''apply-config'') (\<lambda>_. give talosconfig))))
       | None \<Rightarrow>
           then_do (fails_as F_client (hook (Wait_for ''maintenance'')
                      (h_waitMaintenance (ue_hooks e) (o_TalosEndpoint opts) maintenanceTimeout))) (\<lambda>_.
           then_do (step ''maintenance'') (\<lambda>_. configure e opts a i)))
      (\<lambda>_. safe_since l0 reinstalls F) (safe_since l0 reinstalls F)"
  proof (cases "found = Some tc")
    case True
    then show ?thesis by (simp add: keeps_def [symmetric]) (auto intro!: keeping simp: not_reinstalls)
  qed (simp add: triple_def)
qed

lemma Up_resumes_safely:
  assumes "state_path (o_StateDir opts)" "\<forall>as. set (ue_order e as) = set as"
    and "F = [path_join [o_StateDir opts, ''talosconfig''] \<mapsto> tc]"
  shows "keeps (safe_since l0 reinstalls F) (Up e opts)"
proof -
  have "keeps (safe_since l0 reinstalls F) (reach_installed e opts a i)" for a i
    using assms(3) by (intro reach_installed_resumes) simp
  moreover have "F (path_join [o_StateDir opts, ''kubeconfig'']) = None"
    using assms(3) kubeconfig_apart(1) [OF assms(1)] by simp
  ultimately show ?thesis
    unfolding Up_def up_prologue_def up_tail_def joined_def awaitingQuorum_def finish_def Let_def
    using assms(2) by (auto intro!: keeping simp: not_reinstalls split: option.split)
qed

subsection \<open>No config without its credentials\<close>

definition other_applies :: "Generated \<Rightarrow> event set" where
  "other_applies gen = {ev. \<exists>ep cfg. ev = Apply ep cfg \<and> cfg \<noteq> ControlPlane gen}"

text \<open>Either no config was sent, or the one that was sent left its talosconfig and its secrets on disk.\<close>

definition recoverable :: "event list \<Rightarrow> string \<Rightarrow> 'w run \<Rightarrow> bool" where
  "recoverable l0 dir s = (clean_since l0 applies s \<or> (\<exists>gen. safe_since l0 (other_applies gen) (credentials dir gen) s))"

lemma keeps_recoverable:
  assumes "keeps (clean_since l0 applies) m" "\<And>gen. keeps (safe_since l0 (other_applies gen) (credentials dir gen)) m"
  shows "keeps (recoverable l0 dir) m"
  unfolding recoverable_def [abs_def] by (intro keeps_disj keeps_ex assms)

lemma not_applies [simp]:
  "Step l \<notin> applies" "Boot \<notin> applies" "Bootstrap ep \<notin> applies" "Wait_for x \<notin> applies"
  "Fetch_kubeconfig \<notin> applies" "Install_storage \<notin> applies" "Generate inp \<notin> applies" "range Write \<inter> applies = {}"
  "Step l \<notin> other_applies gen" "Bootstrap ep \<notin> other_applies gen" "Wait_for x \<notin> other_applies gen"
  "Fetch_kubeconfig \<notin> other_applies gen" "Install_storage \<notin> other_applies gen" "range Write \<inter> other_applies gen = {}"
  "Apply ep (ControlPlane gen) \<notin> other_applies gen" "Write p \<notin> applies" "Write p \<notin> other_applies gen"
  by (auto simp: applies_def other_applies_def)

lemma clean_other: "clean_since l0 applies s \<Longrightarrow> clean_since l0 (other_applies gen) s"
  by (auto simp: clean_since_def applies_def other_applies_def)

lemma configure_recoverable:
  assumes "state_path (o_StateDir opts)" "\<forall>as. mset (ue_order e as) = mset as"
  shows "triple (clean_since l0 applies) (configure e opts a i) (\<lambda>_. recoverable l0 (o_StateDir opts)) (recoverable l0 (o_StateDir opts))"
    (is "triple ?C _ _ ?J")
proof -
  let ?inp = "config_input e opts a"
  have CJ: "?C s \<Longrightarrow> ?J s" for s :: "'b run" by (simp add: recoverable_def)
  have gen: "triple ?C (fails_as F_config (hook (Generate ?inp) (h_generateConfig (ue_hooks e) ?inp))) (\<lambda>_. ?C) ?J"
    by (rule triple_quiet) (auto intro!: CJ keeping)
  have artifacts: "triple ?C (writeArtifacts e (o_StateDir opts) (config_artifacts opts ep g))
      (\<lambda>_. safe_since l0 (other_applies g) (credentials (o_StateDir opts) g)) ?J" for ep g
  proof (rule tripleI)
    fix s x s'
    assume C: "?C s" and w: "writeArtifacts e (o_StateDir opts) (config_artifacts opts ep g) s = (Inr x, s')"
    have "clean_since l0 (other_applies g) s'" using keepsD [OF keeps_writeArtifacts C w] clean_other by simp
    moreover have "holds_files (credentials (o_StateDir opts) g) s'"
      using w assms(2) by (intro writeArtifacts_credentials [OF assms(1)]) auto
    ultimately show "safe_since l0 (other_applies g) (credentials (o_StateDir opts) g) s'" by (simp add: safe_since_def)
  next
    fix s err s'
    assume "?C s" "writeArtifacts e (o_StateDir opts) (config_artifacts opts ep g) s = (Inl err, s')"
    then show "?J s'" using keepsD [OF keeps_writeArtifacts] CJ not_applies(8) by blast
  qed
  have rest: "triple (safe_since l0 (other_applies g) (credentials (o_StateDir opts) g))
      (then_do (step ''config'') (\<lambda>_.
       then_do (fails_as F_client (hook (Apply (o_TalosEndpoint opts) (ControlPlane g))
                  (h_applyConfig (ue_hooks e) (o_TalosEndpoint opts) (ControlPlane g)))) (\<lambda>_.
       then_do (fails_as F_client (hook (Wait_for ''bootstrap ready'')
                  (h_waitBootstrapReady (ue_hooks e) (Talosconfig g) i installTimeout))) (\<lambda>_.
       then_do (step ''apply-config'') (\<lambda>_. give (Talosconfig g)))))) (\<lambda>_. ?J) ?J" for g
    by (rule triple_keeps [of "safe_since l0 (other_applies g) (credentials (o_StateDir opts) g)"])
      (auto intro!: keeping simp: recoverable_def)
  show ?thesis unfolding configure_def Let_def by (rule triple_then [OF gen triple_then [OF artifacts rest]])
qed

lemma reach_installed_recoverable:
  assumes "state_path (o_StateDir opts)" "\<forall>as. mset (ue_order e as) = mset as"
  shows "triple (clean_since l0 applies) (reach_installed e opts a i) (\<lambda>_. recoverable l0 (o_StateDir opts))
    (recoverable l0 (o_StateDir opts))"
    (is "triple ?C _ _ ?J")
proof -
  have CJ: "?C s \<Longrightarrow> ?J s" for s :: "'b run" by (simp add: recoverable_def)
  show ?thesis
    unfolding reach_installed_def
  proof (rule triple_then)
    show "triple ?C (ReadTalosconfig e (o_StateDir opts)) (\<lambda>_. ?C) ?J"
      by (rule triple_quiet) (auto intro!: CJ keeping)
  next
    fix found
    show "triple ?C
      (case found of
         Some talosconfig \<Rightarrow>
           then_do (step ''maintenance'') (\<lambda>_.
           then_do (step ''config'') (\<lambda>_.
           then_do (fails_as F_client (hook (Wait_for ''bootstrap ready'')
                      (h_waitBootstrapReady (ue_hooks e) talosconfig i installTimeout))) (\<lambda>_.
           then_do (step ''apply-config'') (\<lambda>_. give talosconfig))))
       | None \<Rightarrow>
           then_do (fails_as F_client (hook (Wait_for ''maintenance'')
                      (h_waitMaintenance (ue_hooks e) (o_TalosEndpoint opts) maintenanceTimeout))) (\<lambda>_.
           then_do (step ''maintenance'') (\<lambda>_. configure e opts a i))) (\<lambda>_. ?J) ?J"
    proof (cases found)
      case None
      have 1: "triple ?C (fails_as F_client (hook (Wait_for ''maintenance'')
                      (h_waitMaintenance (ue_hooks e) (o_TalosEndpoint opts) maintenanceTimeout))) (\<lambda>_. ?C) ?J"
        and 2: "triple ?C (step ''maintenance'') (\<lambda>_. ?C) ?J"
        by (auto intro!: triple_quiet CJ keeping)
      show ?thesis
        unfolding None option.case by (rule triple_then [OF 1 triple_then [OF 2 configure_recoverable [OF assms]]])
    next
      case (Some tc)
      then show ?thesis using CJ by (auto intro!: triple_keeps [of ?C] keeping)
    qed
  qed
qed

lemma Up_recoverable:
  assumes "state_path (o_StateDir opts)" "\<forall>as. mset (ue_order e as) = mset as"
  shows "triple (clean_since l0 applies) (Up e opts) (\<lambda>_. recoverable l0 (o_StateDir opts)) (recoverable l0 (o_StateDir opts))"
    (is "triple ?C _ _ ?J")
proof -
  have order: "set (ue_order e as) = set as" for "as" using assms(2) by (metis mset_eq_setD)
  have CJ: "?C s \<Longrightarrow> ?J s" for s :: "'b run" by (simp add: recoverable_def)
  have apart: "credentials (o_StateDir opts) gen (path_join [o_StateDir opts, ''kubeconfig'']) = None" for gen
    using kubeconfig_apart [OF assms(1)] by (simp add: credentials_def)
  have tail: "keeps ?J (up_tail e opts tc a i)" for tc a i
    unfolding up_tail_def joined_def awaitingQuorum_def finish_def Let_def
    by (rule keeps_recoverable) (auto intro!: keeping simp: order apart split: option.split)
  have prologue: "triple ?C (up_prologue e opts) (\<lambda>_. ?C) ?J"
    unfolding up_prologue_def by (rule triple_quiet) (auto intro!: keeping CJ)
  have reach: "triple ?C (fails_as Up_failed (reach_installed e opts a i)) (\<lambda>_. ?J) ?J" for a i
    by (rule triple_fails_as [OF reach_installed_recoverable [OF assms]])
  show ?thesis
    unfolding Up_def
  proof (rule triple_then [OF prologue])
    fix addrs
    show "triple ?C (case addrs of (installedAddr, installed) \<Rightarrow>
        then_do (fails_as Up_failed (reach_installed e opts installedAddr installed)) (\<lambda>talosconfig.
        up_tail e opts talosconfig installedAddr installed)) (\<lambda>_. ?J) ?J"
      using triple_then [OF reach tail [unfolded keeps_def]] by (simp split: prod.split)
  qed
qed


text \<open>
  C12. A node is installed once: after a run that applied a config to it, no later run over the same
  state directory generates or applies another one, and the talosconfig of the first stays.
\<close>

theorem Up_installs_once:
  assumes "state_path (o_StateDir opts)" "\<forall>as. mset (ue_order e as) = mset as" "\<forall>as. mset (ue_order e' as) = mset as"
    and "Up e opts s = (r, s1)" "\<not> clean_since (r_log s) applies s1"
    and "o_StateDir opts' = o_StateDir opts" "r_files s2 = r_files s1" "Up e' opts' s2 = (r', s3)"
  shows "clean_since (r_log s2) installs s3
    \<and> r_files s3 (path_join [o_StateDir opts, ''talosconfig'']) = r_files s1 (path_join [o_StateDir opts, ''talosconfig''])"
proof -
  let ?p = "path_join [o_StateDir opts, ''talosconfig'']"
  have "recoverable (r_log s) (o_StateDir opts) s1"
    using tripleD_both [OF Up_recoverable [OF assms(1,2)] clean_since_start assms(4)] .
  with assms(5) obtain gen where "holds_files (credentials (o_StateDir opts) gen) s1"
    by (auto simp: recoverable_def safe_since_def)
  moreover have "?p \<noteq> path_join [o_StateDir opts, ''secrets.yaml'']"
    using artifact_path_inj [OF assms(1) artifact_names(1,2)] by auto
  ultimately have tc: "r_files s1 ?p = Some (Talosconfig gen)" by (auto simp: holds_files_def credentials_def)
  let ?F = "[?p \<mapsto> Talosconfig gen]"
  have "safe_since (r_log s2) reinstalls ?F s2"
    using tc assms(7) by (simp add: safe_since_def clean_since_start holds_files_def)
  moreover have "set (ue_order e' as) = set as" for "as" using assms(3) by (metis mset_eq_setD)
  then have "keeps (safe_since (r_log s2) reinstalls ?F) (Up e' opts')"
    using assms(1,6) by (intro Up_resumes_safely) auto
  ultimately have "safe_since (r_log s2) reinstalls ?F s3" using assms(8) by (blast intro: keepsD)
  with tc show ?thesis by (auto simp: safe_since_def holds_files_def clean_since_def reinstalls_def)
qed

subsection \<open>Ten steps\<close>

definition steps_of :: "event list \<Rightarrow> string list" where
  "steps_of l = List.map_filter (\<lambda>ev. case ev of Step label \<Rightarrow> Some label | _ \<Rightarrow> None) l"

lemma steps_of_simps [simp]:
  "steps_of [] = []" "steps_of (l @ l') = steps_of l @ steps_of l'" "steps_of (Step x # l) = x # steps_of l"
  by (simp_all add: steps_of_def map_filter_def)

text \<open>What a call prints when it succeeds.\<close>

definition prints :: "string list \<Rightarrow> ('w run, 'e, 'a) effect \<Rightarrow> bool" where
  "prints ls m = (\<forall>s x s'. m s = (Inr x, s') \<longrightarrow> steps_of (r_log s') = steps_of (r_log s) @ ls)"

lemma prints_step_then: "(\<And>x. prints ls (f x)) \<Longrightarrow> prints (l # ls) (then_do (step l) f)"
  by (auto simp: prints_def then_do_def step_def)

lemma prints_then: "prints [] m \<Longrightarrow> (\<And>x. prints ls (f x)) \<Longrightarrow> prints ls (then_do m f)"
  unfolding prints_def then_do_def by (auto split: prod.splits sum.splits)

lemma prints_append: "prints l1 m \<Longrightarrow> (\<And>x. prints l2 (f x)) \<Longrightarrow> prints (l1 @ l2) (then_do m f)"
  unfolding prints_def then_do_def by (auto split: prod.splits sum.splits)

lemma prints_step: "prints [l] (step l)" by (auto simp: prints_def step_def)

lemma prints_silent:
  "prints [] (give x)" "prints ls (refuse e)" "prints [] (lift_result r)" "prints [] (ReadTalosconfig env dir)"
  by (auto simp: prints_def give_def refuse_def lift_result_def ReadTalosconfig_def Let_def split: if_splits)

lemma prints_fails_as: "prints ls m \<Longrightarrow> prints ls (fails_as g m)"
  by (auto simp: prints_def fails_as_def result_simps split: prod.splits)

lemma prints_hook: "(\<And>l. ev \<noteq> Step l) \<Longrightarrow> prints [] (hook ev f)"
  by (cases ev) (auto simp: prints_def hook_def steps_of_def map_filter_def split: prod.splits)

lemma prints_writeArtifacts: "prints [] (writeArtifacts e dir as)"
proof -
  have "prints [] (write_artifact e dir a)" for a
    by (auto simp: prints_def write_artifact_def Let_def steps_of_def map_filter_def split: option.splits)
  then have "prints [] (write_all e dir xs)" for xs
    by (induction xs) (auto intro!: prints_then prints_silent)
  then show ?thesis by (simp add: writeArtifacts_def)
qed

lemma prints_if: "prints ls m \<Longrightarrow> prints ls n \<Longrightarrow> prints ls (if b then m else n)" by simp

lemmas prints_rules = prints_step_then prints_if prints_fails_as prints_step prints_silent prints_writeArtifacts prints_hook prints_then

lemma prints_guard: "prints [''version guard''] (version_guard e opts)"
  unfolding version_guard_def
  by (auto simp: prints_def then_do_def step_def refuse_def split: prod.splits option.splits bool.splits)

lemma prints_prologue: "prints [''platform'', ''version'', ''version guard'', ''boot''] (up_prologue e opts)"
proof -
  have boot: "prints [''boot''] (then_do (fails_as Up_boot (hook Boot (ue_boot e))) (\<lambda>pid. then_do (step ''boot'') (\<lambda>_. give x)))" for x
    by (rule prints_rules | simp)+
  have guard: "prints [''version guard'', ''boot''] (then_do (version_guard e opts) (\<lambda>_.
      then_do (fails_as Up_boot (hook Boot (ue_boot e))) (\<lambda>pid. then_do (step ''boot'') (\<lambda>_. give x))))" for x
    using prints_append [OF prints_guard boot] by simp
  show ?thesis
    unfolding up_prologue_def
    by (rule prints_then [OF prints_silent(3) prints_step_then [OF prints_step_then [OF guard]]])
qed

lemma prints_configure: "prints [''config'', ''apply-config''] (configure e opts a i)"
  unfolding configure_def Let_def by (rule prints_rules | simp)+

lemma prints_reach: "prints [''maintenance'', ''config'', ''apply-config''] (reach_installed e opts a i)"
  unfolding reach_installed_def
proof (rule prints_then [OF prints_silent(4)])
  fix found
  show "prints [''maintenance'', ''config'', ''apply-config'']
      (case found of
         Some talosconfig \<Rightarrow>
           then_do (step ''maintenance'') (\<lambda>_.
           then_do (step ''config'') (\<lambda>_.
           then_do (fails_as F_client (hook (Wait_for ''bootstrap ready'')
                      (h_waitBootstrapReady (ue_hooks e) talosconfig i installTimeout))) (\<lambda>_.
           then_do (step ''apply-config'') (\<lambda>_. give talosconfig))))
       | None \<Rightarrow>
           then_do (fails_as F_client (hook (Wait_for ''maintenance'')
                      (h_waitMaintenance (ue_hooks e) (o_TalosEndpoint opts) maintenanceTimeout))) (\<lambda>_.
           then_do (step ''maintenance'') (\<lambda>_. configure e opts a i)))"
  proof (cases found)
    case None
    show ?thesis
      unfolding None option.case
      by (rule prints_then [OF prints_fails_as [OF prints_hook] prints_step_then [OF prints_configure]]) simp
  next
    case (Some tc)
    show ?thesis unfolding Some option.case by (rule prints_rules | simp)+
  qed
qed

lemma prints_bootstrap: "prints [''bootstrap''] (bootstrap_step e tc i)"
  by (auto simp: prints_def bootstrap_step_def hook_def then_do_def step_def give_def steps_of_def map_filter_def
      split: prod.splits sum.splits if_splits)

lemma prints_finish: "prints [''kubeconfig'', ''storage''] (finish e opts tc i)"
  unfolding finish_def by (rule prints_rules | simp)+

lemma prints_tail: "prints [''bootstrap'', ''kubeconfig'', ''storage''] (up_tail e opts tc a i)"
proof (cases "o_Join opts")
  case None
  have "prints [''kubeconfig'', ''storage''] (if rejoined \<and> o_StoppedMembers opts \<noteq> [] then awaitingQuorum
      else fails_as Up_failed (finish e opts tc i))" for rejoined
    unfolding awaitingQuorum_def by (rule prints_if [OF _ prints_fails_as [OF prints_finish]] prints_rules)+
  from prints_append [OF prints_fails_as [OF prints_bootstrap] this]
  show ?thesis unfolding up_tail_def None by simp
next
  case (Some j)
  show ?thesis unfolding up_tail_def Some option.case joined_def Let_def by (rule prints_rules | simp)+
qed

text \<open>
  A successful run prints its ten steps, each once and in order, whether it configured the node,
  resumed, joined a cluster or stopped to wait for quorum.
\<close>

theorem Up_ten_steps:
  assumes "Up e opts s = (Inr (), s')"
  shows "\<exists>l. steps_of (r_log s') = steps_of (r_log s) @ l \<and> length l = upSteps
    \<and> l = [''platform'', ''version'', ''version guard'', ''boot'', ''maintenance'', ''config'', ''apply-config'',
           ''bootstrap'', ''kubeconfig'', ''storage'']"
proof -
  have "prints ([''maintenance'', ''config'', ''apply-config''] @ [''bootstrap'', ''kubeconfig'', ''storage''])
      (case addrs of (a, i) \<Rightarrow> then_do (fails_as Up_failed (reach_installed e opts a i)) (\<lambda>tc. up_tail e opts tc a i))" for addrs
    using prints_append [OF prints_fails_as [OF prints_reach] prints_tail] by (cases addrs) simp
  from prints_append [OF prints_prologue this] have "prints
      ([''platform'', ''version'', ''version guard'', ''boot''] @ [''maintenance'', ''config'', ''apply-config'']
        @ [''bootstrap'', ''kubeconfig'', ''storage'']) (Up e opts)"
    unfolding Up_def by simp
  with assms show ?thesis by (auto simp: prints_def upSteps_def)
qed

subsection \<open>A lab\<close>

text \<open>A node that answers at once: every hook succeeds and ticks the world.\<close>

definition lab_gen :: Generated where
  "lab_gen = \<lparr>ControlPlane = ''controlplane'', Talosconfig = ''talosconfig'', Secrets = ''secrets''\<rparr>"

definition lab_hooks :: "nat upHooks" where
  "lab_hooks =
     \<lparr>h_generateConfig = (\<lambda>_ w. (Inr lab_gen, w + 1)), h_waitMaintenance = (\<lambda>_ _ w. (Inr (), w + 1)),
      h_applyConfig = (\<lambda>_ _ w. (Inr (), w + 1)), h_waitBootstrapReady = (\<lambda>_ _ _ w. (Inr (), w + 1)),
      h_waitNodeReadyAt = (\<lambda>_ _ _ w. (Inr (), w + 1)), h_bootstrap = (\<lambda>_ _ w. (Inr (), w + 1)),
      h_kubeconfig = (\<lambda>_ _ w. (Inr ''node'', w + 1)), h_waitNodeReady = (\<lambda>_ _ w. (Inr (), w + 1)),
      h_installStorage = (\<lambda>_ w. (Inr (), w + 1))\<rparr>"

definition lab_env :: "(nat, nat) up_env" where
  "lab_env = \<lparr>ue_hooks = lab_hooks, ue_api = lab_api,
     ue_machinery = (g_machinery lab_generator)\<lparr>ParseContract := \<lambda>v. if v = '''' then None else Some 14\<rparr>, ue_boot = (\<lambda>w. (Inr 42, w + 1)),
     ue_read_fails = (\<lambda>_. False), ue_write_fails = (\<lambda>_. None), ue_order = rev, ue_url = (\<lambda>_. None)\<rparr>"

definition lab_options :: "JoinOptions option \<Rightarrow> string \<Rightarrow> UpOptions" where
  "lab_options j version =
     \<lparr>o_ClusterName = ''lab'', o_StateDir = ''/s/lab'', o_TalosEndpoint = ''h:50000'', o_KubeEndpoint = ''https://h:6443'',
      o_SystemDisk = \<lparr>Serial = ''talos-system'', WWID = '''', DevPath = ''''\<rparr>, o_DataDiskSerial = ''talos-data'',
      o_EphemeralMaxSize = '''', o_InstallerImage = '''', o_TalosVersion = version, o_VersionSource = ''image'',
      o_Substrate = ''qemu'', o_ConsoleArg = '''', o_DisableKexec = True, o_Network = None, o_ClusterNetwork = None,
      o_Hostname = '''', o_Registries = [], o_ConfigPatches = [], o_KubernetesVersion = '''', o_Join = j, o_StoppedMembers = []\<rparr>"

definition lab_run :: "nat run" where
  "lab_run = \<lparr>r_world = 0, r_files = Map.empty, r_log = []\<rparr>"

definition lab_join :: JoinOptions where
  "lab_join = \<lparr>j_SecretsBundle = ''secrets'', j_ClusterEndpoint = ''https://o:6443'', j_Kubeconfig = ''admin''\<rparr>"

lemma lab_state_path: "state_path ''/s/lab''"
  by (auto simp: state_path_def abs_path_def plain_comp_def intro!: exI [of _ "[''s'', ''lab'']"])

lemma lab_order: "\<forall>as. mset (ue_order lab_env as) = mset as"
  by (simp add: lab_env_def)

lemma lab_checks: "up_checks lab_env (lab_options j v) = Inr (''h'', ''h:50000'')"
  using SplitHostPort_plain [of "''h''" "''50000''"]
  by (simp add: up_checks_def lab_options_def apiAddress_def CheckNetwork_def installedEndpoint_def)

lemma lab_guard: "CheckVersion (ue_machinery lab_env) ''v1.14.1'' = (True, None)"
  by (simp add: lab_env_def lab_generator_def CheckVersion_def checkVersion_def)

lemmas run_simps = Up_def up_prologue_def up_tail_def reach_installed_def configure_def joined_def awaitingQuorum_def finish_def
  bootstrap_step_def version_guard_def ReadTalosconfig_def writeArtifacts_def write_artifact_def config_artifacts_def
  then_do_def fails_as_def lift_result_def give_def refuse_def hook_def step_def result_simps Let_def

definition lab_log :: "event list" where
  "lab_log = r_log (snd (Up lab_env (lab_options None ''v1.14.1'') lab_run))"

lemma lab_up: "fst (Up lab_env (lab_options None ''v1.14.1'') lab_run) = Inr ()"
  "Apply ''h:50000'' ''controlplane'' \<in> set lab_log"
  using lab_guard lab_checks [of None "''v1.14.1''"]
  by (simp_all add: run_simps lab_log_def lab_run_def lab_options_def lab_env_def lab_hooks_def lab_gen_def hasUserVolume_def)

theorem Up_ten_steps_witness:
  "length (steps_of (r_log (snd (Up lab_env (lab_options None ''v1.14.1'') lab_run)))) = 10"
proof -
  have "Up lab_env (lab_options None ''v1.14.1'') lab_run = (Inr (), snd (Up lab_env (lab_options None ''v1.14.1'') lab_run))"
    using lab_up(1) by (simp add: prod_eq_iff)
  from Up_ten_steps [OF this] show ?thesis by (auto simp: upSteps_def lab_run_def)
qed

theorem Up_join_never_bootstraps_witness:
  "clean_since [] (range Bootstrap \<union> {Install_storage}) (snd (Up lab_env (lab_options (Some lab_join) ''v1.14.1'') lab_run))"
  using Up_join_never_bootstraps [of "lab_options (Some lab_join) ''v1.14.1''" lab_join lab_env lab_run]
  by (auto simp: lab_options_def lab_run_def prod_eq_iff)



theorem Up_installs_once_witness:
  "clean_since [] installs (snd (Up lab_env (lab_options None ''v1.14.1'')
      ((snd (Up lab_env (lab_options None ''v1.14.1'') lab_run))\<lparr>r_log := []\<rparr>)))"
proof -
  let ?s1 = "snd (Up lab_env (lab_options None ''v1.14.1'') lab_run)"
  let ?s2 = "?s1\<lparr>r_log := []\<rparr>"
  have dir: "o_StateDir (lab_options None ''v1.14.1'') = ''/s/lab''" by (simp add: lab_options_def)
  have run: "Up lab_env (lab_options None ''v1.14.1'') lab_run = (Inr (), ?s1)"
    using lab_up(1) by (simp add: prod_eq_iff)
  have applied: "\<not> clean_since (r_log lab_run) applies ?s1"
    using lab_up(2) by (auto simp: clean_since_def lab_log_def lab_run_def applies_def)
  have again: "Up lab_env (lab_options None ''v1.14.1'') ?s2 = (fst (Up lab_env (lab_options None ''v1.14.1'') ?s2),
      snd (Up lab_env (lab_options None ''v1.14.1'') ?s2))" by simp
  have sp: "state_path (o_StateDir (lab_options None ''v1.14.1''))" unfolding dir by (rule lab_state_path)
  have "r_files ?s2 = r_files ?s1" by simp
  from Up_installs_once [OF sp lab_order lab_order run applied refl this again] show ?thesis by simp
qed

end
