(* ===== verification/Go_Strings.thy ===== *)
theory Go_Strings
  imports Go_Prelude
begin

section \<open>Substrings\<close>

text \<open>
  \<^verbatim>\<open>strings.Split\<close> with a separator of any positive length, and the two functions of package bytes
  that are read off it: \<^verbatim>\<open>Count\<close> counts the occurrences that do not overlap, \<^verbatim>\<open>ReplaceAll\<close> replaces them.
\<close>

function split_str :: "string \<Rightarrow> string \<Rightarrow> string list" where
  "split_str sep [] = [[]]"
| "split_str sep (c # s) =
     (if sep \<noteq> [] \<and> has_prefix (c # s) sep then [] # split_str sep (drop (length sep) (c # s))
      else case split_str sep s of [] \<Rightarrow> [[c]] | w # ws \<Rightarrow> (c # w) # ws)"
  by pat_completeness auto

termination by (relation "measure (\<lambda>(sep, s). length s)") (auto simp: neq_Nil_conv)

definition bytes_Count :: "string \<Rightarrow> string \<Rightarrow> nat" where
  "bytes_Count s sep = length (split_str sep s) - 1"

definition ReplaceAll :: "string \<Rightarrow> string \<Rightarrow> string \<Rightarrow> string" where
  "ReplaceAll s old new = join new (split_str old s)"

lemma split_str_not_Nil [simp]: "split_str sep s \<noteq> []"
  by (induction sep s rule: split_str.induct) (auto split: list.splits)

lemma join_Cons: "ws \<noteq> [] \<Longrightarrow> join sep (w # ws) = w @ sep @ join sep ws"
  by (cases ws) auto

lemma join_head: "ws \<noteq> [] \<Longrightarrow> join sep ((c # hd ws) # tl ws) = c # join sep ws"
  by (induction sep ws rule: join.induct) auto

lemma join_split_str: "join sep (split_str sep s) = s"
proof (induction sep s rule: split_str.induct)
  case (2 sep c s)
  show ?case
  proof (cases "sep \<noteq> [] \<and> has_prefix (c # s) sep")
    case True
    with 2(1) have "join sep (split_str sep (c # s)) = sep @ drop (length sep) (c # s)" by (simp add: join_Cons)
    also have "\<dots> = c # s" using True by (auto simp: go_string_simps)
    finally show ?thesis .
  next
    case False
    then show ?thesis using 2(2) join_head [of "split_str sep s" sep c] by (auto split: list.splits)
  qed
qed simp

lemma split_str_plain: "\<not> str_contains s sep \<Longrightarrow> split_str sep s = [s]"
  by (induction sep s rule: split_str.induct) auto

lemma split_str_first:
  assumes "sep \<noteq> []" "\<not> str_contains (u @ butlast sep) sep"
  shows "split_str sep (u @ sep @ v) = u # split_str sep v"
  using assms(2)
proof (induction u)
  case Nil
  from assms(1) obtain c t where sep: "sep @ v = c # t" by (cases sep) auto
  have "has_prefix (c # t) sep" by (auto simp: go_string_simps simp flip: sep)
  moreover have "drop (length sep) (c # t) = v" by (simp flip: sep)
  ultimately show ?case using assms(1) sep by simp
next
  case (Cons c u)
  have "\<not> has_prefix ((c # u) @ sep @ v) sep"
  proof
    assume p: "has_prefix ((c # u) @ sep @ v) sep"
    let ?w = "(c # u) @ butlast sep"
    have "(c # u) @ sep @ v = ?w @ last sep # v"
      using append_butlast_last_id [OF assms(1)] by (metis append.assoc append_Cons append_Nil)
    then have "take (length sep) (?w @ last sep # v) = sep" using p by (simp only: has_prefix_def)
    moreover have "take (length sep) (?w @ last sep # v) = take (length sep) ?w"
      using assms(1) by (simp only: take_append) (simp add: Suc_leI)
    ultimately have "has_prefix ?w sep" by (simp only: has_prefix_def)
    with Cons.prems show False by simp
  qed
  with Cons assms(1) show ?case by simp
qed

lemma ReplaceAll_once:
  assumes "bytes_Count s old = 1"
  shows "\<exists>u v. s = u @ old @ v \<and> ReplaceAll s old new = u @ new @ v"
proof -
  from assms obtain u v where uv: "split_str old s = [u, v]"
    by (auto simp: bytes_Count_def length_Suc_conv numeral_2_eq_2 Suc_diff_le dest!: length_Suc_conv [THEN iffD1])
      (metis One_nat_def Suc_diff_1 length_0_conv length_Suc_conv length_greater_0_conv split_str_not_Nil)
  then have "s = u @ old @ v" using join_split_str [of old s] by simp
  with uv show ?thesis by (auto simp: ReplaceAll_def)
qed

end
