(* ===== verification/Cluster_Reconfigure.thy ===== *)
theory Cluster_Reconfigure
  imports Cluster_Nodeinfo Cluster_Up Go_Strings
begin

section \<open>Changing a node that runs\<close>

text \<open>
  \<^verbatim>\<open>cluster/reconfigure.go\<close>: the config of an existing machine is generated again from its own secrets
  bundle, compared with the one it runs, and applied only when nothing in it was decided when the
  disk was partitioned. The state is that of a run of \<open>Up\<close>: the world, the files, the log.
\<close>

record ReconfigureOptions =
  rc_ClusterName :: string
  rc_StateDir :: string
  rc_TalosEndpoint :: string
  rc_KubeEndpoint :: string
  rc_APIAddress :: string
  rc_SystemDisk :: DiskRef
  rc_DataDiskSerial :: string
  rc_EphemeralMaxSize :: string
  rc_ConsoleArg :: string
  rc_DisableKexec :: bool
  rc_Network :: "Network option"
  rc_ClusterNetwork :: "ClusterNetwork option"
  rc_Hostname :: string
  rc_Registries :: "RegistryMirror list"
  rc_ConfigPatches :: "string list"

text \<open>What the refusal lists: the selector before and after, and which volume documents came, went or changed.\<close>

datatype change =
  Install_disk "string option" "string option"
| Volume_added string
| Volume_removed string
| Volume_changed string

datatype reconfigure_error =
  Never_brought_up string
| No_secrets_bundle string
| No_current_config string
| Rc_endpoint endpoint_error
| Rc_failed up_failure
| Decided_at_partitioning "change list"
| Nothing_to_apply

subsection \<open>Comparing two rendered configs\<close>

text \<open>
  \<^verbatim>\<open>installSelectorBlock\<close>, the regular expression: a line that is \<^verbatim>\<open>diskSelector:\<close> at an indent of
  eight, followed by as many lines as there are of a key and a value at an indent of twelve, at least
  one, each ended by a newline. \<open>selector_key\<close> is \<^verbatim>\<open>\S+: \<close>: the first blank ends a word of two bytes or
  more whose last is a colon, and it is a space.
\<close>

definition re_space :: "char \<Rightarrow> bool" where
  "re_space c = (c \<in> {CHR '' '', CHR 0x09, CHR 0x0A, CHR 0x0C, CHR 0x0D})"

definition selector_key :: "string \<Rightarrow> bool" where
  "selector_key s =
     (let word = takeWhile (\<lambda>c. \<not> re_space c) s in
      2 \<le> length word \<and> last word = CHR '':'' \<and> has_prefix (drop (length word) s) '' '')"

definition selector_line :: "string \<Rightarrow> bool" where
  "selector_line l = (has_prefix l (replicate 12 CHR '' '') \<and> selector_key (drop 12 l))"

fun selector_in :: "string list \<Rightarrow> string option" where
  "selector_in [] = None"
| "selector_in (l # ls) =
     (let block = takeWhile selector_line ls in
      if l = replicate 8 CHR '' '' @ ''diskSelector:'' \<and> block \<noteq> []
      then Some (concat (map (\<lambda>b. b @ [CHR 0x0A]) block))
      else selector_in ls)"

definition installSelectorBlock :: "bytes \<Rightarrow> string option" where
  "installSelectorBlock config = selector_in (butlast (split_on (CHR 0x0A) config))"

definition sameSubmatch :: "string option \<Rightarrow> string option \<Rightarrow> bool" where
  "sameSubmatch a b =
     (case (a, b) of
        (Some x, Some y) \<Rightarrow> trim_space x = trim_space y
      | _ \<Rightarrow> a = None \<and> b = None)"

definition volumeKinds :: "string list" where
  "volumeKinds = [''VolumeConfig'', ''UserVolumeConfig'']"

definition splitDocs :: "bytes \<Rightarrow> string list" where
  "splitDocs b = split_str ([CHR 0x0A] @ ''---'' @ [CHR 0x0A]) b"

definition declares_kind :: "string \<Rightarrow> string \<Rightarrow> bool" where
  "declares_kind kind doc =
     (str_contains doc ([CHR 0x0A] @ ''kind: '' @ kind @ [CHR 0x0A]) \<or> has_prefix doc (''kind: '' @ kind @ [CHR 0x0A]))"

definition docOfKind :: "bytes \<Rightarrow> string \<Rightarrow> string option" where
  "docOfKind b kind = find (declares_kind kind) (splitDocs b)"

definition volume_change :: "bytes \<Rightarrow> bytes \<Rightarrow> string \<Rightarrow> change list" where
  "volume_change current next1 kind =
     (case (docOfKind current kind, docOfKind next1 kind) of
        (None, None) \<Rightarrow> []
      | (None, Some _) \<Rightarrow> [Volume_added kind]
      | (Some _, None) \<Rightarrow> [Volume_removed kind]
      | (Some was, Some now) \<Rightarrow> if trim_space was \<noteq> trim_space now then [Volume_changed kind] else [])"

definition reconfigureRefusals :: "bytes \<Rightarrow> bytes \<Rightarrow> change list" where
  "reconfigureRefusals current next1 =
     (let was = installSelectorBlock current; now = installSelectorBlock next1 in
      (if \<not> sameSubmatch was now then [Install_disk was now] else [])
      @ concat (map (volume_change current next1) volumeKinds))"

definition unchanged :: "bytes \<Rightarrow> bytes \<Rightarrow> bool" where
  "unchanged current next1 = (current = next1)"

subsection \<open>Reconfigure\<close>

text \<open>\<^verbatim>\<open>os.ReadFile\<close>, for which a missing file is an error, and the files as \<open>ReadClusterEndpoint\<close> reads them.\<close>

definition ReadFile :: "('c, 'w) up_env \<Rightarrow> string \<Rightarrow> ('w run, string, bytes) effect" where
  "ReadFile e p s =
     (case r_files s p of Some b \<Rightarrow> if ue_read_fails e p then (Inl p, s) else (Inr b, s) | None \<Rightarrow> (Inl p, s))"

definition state_fs :: "('c, 'w) up_env \<Rightarrow> (string \<Rightarrow> bytes option) \<Rightarrow> fsys" where
  "state_fs e files = \<lparr>fs_dir = (\<lambda>_. None), fs_file = (\<lambda>p. if ue_read_fails e p then None else files p), fs_stat = (\<lambda>_. None)\<rparr>"

definition reconfigureInput ::
  "('c, 'w) up_env \<Rightarrow> (string \<Rightarrow> bytes option) \<Rightarrow> ReconfigureOptions \<Rightarrow> string \<Rightarrow> bytes \<Rightarrow> endpoint_error + ConfigInput" where
  "reconfigureInput e files opts version secretsBundle =
     and_then (case rc_ClusterNetwork opts of
                 None \<Rightarrow> Inr (rc_KubeEndpoint opts)
               | Some _ \<Rightarrow> ReadClusterEndpoint (state_fs e files) (ue_url e) (rc_StateDir opts)) (\<lambda>endpoint.
     Inr \<lparr>in_ClusterName = rc_ClusterName opts, in_Endpoint = endpoint, in_APIAddress = rc_APIAddress opts,
          in_TalosVersion = version, in_KubernetesVersion = '''', in_ConsoleArg = rc_ConsoleArg opts,
          in_SystemDisk = rc_SystemDisk opts, in_DataDiskSerial = rc_DataDiskSerial opts,
          in_EphemeralMaxSize = rc_EphemeralMaxSize opts, in_InstallerImage = '''',
          in_DisableKexec = rc_DisableKexec opts, in_Network = rc_Network opts, in_ClusterNetwork = rc_ClusterNetwork opts,
          in_Hostname = rc_Hostname opts,
          in_ExtraSubjectAltNames = hostSANs (ue_url e) (rc_KubeEndpoint opts) (rc_ClusterNetwork opts),
          in_Registries = rc_Registries opts, in_ConfigPatches = rc_ConfigPatches opts, in_SecretsBundle = secretsBundle\<rparr>)"

definition applyToRunningNode :: "'w talos_api \<Rightarrow> bytes \<Rightarrow> string \<Rightarrow> bytes \<Rightarrow> 'w \<Rightarrow> (client_error + unit) \<times> 'w" where
  "applyToRunningNode api talosconfig endpoint config w =
     (case AuthenticatedClient api talosconfig endpoint of
        Inl err \<Rightarrow> (Inl err, w)
      | Inr cred \<Rightarrow>
          (case tl_apply api cred endpoint Apply_auto config w of
             (Some f, w1) \<Rightarrow> (Inl (rpc_error ''applying the machine config'' f), w1)
           | (None, w1) \<Rightarrow> (Inr (), w1)))"

text \<open>The config a reconfigure would apply, with the one that is recorded; everything up to the comparison.\<close>

definition regenerate ::
  "('c, 'w) up_env \<Rightarrow> ('c, 'i, 't, 'k, 'p) generator \<Rightarrow> ReconfigureOptions \<Rightarrow> ('w run, reconfigure_error, bytes \<times> bytes \<times> bytes) effect" where
  "regenerate e g opts =
     then_do (fails_as Rc_failed (ReadTalosconfig e (rc_StateDir opts))) (\<lambda>found.
     case found of
       None \<Rightarrow> refuse (Never_brought_up (rc_StateDir opts))
     | Some talosconfig \<Rightarrow>
         then_do (fails_as No_secrets_bundle (ReadFile e (path_join [rc_StateDir opts, ''secrets.yaml'']))) (\<lambda>secretsBundle.
         then_do (fails_as (\<lambda>err. Rc_failed (F_client err)) (hook (Wait_for ''version'')
                    (InstalledNodeVersion (ue_api e) talosconfig (rc_TalosEndpoint opts) NodeVersionTimeout))) (\<lambda>version.
         then_do (\<lambda>s. (map_error Rc_endpoint (reconfigureInput e (r_files s) opts version secretsBundle), s)) (\<lambda>inp.
         then_do (fails_as (\<lambda>err. Rc_failed (F_config err)) (lift_result (GenerateConfig g inp))) (\<lambda>generated.
         then_do (fails_as No_current_config (ReadFile e (path_join [rc_StateDir opts, ''controlplane.yaml'']))) (\<lambda>current.
         give (talosconfig, current, ControlPlane generated)))))))"

definition Reconfigure ::
  "('c, 'w) up_env \<Rightarrow> ('c, 'i, 't, 'k, 'p) generator \<Rightarrow> ReconfigureOptions \<Rightarrow> ('w run, reconfigure_error, bytes) effect" where
  "Reconfigure e g opts =
     then_do (regenerate e g opts) (\<lambda>(talosconfig, current, config).
     if reconfigureRefusals current config \<noteq> [] then refuse (Decided_at_partitioning (reconfigureRefusals current config))
     else if unchanged current config then refuse Nothing_to_apply
     else
       then_do (fails_as (\<lambda>err. Rc_failed (F_client err)) (hook (Apply (rc_TalosEndpoint opts) config)
                  (applyToRunningNode (ue_api e) talosconfig (rc_TalosEndpoint opts) config))) (\<lambda>_.
       then_do (fails_as Rc_failed (writeArtifacts e (rc_StateDir opts) [(''controlplane.yaml'', config)])) (\<lambda>_.
       give config)))"

subsection \<open>What a refusal compares\<close>

lemma sameSubmatch_iff: "sameSubmatch a b \<longleftrightarrow> map_option trim_space a = map_option trim_space b"
  by (auto simp: sameSubmatch_def split: option.splits)

lemma volume_change_Nil_iff:
  "volume_change current next1 kind = [] \<longleftrightarrow>
   map_option trim_space (docOfKind current kind) = map_option trim_space (docOfKind next1 kind)"
  by (auto simp: volume_change_def split: option.splits)

lemma reconfigureRefusals_Nil_iff:
  "reconfigureRefusals current next1 = [] \<longleftrightarrow>
   map_option trim_space (installSelectorBlock current) = map_option trim_space (installSelectorBlock next1)
   \<and> (\<forall>kind \<in> {''VolumeConfig'', ''UserVolumeConfig''}.
        map_option trim_space (docOfKind current kind) = map_option trim_space (docOfKind next1 kind))"
  by (auto simp: reconfigureRefusals_def Let_def sameSubmatch_iff volume_change_Nil_iff volumeKinds_def)

subsection \<open>The record of a running machine\<close>

text \<open>Everything up to the comparison reads: it writes no file and sends no config.\<close>

lemma ReadFile_eq: "ReadFile e p s = (r, s') \<Longrightarrow> s' = s \<and> (\<forall>b. r = Inr b \<longrightarrow> r_files s p = Some b)"
  by (auto simp: ReadFile_def split: option.splits if_splits)

lemma keeps_ReadFile [keeping]: "keeps P (ReadFile e p)"
  unfolding keeps_def by (rule tripleI) (auto dest!: ReadFile_eq)

lemma keeps_look [keeping]: "keeps P (\<lambda>s. (f s, s))"
  by (auto simp: keeps_def triple_def split: sum.split)

lemma keeps_files_hook [keeping]: "keeps (\<lambda>s. r_files s = F) (hook ev f)"
  unfolding keeps_def by (rule tripleI) (auto simp: hook_def split: prod.splits)

lemma hook_ok: "hook ev f s = (Inr x, s') \<Longrightarrow> r_files s' = r_files s \<and> (\<exists>w w'. f w = (Inr x, w'))"
  by (auto simp: hook_def split: prod.splits)

lemma regenerate_reads:
  assumes "regenerate e g opts s = (r, s')"
  shows "r_files s' = r_files s \<and> (\<exists>l. r_log s' = r_log s @ l \<and> set l \<subseteq> range Wait_for)"
proof -
  have "keeps (\<lambda>s'. r_files s' = r_files s) (regenerate e g opts)" "keeps (clean_since (r_log s) (- range Wait_for)) (regenerate e g opts)"
    unfolding regenerate_def by (auto intro!: keeping)
  from keepsD [OF this(1) refl assms] keepsD [OF this(2) clean_since_start assms] show ?thesis by (auto simp: clean_since_def)
qed

text \<open>A successful regeneration read the machine's own secrets, asked the node for its version and generated from both.\<close>

lemma regenerate_own:
  assumes "regenerate e g opts s = (Inr (tc, current, config), s')"
  shows "r_files s (path_join [rc_StateDir opts, ''controlplane.yaml'']) = Some current
    \<and> (\<exists>bundle version inp gen w w'. r_files s (path_join [rc_StateDir opts, ''secrets.yaml'']) = Some bundle
        \<and> InstalledNodeVersion (ue_api e) tc (rc_TalosEndpoint opts) NodeVersionTimeout w = (Inr version, w')
        \<and> reconfigureInput e (r_files s) opts version bundle = Inr inp
        \<and> GenerateConfig g inp = Inr gen \<and> config = ControlPlane gen)"
proof -

  from assms obtain sb version inp gen s1 s2 where
    b: "ReadFile e (path_join [rc_StateDir opts, ''secrets.yaml'']) s = (Inr sb, s1)"
    and v: "hook (Wait_for ''version'') (InstalledNodeVersion (ue_api e) tc (rc_TalosEndpoint opts) NodeVersionTimeout) s1 = (Inr version, s2)"
    and i: "reconfigureInput e (r_files s2) opts version sb = Inr inp"
    and g: "GenerateConfig g inp = Inr gen" "config = ControlPlane gen"
    and c: "ReadFile e (path_join [rc_StateDir opts, ''controlplane.yaml'']) s2 = (Inr current, s')"
    by (auto simp: regenerate_def effect_eqs ReadTalosconfig_def Let_def give_def refuse_def lift_result_def result_simps
        split: option.splits if_splits)
  have "s1 = s" "r_files s (path_join [rc_StateDir opts, ''secrets.yaml'']) = Some sb" using ReadFile_eq [OF b] by auto
  moreover have "r_files s2 = r_files s1" using hook_ok [OF v] by blast
  moreover have "r_files s2 (path_join [rc_StateDir opts, ''controlplane.yaml'']) = Some current" using ReadFile_eq [OF c] by auto
  ultimately show ?thesis using hook_ok [OF v] i g by auto
qed

lemma write_one:
  assumes "\<forall>as. mset (ue_order e as) = mset as" "writeArtifacts e dir [a] s = (r, s')"
  shows "\<exists>left. r_files s' = (r_files s)(path_join [dir, fst a] := left)
    \<and> (case r of Inr _ \<Rightarrow> left = Some (snd a) \<and> r_log s' = r_log s @ [Write (path_join [dir, fst a])]
       | Inl err \<Rightarrow> err = F_write (path_join [dir, fst a]) \<and> r_log s' = r_log s)"
proof -
  have "mset (ue_order e [a]) = mset [a]" using assms(1) by blast
  then have "ue_order e [a] = [a]" using mset_eq_length [of "ue_order e [a]" "[a]"] mset_eq_setD [of "ue_order e [a]" "[a]"]
    by (auto simp: length_Suc_conv)
  with assms(2) show ?thesis
    by (auto simp: writeArtifacts_def then_do_eq give_def write_artifact_def Let_def split: option.splits)
qed

lemma write_one_world: "writeArtifacts e dir as s = (r, s') \<Longrightarrow> r_world s' = r_world s"
proof -
  have "keeps (\<lambda>t. r_world t = r_world s) (write_all e dir bs)" for bs
  proof (induction bs)
    case (Cons b bs)
    have "keeps (\<lambda>t. r_world t = r_world s) (write_artifact e dir b)"
      unfolding keeps_def by (rule tripleI) (auto simp: write_artifact_def Let_def split: option.splits)
    with Cons show ?case by (auto intro: keeping)
  qed (simp add: keeps_give)
  then show "writeArtifacts e dir as s = (r, s') \<Longrightarrow> r_world s' = r_world s"
    unfolding writeArtifacts_def using keepsD [where P = "\<lambda>t. r_world t = r_world s"] by blast
qed

text \<open>The node answered the apply of \<open>cfg\<close> without an error, over the credential on file, and the world is as it left it.\<close>

definition node_took :: "('c, 'w) up_env \<Rightarrow> ReconfigureOptions \<Rightarrow> (string \<rightharpoonup> bytes) \<Rightarrow> bytes \<Rightarrow> 'w \<Rightarrow> bool" where
  "node_took e opts files cfg w' =
     (\<exists>tc cred w. files (path_join [rc_StateDir opts, ''talosconfig'']) = Some tc
        \<and> AuthenticatedClient (ue_api e) tc (rc_TalosEndpoint opts) = Inr cred
        \<and> tl_apply (ue_api e) cred (rc_TalosEndpoint opts) Apply_auto cfg w = (None, w'))"

lemma regenerate_talosconfig:
  "regenerate e g opts s = (Inr (tc, current, config), s') \<Longrightarrow> r_files s (path_join [rc_StateDir opts, ''talosconfig'']) = Some tc"
  by (auto simp: regenerate_def effect_eqs ReadTalosconfig_def Let_def give_def refuse_def lift_result_def split: option.splits if_splits)

lemma applied_took:
  assumes "r_files s (path_join [rc_StateDir opts, ''talosconfig'']) = Some tc"
    and "applyToRunningNode (ue_api e) tc (rc_TalosEndpoint opts) cfg w = (Inr u, w')"
  shows "node_took e opts (r_files s) cfg w'"
  using assms by (auto simp: applyToRunningNode_def node_took_def split: sum.splits prod.splits option.splits)

text \<open>
  C17. The file on disk is the record of what the node took. A reconfigure that succeeds has sent the config
  it returns, the node has answered without an error, and the config is recorded as \<^verbatim>\<open>controlplane.yaml\<close>, with no
  other file changed. One that fails, as it does when the node rejects the config, leaves every file as it
  was, unless the node took the config and only the write of the record failed.
\<close>

theorem Reconfigure_honest:
  assumes "\<forall>as. mset (ue_order e as) = mset as" "Reconfigure e g opts s = (r, s')"
  shows "\<exists>l. r_log s' = r_log s @ l
    \<and> (case r of
         Inr cfg \<Rightarrow> Apply (rc_TalosEndpoint opts) cfg \<in> set l \<and> node_took e opts (r_files s) cfg (r_world s')
           \<and> r_files s' = (r_files s)(path_join [rc_StateDir opts, ''controlplane.yaml''] \<mapsto> cfg)
       | Inl err \<Rightarrow> r_files s' = r_files s
           \<or> err = Rc_failed (F_write (path_join [rc_StateDir opts, ''controlplane.yaml'']))
             \<and> (\<exists>cfg left. Apply (rc_TalosEndpoint opts) cfg \<in> set l \<and> node_took e opts (r_files s) cfg (r_world s')
                  \<and> r_files s' = (r_files s)(path_join [rc_StateDir opts, ''controlplane.yaml''] := left)))"
proof (cases "regenerate e g opts s")
  case (Pair q s1)
  from regenerate_reads [OF Pair] obtain l1 where files: "r_files s1 = r_files s" and log: "r_log s1 = r_log s @ l1" by blast
  show ?thesis
  proof (cases q)
    case (Inl err)
    with assms(2) Pair files log show ?thesis by (auto simp: Reconfigure_def then_do_def)
  next
    case (Inr x)
    obtain tc current config where x: "x = (tc, current, config)" by (cases x) auto
    let ?apply = "applyToRunningNode (ue_api e) tc (rc_TalosEndpoint opts) config"
    obtain a w where w: "?apply (r_world s1) = (a, w)" by force
    let ?s2 = "s1\<lparr>r_world := w, r_log := r_log s1 @ [Apply (rc_TalosEndpoint opts) config]\<rparr>"
    consider (refused) err where "r = Inl err" "s' = s1" | (rejected) err where "r = Inl err" "s' = ?s2"
      | (sent) q' where "\<exists>u. a = Inr u" "writeArtifacts e (rc_StateDir opts) [(''controlplane.yaml'', config)] ?s2 = (q', s')"
          "r = (case q' of Inl err \<Rightarrow> Inl (Rc_failed err) | Inr _ \<Rightarrow> Inr config)"
    proof (cases "reconfigureRefusals current config \<noteq> [] \<or> unchanged current config")
      case True
      with assms(2) Pair Inr x have "s' = s1 \<and> (\<exists>err. r = Inl err)"
        by (auto simp: Reconfigure_def then_do_def refuse_def split: if_splits)
      then show ?thesis using refused by blast
    next
      case False
      with assms(2) Pair Inr x w have run: "(case a of Inl err \<Rightarrow> (Inl (Rc_failed (F_client err)), ?s2)
          | Inr _ \<Rightarrow> then_do (fails_as Rc_failed (writeArtifacts e (rc_StateDir opts) [(''controlplane.yaml'', config)]))
              (\<lambda>_. give config) ?s2) = (r, s')"
        by (cases a) (simp_all add: Reconfigure_def then_do_def fails_as_def hook_def)
      obtain q' s3 where w3: "writeArtifacts e (rc_StateDir opts) [(''controlplane.yaml'', config)] ?s2 = (q', s3)" by force
      show ?thesis
      proof (cases a)
        case (Inl err)
        with run rejected show ?thesis by auto
      next
        case (Inr u)
        with run w3 show ?thesis by (cases q') (auto simp: then_do_def fails_as_def give_def intro!: sent)
      qed
    qed
    then show ?thesis
    proof cases
      case sent
      from sent(1) w have "node_took e opts (r_files s) config w"
        using applied_took [OF regenerate_talosconfig, of e g opts s tc current config s1] Pair Inr x by auto
      then have "node_took e opts (r_files s) config (r_world s')" using write_one_world [OF sent(2)] by simp
      with write_one [OF assms(1) sent(2)] sent(3) files log show ?thesis
        by (cases q') (auto simp: fun_upd_def)
    qed (use files log in auto)
  qed
qed

text \<open>
  C15. A config is sent to a running node only if the disk it asks for is the disk that is there: the
  install selector and both volume documents are those of the recorded config, the rest of it is
  different, and it was generated from the machine's own secrets bundle for the version the node runs.
\<close>

theorem Reconfigure_partition_safe:
  assumes "Reconfigure e g opts s = (r, s')" "r_log s' = r_log s @ l" "Apply ep cfg \<in> set l"
  shows "\<exists>current. r_files s (path_join [rc_StateDir opts, ''controlplane.yaml'']) = Some current \<and> current \<noteq> cfg
    \<and> map_option trim_space (installSelectorBlock current) = map_option trim_space (installSelectorBlock cfg)
    \<and> (\<forall>kind \<in> {''VolumeConfig'', ''UserVolumeConfig''}.
         map_option trim_space (docOfKind current kind) = map_option trim_space (docOfKind cfg kind))
    \<and> (\<exists>tc sb version inp gen w w'. r_files s (path_join [rc_StateDir opts, ''secrets.yaml'']) = Some sb
         \<and> InstalledNodeVersion (ue_api e) tc (rc_TalosEndpoint opts) NodeVersionTimeout w = (Inr version, w')
         \<and> GenerateConfig g inp = Inr gen \<and> cfg = ControlPlane gen
         \<and> in_SecretsBundle inp = sb \<and> in_TalosVersion inp = version)"
proof (cases "regenerate e g opts s")
  case (Pair q s1)
  from regenerate_reads [OF Pair] obtain l1 where log: "r_log s1 = r_log s @ l1" "set l1 \<subseteq> range Wait_for" by blast
  then have quiet: "Apply ep cfg \<notin> set l1" by auto
  have "\<not> (\<exists>err. q = Inl err)" using assms Pair log(1) quiet by (auto simp: Reconfigure_def then_do_def)
  then obtain tc current config where q: "q = Inr (tc, current, config)" by (cases q) auto
  have passed: "reconfigureRefusals current config = []" "\<not> unchanged current config"
    using assms Pair q log(1) quiet by (auto simp: Reconfigure_def then_do_def refuse_def split: if_splits)
  have cfg: "cfg = config"
  proof (rule ccontr)
    assume ne: "cfg \<noteq> config"
    let ?E = "{Apply ep cfg}"
    have "keeps (clean_since (r_log s1) ?E) (then_do (fails_as (\<lambda>err. Rc_failed (F_client err)) (hook (Apply (rc_TalosEndpoint opts) config)
                  (applyToRunningNode (ue_api e) tc (rc_TalosEndpoint opts) config))) (\<lambda>_.
       then_do (fails_as Rc_failed (writeArtifacts e (rc_StateDir opts) [(''controlplane.yaml'', config)])) (\<lambda>_.
       give config)))"
      using ne by (auto intro!: keeping)
    from keepsD [OF this clean_since_start] have "clean_since (r_log s1) ?E s'"
      using assms(1) Pair q passed by (auto simp: Reconfigure_def then_do_def [of "regenerate e g opts"])
    with assms(2,3) log(1) quiet show False by (auto simp: clean_since_def)
  qed
  from regenerate_own [OF Pair [unfolded q]] obtain sb version inp gen w w' where
    own: "r_files s (path_join [rc_StateDir opts, ''controlplane.yaml'']) = Some current"
      "r_files s (path_join [rc_StateDir opts, ''secrets.yaml'']) = Some sb"
      "InstalledNodeVersion (ue_api e) tc (rc_TalosEndpoint opts) NodeVersionTimeout w = (Inr version, w')"
      "reconfigureInput e (r_files s) opts version sb = Inr inp" "GenerateConfig g inp = Inr gen" "config = ControlPlane gen"
    by blast
  have inp: "in_SecretsBundle inp = sb" "in_TalosVersion inp = version"
    using own(4) by (auto simp: reconfigureInput_def result_simps)
  have "current \<noteq> cfg" using passed(2) cfg by (simp add: unchanged_def)
  moreover note passed(1) [unfolded reconfigureRefusals_Nil_iff, folded cfg]
  moreover have "\<exists>tc sb version inp gen w w'. r_files s (path_join [rc_StateDir opts, ''secrets.yaml'']) = Some sb
         \<and> InstalledNodeVersion (ue_api e) tc (rc_TalosEndpoint opts) NodeVersionTimeout w = (Inr version, w')
         \<and> GenerateConfig g inp = Inr gen \<and> cfg = ControlPlane gen
         \<and> in_SecretsBundle inp = sb \<and> in_TalosVersion inp = version"
    using own inp cfg
    by (intro exI [of _ tc] exI [of _ sb] exI [of _ version] exI [of _ inp] exI [of _ gen] exI [of _ w] exI [of _ w']) simp
  ultimately show ?thesis using own(1) by (intro exI [of _ current]) simp
qed

subsection \<open>The same machine, generated twice\<close>

lemma trim_space_newline:
  assumes "s \<noteq> []" "visible (hd s)" "visible (last s)"
  shows "trim_space (s @ [CHR 0x0A]) = s"
proof -
  have "trim_left (s @ [CHR 0x0A]) = s @ [CHR 0x0A]" using assms(1,2) by (intro trim_left_visible) simp
  moreover have "find (has_prefix (CHR 0x0A # rev s)) (map rev space_seqs) = Some [CHR 0x0A]"
    by (simp add: space_seqs_def has_prefix_def)
  then have "trim_seqs (Suc n) (map rev space_seqs) (CHR 0x0A # rev s) = trim_seqs n (map rev space_seqs) (rev s)" for n by simp
  moreover have "trim_seqs n (map rev space_seqs) (rev s) = rev s" for n
    using trim_seqs_blanks [of "rev s" 0 n] assms by (simp add: hd_rev)
  ultimately show ?thesis by (simp add: trim_space_def trim_right_def)
qed

text \<open>
  The options a caller gives to both: every field of \<open>Up\<close>'s that a reconfigure has, the endpoint of a
  joined node without a cluster network resolved to its cluster's.
\<close>

definition reconfigure_of :: "UpOptions \<Rightarrow> string \<Rightarrow> string \<Rightarrow> ReconfigureOptions" where
  "reconfigure_of opts addr installed =
     \<lparr>rc_ClusterName = o_ClusterName opts, rc_StateDir = o_StateDir opts, rc_TalosEndpoint = installed,
      rc_KubeEndpoint =
        (case (o_ClusterNetwork opts, o_Join opts) of (None, Some j) \<Rightarrow> j_ClusterEndpoint j | _ \<Rightarrow> o_KubeEndpoint opts),
      rc_APIAddress = addr, rc_SystemDisk = o_SystemDisk opts, rc_DataDiskSerial = o_DataDiskSerial opts,
      rc_EphemeralMaxSize = o_EphemeralMaxSize opts, rc_ConsoleArg = o_ConsoleArg opts, rc_DisableKexec = o_DisableKexec opts,
      rc_Network = o_Network opts, rc_ClusterNetwork = o_ClusterNetwork opts, rc_Hostname = o_Hostname opts,
      rc_Registries = o_Registries opts, rc_ConfigPatches = o_ConfigPatches opts\<rparr>"

lemma reconfigureInput_of_Up:
  assumes pins: "o_KubernetesVersion opts = ''''" "o_InstallerImage opts = ''''"
    and joins: "\<forall>j. o_Join opts = Some j \<longrightarrow> j_ClusterEndpoint j \<noteq> ''''"
    and recorded: "o_ClusterNetwork opts \<noteq> None \<longrightarrow>
      files (path_join [o_StateDir opts, ''cluster-endpoint'']) =
        map_of (config_artifacts opts (in_Endpoint (config_input e opts addr)) gen) ''cluster-endpoint''
      \<and> \<not> ue_read_fails e (path_join [o_StateDir opts, ''cluster-endpoint''])"
    and url: "\<exists>h. ue_url e (in_Endpoint (config_input e opts addr)) = Some (''https'', h) \<and> h \<noteq> ''''"
      "visible (hd (in_Endpoint (config_input e opts addr)))" "visible (last (in_Endpoint (config_input e opts addr)))"
      "in_Endpoint (config_input e opts addr) \<noteq> ''''"
  shows "reconfigureInput e files (reconfigure_of opts addr installed) version sb =
    Inr ((config_input e opts addr)\<lparr>in_TalosVersion := version, in_SecretsBundle := sb\<rparr>)"
proof (cases "o_ClusterNetwork opts")
  case None
  then show ?thesis
    using pins joins
    by (auto simp: reconfigureInput_def reconfigure_of_def config_input_def controlPlaneEndpoint_def hostSANs_def Let_def
        split: option.split)
next
  case (Some cn)
  let ?ep = "in_Endpoint (config_input e opts addr)"
  have "files (path_join [o_StateDir opts, ''cluster-endpoint'']) = Some (?ep @ [CHR 0x0A])"
    "\<not> ue_read_fails e (path_join [o_StateDir opts, ''cluster-endpoint''])"
    using recorded Some by (simp_all add: config_artifacts_def)
  moreover have "trim_space (?ep @ [CHR 0x0A]) = ?ep"
    using url(2-4) by (intro trim_space_newline)
  ultimately have "ReadClusterEndpoint (state_fs e files) (ue_url e) (o_StateDir opts) = Inr ?ep"
    using url(1) by (auto simp: ReadClusterEndpoint_def state_fs_def)
  then show ?thesis
    using pins Some
    by (auto simp: reconfigureInput_def reconfigure_of_def config_input_def Let_def split: option.split)
qed

text \<open>
  A reconfigure generates from what \<open>Up\<close> generated from, with the node's version and the recorded
  secrets, for a machine that pins neither a Kubernetes version nor an installer image: on a cluster
  network the endpoint is the one \<open>Up\<close> recorded, which for a joiner is its owner's.
\<close>

theorem reconfigureInput_repeats_Up:
  assumes pins: "o_KubernetesVersion opts = ''''" "o_InstallerImage opts = ''''"
    and joins: "\<forall>j. o_Join opts = Some j \<longrightarrow> j_ClusterEndpoint j \<noteq> ''''"
    and recorded: "o_ClusterNetwork opts \<noteq> None \<longrightarrow>
      files (path_join [o_StateDir opts, ''cluster-endpoint'']) =
        map_of (config_artifacts opts (in_Endpoint (config_input e opts addr)) gen) ''cluster-endpoint''
      \<and> \<not> ue_read_fails e (path_join [o_StateDir opts, ''cluster-endpoint''])"
    and url: "\<exists>h. ue_url e (in_Endpoint (config_input e opts addr)) = Some (''https'', h) \<and> h \<noteq> ''''"
      "visible (hd (in_Endpoint (config_input e opts addr)))" "visible (last (in_Endpoint (config_input e opts addr)))"
      "in_Endpoint (config_input e opts addr) \<noteq> ''''"
  shows "reconfigureInput e files (reconfigure_of opts addr installed) version sb =
    Inr ((config_input e opts addr)\<lparr>in_TalosVersion := version, in_SecretsBundle := sb\<rparr>)"
  by (rule reconfigureInput_of_Up [where gen = gen]) (fact assms)+

text \<open>A pinned Kubernetes version or installer image is not carried over: the fields do not exist.\<close>

lemma reconfigureInput_drops_pins:
  "reconfigureInput e files opts version sb = Inr inp \<Longrightarrow> in_KubernetesVersion inp = '''' \<and> in_InstallerImage inp = ''''"
  by (auto simp: reconfigureInput_def result_simps)

subsection \<open>A machine in the lab\<close>

definition lab_reconfigure :: ReconfigureOptions where
  "lab_reconfigure =
     \<lparr>rc_ClusterName = ''lab'', rc_StateDir = ''/s/lab'', rc_TalosEndpoint = ''h:50000'', rc_KubeEndpoint = ''https://h:6443'',
      rc_APIAddress = ''h'', rc_SystemDisk = \<lparr>Serial = ''talos-system'', WWID = '''', DevPath = ''''\<rparr>,
      rc_DataDiskSerial = ''talos-data'', rc_EphemeralMaxSize = '''', rc_ConsoleArg = '''', rc_DisableKexec = True,
      rc_Network = None, rc_ClusterNetwork = None, rc_Hostname = '''', rc_Registries = [], rc_ConfigPatches = []\<rparr>"

text \<open>Three seconds after its boot the node answers; its secrets bundle is a file of no bytes.\<close>

definition lab_node :: "nat run" where
  "lab_node = \<lparr>r_world = 3000,
     r_files = [path_join [''/s/lab'', ''talosconfig''] \<mapsto> ''t'', path_join [''/s/lab'', ''secrets.yaml''] \<mapsto> '''',
                path_join [''/s/lab'', ''controlplane.yaml''] \<mapsto> ''old''], r_log = []\<rparr>"

lemma lab_files:
  "r_files lab_node (path_join [''/s/lab'', ''talosconfig'']) = Some ''t''"
  "r_files lab_node (path_join [''/s/lab'', ''secrets.yaml'']) = Some ''''"
  "r_files lab_node (path_join [''/s/lab'', ''controlplane.yaml'']) = Some ''old''"
  using artifact_path_inj [OF lab_state_path artifact_names(1,2)] artifact_path_inj [OF lab_state_path artifact_names(1,4)]
    artifact_path_inj [OF lab_state_path artifact_names(2,4)] by (auto simp: lab_node_def)

lemma lab_version: "InstalledNodeVersion lab_api ''t'' ''h:50000'' NodeVersionTimeout 3000 = (Inr ''v1.14.1'', 3000)"
  by (simp add: InstalledNodeVersion_def AuthenticatedClient_def run_wait_def waitFor_def wait_deadline_def lab_api_simps
      waitFor_loop.simps [of _ _ _ _ 4000] installed_version_probe_def NodeVersionTimeout_def probeInterval_def)

lemma lab_same_layout: "reconfigureRefusals ''old'' ''controlplane'' = []" "\<not> unchanged ''old'' ''controlplane''"
  by (simp_all add: reconfigureRefusals_def installSelectorBlock_def sameSubmatch_def volumeKinds_def volume_change_def docOfKind_def
      splitDocs_def has_prefix_def declares_kind_def unchanged_def)

lemma lab_regenerate:
  "\<exists>s'. regenerate lab_env lab_generator lab_reconfigure lab_node = (Inr (''t'', ''old'', ''controlplane''), s')
     \<and> r_log s' = [Wait_for ''version''] \<and> r_files s' = r_files lab_node"
proof -
  obtain gen where gen: "GenerateConfig lab_generator lab_input = Inr gen" using lab_generated by blast
  then have cp: "ControlPlane gen = ''controlplane''"
    by (auto simp: GenerateConfig_def result_simps wrap_def lab_generator_def)
  have inp: "reconfigureInput lab_env files lab_reconfigure ''v1.14.1'' '''' = Inr lab_input" for files
    by (simp add: reconfigureInput_def lab_reconfigure_def lab_input_def hostSANs_def)
  have opts: "rc_StateDir lab_reconfigure = ''/s/lab''" "rc_TalosEndpoint lab_reconfigure = ''h:50000''"
    by (simp_all add: lab_reconfigure_def)
  have env: "ue_read_fails lab_env p = False" "ue_api lab_env = lab_api" for p by (simp_all add: lab_env_def)
  have world: "r_world lab_node = 3000" "r_log lab_node = []" by (simp_all add: lab_node_def)
  show ?thesis
    by (simp add: regenerate_def then_do_def fails_as_def ReadTalosconfig_def ReadFile_def Let_def opts env lab_files hook_def
        world lab_version inp lift_result_def gen cp give_def)
qed

lemma lab_reconfigured:
  "\<exists>s'. Reconfigure lab_env lab_generator lab_reconfigure lab_node = (Inr ''controlplane'', s')
     \<and> Apply ''h:50000'' ''controlplane'' \<in> set (r_log s')"
proof -
  obtain s1 where s1: "regenerate lab_env lab_generator lab_reconfigure lab_node = (Inr (''t'', ''old'', ''controlplane''), s1)"
    using lab_regenerate by blast
  have "applyToRunningNode (ue_api lab_env) ''t'' (rc_TalosEndpoint lab_reconfigure) ''controlplane'' w = (Inr (), w)" for w
    by (simp add: applyToRunningNode_def AuthenticatedClient_def lab_env_def lab_api_simps lab_reconfigure_def)
  moreover have "writeArtifacts lab_env dir [a] s = (Inr (), s\<lparr>r_files := (r_files s)(path_join [dir, fst a] \<mapsto> snd a),
      r_log := r_log s @ [Write (path_join [dir, fst a])]\<rparr>)" for dir a s
    by (simp add: writeArtifacts_def lab_env_def then_do_def write_artifact_def give_def Let_def)
  moreover have "rc_TalosEndpoint lab_reconfigure = ''h:50000''" by (simp add: lab_reconfigure_def)
  ultimately show ?thesis
    by (simp add: Reconfigure_def then_do_def s1 lab_same_layout fails_as_def hook_def give_def)
qed

text \<open>
  The guard against a missing bundle does not see an empty one: \<open>GenerateConfig\<close> takes no bytes for no
  bundle and mints new certificate authorities, and the config signed by them is sent.
\<close>

lemma Reconfigure_empty_bundle:
  "r_files lab_node (path_join [rc_StateDir lab_reconfigure, ''secrets.yaml'']) = Some ''''
   \<and> (\<exists>cfg s'. Reconfigure lab_env lab_generator lab_reconfigure lab_node = (Inr cfg, s'))"
  using lab_files(2) lab_reconfigured by (auto simp: lab_reconfigure_def)

theorem Reconfigure_honest_witness:
  "\<exists>s'. Reconfigure lab_env lab_generator lab_reconfigure lab_node = (Inr ''controlplane'', s')
     \<and> r_files s' = (r_files lab_node)(path_join [''/s/lab'', ''controlplane.yaml''] \<mapsto> ''controlplane'')
     \<and> node_took lab_env lab_reconfigure (r_files lab_node) ''controlplane'' (r_world s')"
proof -
  obtain s' where s': "Reconfigure lab_env lab_generator lab_reconfigure lab_node = (Inr ''controlplane'', s')"
    using lab_reconfigured by blast
  from Reconfigure_honest [OF lab_order s'] have
    "r_files s' = (r_files lab_node)(path_join [rc_StateDir lab_reconfigure, ''controlplane.yaml''] \<mapsto> ''controlplane'')"
    "node_took lab_env lab_reconfigure (r_files lab_node) ''controlplane'' (r_world s')"
    by auto
  with s' show ?thesis by (simp add: lab_reconfigure_def)
qed

theorem Reconfigure_partition_safe_witness:
  "\<exists>current. r_files lab_node (path_join [rc_StateDir lab_reconfigure, ''controlplane.yaml'']) = Some current \<and> current \<noteq> ''controlplane''"
proof -
  obtain s' where s': "Reconfigure lab_env lab_generator lab_reconfigure lab_node = (Inr ''controlplane'', s')"
    "Apply ''h:50000'' ''controlplane'' \<in> set (r_log s')"
    using lab_reconfigured by blast
  have "r_log s' = r_log lab_node @ r_log s'" by (simp add: lab_node_def)
  from Reconfigure_partition_safe [OF s'(1) this s'(2)] show ?thesis by blast
qed

theorem reconfigureInput_repeats_Up_witness:
  "reconfigureInput (lab_env\<lparr>ue_url := \<lambda>_. Some (''https'', ''h'')\<rparr>) Map.empty (reconfigure_of (lab_options None ''v1.14.1'') ''h'' ''h:50000'') ''v1.14.2'' ''s'' =
   Inr ((config_input (lab_env\<lparr>ue_url := \<lambda>_. Some (''https'', ''h'')\<rparr>) (lab_options None ''v1.14.1'') ''h'')
          \<lparr>in_TalosVersion := ''v1.14.2'', in_SecretsBundle := ''s''\<rparr>)"
  by (rule reconfigureInput_repeats_Up)
    (simp_all add: lab_options_def config_input_def controlPlaneEndpoint_def visible_def)

end
