(* ===== verification/Cluster_Membership.thy ===== *)
theory Cluster_Membership
  imports Cluster_Client
begin

section \<open>Leaving a cluster\<close>

text \<open>
  \<^verbatim>\<open>cluster/membership.go\<close>: taking a member out of etcd, by itself or through a peer, and deleting its
  Kubernetes node. The RPCs are the fields of a record; each runs within \<open>membershipTimeout\<close>, and one
  that takes longer is one that fails. Members come in messages, one per node that answered.
\<close>

definition membershipTimeout :: nat where "membershipTimeout = 30000"

record etcd_member =
  member_Id :: "64 word"
  member_Hostname :: string
  member_PeerUrls :: "string list"

record 'w membership_api =
  mb_leave :: "credential \<Rightarrow> string \<Rightarrow> nat \<Rightarrow> 'w \<Rightarrow> rpc_failure option \<times> 'w"
  mb_list :: "credential \<Rightarrow> string \<Rightarrow> nat \<Rightarrow> 'w \<Rightarrow> (rpc_failure + etcd_member list list) \<times> 'w"
  mb_remove :: "credential \<Rightarrow> string \<Rightarrow> 64 word \<Rightarrow> nat \<Rightarrow> 'w \<Rightarrow> rpc_failure option \<times> 'w"
  mb_delete_node :: "bytes \<Rightarrow> string \<Rightarrow> nat \<Rightarrow> 'w \<Rightarrow> string option \<times> 'w"
  mb_url :: "string \<Rightarrow> (string \<times> string) option"

definition membership_deadline :: "'w talos_api \<Rightarrow> 'w \<Rightarrow> nat" where
  "membership_deadline api w = wait_deadline (tl_clock api) membershipTimeout w"

definition LeaveEtcd :: "'w talos_api \<Rightarrow> 'w membership_api \<Rightarrow> bytes \<Rightarrow> string \<Rightarrow> 'w \<Rightarrow> (client_error + unit) \<times> 'w" where
  "LeaveEtcd api mb talosconfig endpoint w =
     (case AuthenticatedClient api talosconfig endpoint of
        Inl err \<Rightarrow> (Inl err, w)
      | Inr cred \<Rightarrow>
          (case mb_leave mb cred endpoint (membership_deadline api w) w of
             (Some f, w1) \<Rightarrow> (Inl (rpc_error (''asking '' @ endpoint @ '' to leave etcd'') f), w1)
           | (None, w1) \<Rightarrow> (Inr (), w1)))"

fun peerURLOn :: "(string \<Rightarrow> (string \<times> string) option) \<Rightarrow> string list \<Rightarrow> string \<Rightarrow> bool" where
  "peerURLOn url [] addr = False"
| "peerURLOn url (raw # urls) addr =
     (case url raw of
        Some (_, host) \<Rightarrow> if host = addr then True else peerURLOn url urls addr
      | None \<Rightarrow> peerURLOn url urls addr)"

text \<open>The two nested loops: the first member on the address is removed, and the search ends there.\<close>

fun member_on :: "(string \<Rightarrow> (string \<times> string) option) \<Rightarrow> string \<Rightarrow> etcd_member list \<Rightarrow> etcd_member option" where
  "member_on url addr [] = None"
| "member_on url addr (m # ms) = (if peerURLOn url (member_PeerUrls m) addr then Some m else member_on url addr ms)"

fun member_in :: "(string \<Rightarrow> (string \<times> string) option) \<Rightarrow> string \<Rightarrow> etcd_member list list \<Rightarrow> etcd_member option" where
  "member_in url addr [] = None"
| "member_in url addr (msg # msgs) =
     (case member_on url addr msg of Some m \<Rightarrow> Some m | None \<Rightarrow> member_in url addr msgs)"

definition RemoveEtcdMember ::
  "'w talos_api \<Rightarrow> 'w membership_api \<Rightarrow> bytes \<Rightarrow> string \<Rightarrow> string \<Rightarrow> 'w \<Rightarrow> (client_error + unit) \<times> 'w" where
  "RemoveEtcdMember api mb talosconfig via peerAddr w =
     (case AuthenticatedClient api talosconfig via of
        Inl err \<Rightarrow> (Inl err, w)
      | Inr cred \<Rightarrow>
          let d = membership_deadline api w in
          (case mb_list mb cred via d w of
             (Inl f, w1) \<Rightarrow> (Inl (rpc_error (''listing etcd members through '' @ via) f), w1)
           | (Inr msgs, w1) \<Rightarrow>
               (case member_in (mb_url mb) peerAddr msgs of
                  None \<Rightarrow> (Inr (), w1)
                | Some m \<Rightarrow>
                    (case mb_remove mb cred via (member_Id m) d w1 of
                       (Some f, w2) \<Rightarrow> (Inl (rpc_error (''removing etcd member '' @ member_Hostname m @ '' through '' @ via) f), w2)
                     | (None, w2) \<Rightarrow> (Inr (), w2)))))"

text \<open>Only an address of type InternalIP counts, unlike in \<open>nodeHasAddress\<close>.\<close>

fun node_at :: "string \<Rightarrow> node list \<Rightarrow> node option" where
  "node_at addr [] = None"
| "node_at addr (n # ns) = (if (''InternalIP'', addr) \<in> set (node_addresses n) then Some n else node_at addr ns)"

definition DeleteNodeAt ::
  "'w talos_api \<Rightarrow> 'w membership_api \<Rightarrow> bytes \<Rightarrow> string \<Rightarrow> 'w \<Rightarrow> (client_error + unit) \<times> 'w" where
  "DeleteNodeAt api mb kubeconfig addr w =
     (if \<not> kb_parse api kubeconfig then (Inl (Secret_parse ''kubeconfig''), w)
      else case kb_new api kubeconfig of
          Some err \<Rightarrow> (Inl (Kube_client err), w)
        | None \<Rightarrow>
            let d = membership_deadline api w in
            (case kb_nodes api kubeconfig d w of
               (Inl err, w1) \<Rightarrow> (Inl (Kube_call ''listing nodes'' err), w1)
             | (Inr items, w1) \<Rightarrow>
                 (case node_at addr items of
                    None \<Rightarrow> (Inr (), w1)
                  | Some n \<Rightarrow>
                      (case mb_delete_node mb kubeconfig (node_name n) d w1 of
                         (Some err, w2) \<Rightarrow> (Inl (Kube_call (''deleting node '' @ node_name n) err), w2)
                       | (None, w2) \<Rightarrow> (Inr (), w2)))))"

subsection \<open>What is removed\<close>

lemma peerURLOn_iff: "peerURLOn url urls addr \<longleftrightarrow> (\<exists>raw \<in> set urls. \<exists>scheme. url raw = Some (scheme, addr))"
  by (induction urls) (auto split: option.splits)

lemma member_on_find: "member_on url addr ms = find (\<lambda>m. peerURLOn url (member_PeerUrls m) addr) ms"
  by (induction ms) auto

lemma member_in_find: "member_in url addr msgs = find (\<lambda>m. peerURLOn url (member_PeerUrls m) addr) (concat msgs)"
  by (induction msgs) (auto simp: member_on_find find_append split: option.split)

lemma node_at_find: "node_at addr ns = find (\<lambda>n. (''InternalIP'', addr) \<in> set (node_addresses n)) ns"
  by (induction ns) auto

text \<open>
  C31. Removing a member takes out the one on the address and nobody else. Let the listing answer the
  members there are, and a removal drop the member with that identifier; then after a
  \<open>RemoveEtcdMember\<close> that reports success the members are those it listed less the one on that
  address, provided addresses and identifiers tell members apart.
\<close>

theorem RemoveEtcdMember_gone:
  assumes lists: "\<forall>cred ep d w msgs w'. mb_list mb cred ep d w = (Inr msgs, w') \<longrightarrow> concat msgs = members w'"
    and removes: "\<forall>cred ep i d w w'. mb_remove mb cred ep i d w = (None, w') \<longrightarrow> members w' = filter (\<lambda>m. member_Id m \<noteq> i) (members w)"
    and apart: "\<forall>w. \<forall>m \<in> set (members w). \<forall>m' \<in> set (members w). member_Id m = member_Id m' \<or>
      peerURLOn (mb_url mb) (member_PeerUrls m) addr \<and> peerURLOn (mb_url mb) (member_PeerUrls m') addr \<longrightarrow> m = m'"
    and run: "RemoveEtcdMember api mb talosconfig via addr w = (Inr (), w')"
  shows "\<exists>cred d msgs w1. mb_list mb cred via d w = (Inr msgs, w1)
    \<and> members w' = filter (\<lambda>m. \<not> peerURLOn (mb_url mb) (member_PeerUrls m) addr) (members w1)"
proof -
  from run obtain cred msgs w1 where l: "mb_list mb cred via (membership_deadline api w) w = (Inr msgs, w1)"
    and rest: "case member_in (mb_url mb) addr msgs of None \<Rightarrow> w' = w1
      | Some m \<Rightarrow> mb_remove mb cred via (member_Id m) (membership_deadline api w) w1 = (None, w')"
    by (auto simp: RemoveEtcdMember_def Let_def split: sum.splits prod.splits option.splits)
  have found: "member_in (mb_url mb) addr msgs = find (\<lambda>m. peerURLOn (mb_url mb) (member_PeerUrls m) addr) (members w1)"
    using lists l by (simp add: member_in_find)
  have "members w' = filter (\<lambda>m. \<not> peerURLOn (mb_url mb) (member_PeerUrls m) addr) (members w1)"
  proof (cases "member_in (mb_url mb) addr msgs")
    case None
    then have "\<forall>m \<in> set (members w1). \<not> peerURLOn (mb_url mb) (member_PeerUrls m) addr"
      using found by (auto simp: find_None_iff dest: sym)
    with None rest show ?thesis by simp
  next
    case (Some m)
    with found have "find (\<lambda>m. peerURLOn (mb_url mb) (member_PeerUrls m) addr) (members w1) = Some m" by simp
    from find_SomeD [OF this] have m: "peerURLOn (mb_url mb) (member_PeerUrls m) addr" "m \<in> set (members w1)" by simp_all
    have "member_Id m' \<noteq> member_Id m \<longleftrightarrow> \<not> peerURLOn (mb_url mb) (member_PeerUrls m') addr" if "m' \<in> set (members w1)" for m'
      using apart m that by metis
    moreover have "members w' = filter (\<lambda>m'. member_Id m' \<noteq> member_Id m) (members w1)"
      using removes rest Some by fastforce
    ultimately show ?thesis by (simp cong: filter_cong)
  qed
  with l show ?thesis by blast
qed

text \<open>Deleting a node asks for the one whose InternalIP is the address, and for no other.\<close>

lemma DeleteNodeAt_calls:
  assumes "DeleteNodeAt api mb kubeconfig addr w = (Inr (), w')"
  shows "\<exists>d items w1. kb_nodes api kubeconfig d w = (Inr items, w1)
    \<and> (case find (\<lambda>n. (''InternalIP'', addr) \<in> set (node_addresses n)) items of
         None \<Rightarrow> w' = w1
       | Some n \<Rightarrow> mb_delete_node mb kubeconfig (node_name n) d w1 = (None, w'))"
proof -
  obtain q w1 where nodes: "kb_nodes api kubeconfig (membership_deadline api w) w = (q, w1)" by force
  with assms obtain items where "q = Inr items"
    by (cases q) (auto simp: DeleteNodeAt_def Let_def split: if_splits option.splits)
  with assms nodes show ?thesis
    by (intro exI [of _ "membership_deadline api w"] exI [of _ items] exI [of _ w1])
      (auto simp: DeleteNodeAt_def Let_def node_at_find split: if_splits option.splits prod.splits)
qed

subsection \<open>A cluster of two\<close>

definition lab_members :: "etcd_member list" where
  "lab_members = [\<lparr>member_Id = 1, member_Hostname = ''a'', member_PeerUrls = [''u1'']\<rparr>,
                  \<lparr>member_Id = 2, member_Hostname = ''b'', member_PeerUrls = [''u2'']\<rparr>]"

text \<open>The world is the set of the identifiers that have left.\<close>

definition lab_in :: "64 word list \<Rightarrow> etcd_member list" where
  "lab_in w = filter (\<lambda>m. member_Id m \<notin> set w) lab_members"

definition lab_membership :: "64 word list membership_api" where
  "lab_membership = \<lparr>mb_leave = (\<lambda>_ _ _ w. (None, w)), mb_list = (\<lambda>_ _ _ w. (Inr [lab_in w], w)),
     mb_remove = (\<lambda>_ _ i _ w. (None, i # w)), mb_delete_node = (\<lambda>_ _ _ w. (None, w)),
     mb_url = (\<lambda>s. if s = ''u1'' then Some (''https'', ''10.0.0.1'') else Some (''https'', ''10.0.0.2''))\<rparr>"

definition lab_etcd_api :: "64 word list talos_api" where
  "lab_etcd_api = \<lparr>tl_clock = \<lparr>c_now = (\<lambda>_. 0), c_cancelled = (\<lambda>_. False), c_parent = None, c_select = (\<lambda>_ w. (False, w)), c_done = (\<lambda>_ w. w)\<rparr>,
     tl_new = (\<lambda>_ _. None), tl_parse = (\<lambda>_. True), tl_version = (\<lambda>_ _ _ w. (Inr [], w)), tl_stage = (\<lambda>_ _ _ w. (Inr '''', w)),
     tl_apply = (\<lambda>_ _ _ _ w. (None, w)), tl_bootstrap = (\<lambda>_ _ _ w. (None, w)), tl_kubeconfig = (\<lambda>_ _ _ w. (Inr '''', w)),
     kb_parse = (\<lambda>_. True), kb_new = (\<lambda>_. None), kb_nodes = (\<lambda>_ _ w. (Inr [], w)), kb_load = (\<lambda>_. None), kb_write = (\<lambda>_. None)\<rparr>"

theorem RemoveEtcdMember_gone_witness:
  "\<exists>w'. RemoveEtcdMember lab_etcd_api lab_membership ''t'' ''h:1'' ''10.0.0.2'' [] = (Inr (), w')
     \<and> (\<exists>w1. lab_in w' = filter (\<lambda>m. \<not> peerURLOn (mb_url lab_membership) (member_PeerUrls m) ''10.0.0.2'') (lab_in w1))"
proof -
  have run: "RemoveEtcdMember lab_etcd_api lab_membership ''t'' ''h:1'' ''10.0.0.2'' [] = (Inr (), [2])"
    by (simp add: RemoveEtcdMember_def AuthenticatedClient_def lab_etcd_api_def lab_membership_def lab_in_def lab_members_def Let_def)
  have lists: "\<forall>cred ep d w msgs w'. mb_list lab_membership cred ep d w = (Inr msgs, w') \<longrightarrow> concat msgs = lab_in w'"
    and removes: "\<forall>cred ep i d w w'. mb_remove lab_membership cred ep i d w = (None, w') \<longrightarrow>
      lab_in w' = filter (\<lambda>m. member_Id m \<noteq> i) (lab_in w)"
    by (auto simp: lab_membership_def lab_in_def intro: filter_cong)
  have apart: "\<forall>w. \<forall>m \<in> set (lab_in w). \<forall>m' \<in> set (lab_in w). member_Id m = member_Id m' \<or>
      peerURLOn (mb_url lab_membership) (member_PeerUrls m) ''10.0.0.2'' \<and> peerURLOn (mb_url lab_membership) (member_PeerUrls m') ''10.0.0.2'' \<longrightarrow> m = m'"
    by (auto simp: lab_in_def lab_members_def lab_membership_def)
  from RemoveEtcdMember_gone [OF lists removes apart run] run show ?thesis by blast
qed

end
