(* ===== verification/Cluster_Storage.thy ===== *)
theory Cluster_Storage
  imports Cluster_Config Go_Effect Go_Strings Go_Value
begin

section \<open>Installing the StorageClass\<close>

text \<open>
  \<^verbatim>\<open>cluster/storage.go\<close>: the embedded manifest, patched, decoded and sent object by object. The YAML
  reader and decoder, the JSON encoder, the cluster's mapping of kinds to resources and the dynamic
  client are the fields of a record; the state is the world and the requests made.
\<close>

definition upstreamRootPath :: string where "upstreamRootPath = ''/opt/local-path-provisioner''"

definition mountPath :: "string \<Rightarrow> string" where
  "mountPath UserVolumeMountPoint = UserVolumeMountPoint @ ''/'' @ userVolumeName"

record mapping =
  map_Resource :: string
  map_Namespaced :: bool

text \<open>
  What the manifest passes through. \<open>st_read\<close> is the documents the YAML reader gives before its end of
  file or its error, \<open>st_unmarshal\<close> the decoder into a map, \<open>st_mapping\<close> the cluster's answer for an
  API version and a kind.
\<close>

record 'w storage_api =
  st_mount_point :: string
  st_read :: "bytes \<Rightarrow> bytes list \<times> string option"
  st_unmarshal :: "bytes \<Rightarrow> string + obj"
  st_marshal :: "obj \<Rightarrow> string + bytes"
  st_mapping :: "string \<Rightarrow> string \<Rightarrow> 'w \<Rightarrow> (string + mapping) \<times> 'w"
  st_patch :: "string \<Rightarrow> string option \<Rightarrow> string \<Rightarrow> bytes \<Rightarrow> 'w \<Rightarrow> string option \<times> 'w"
  st_parse :: "bytes \<Rightarrow> bool"
  st_dynamic :: "bytes \<Rightarrow> string option"
  st_discovery :: "bytes \<Rightarrow> string option"

text \<open>A server-side apply: the resource, the namespace when it has one, the name and the body.\<close>

record request =
  rq_resource :: string
  rq_namespace :: "string option"
  rq_name :: string
  rq_body :: bytes

record 'w install_run =
  ir_world :: 'w
  ir_requests :: "request list"

datatype storage_error =
  Root_path_count nat
| Manifest_unreadable nat string
| Manifest_unparsable nat string
| Manifest_untyped nat string string
| Manifest_empty
| St_secret_parse
| St_client string
| St_discovery string
| St_mapping string string string
| St_encoding string string string
| St_applying string string string

definition render :: "string \<Rightarrow> bytes \<Rightarrow> storage_error + bytes" where
  "render mount_point manifest =
     (let n = bytes_Count manifest upstreamRootPath in
      if n \<noteq> 1 then Inl (Root_path_count n)
      else Inr (ReplaceAll manifest upstreamRootPath (mountPath mount_point)))"

definition GetKind :: "obj \<Rightarrow> string" where
  "GetKind ob = nested_string ob [''kind'']"

definition GetAPIVersion :: "obj \<Rightarrow> string" where
  "GetAPIVersion ob = nested_string ob [''apiVersion'']"

text \<open>The loop of \<open>decode\<close>, from document \<open>i\<close> on; the end of the documents is the reader's end of file or error.\<close>

fun decode_loop :: "'w storage_api \<Rightarrow> string option \<Rightarrow> nat \<Rightarrow> bytes list \<Rightarrow> storage_error + obj list" where
  "decode_loop st read_error i [] = (case read_error of None \<Rightarrow> Inr [] | Some err \<Rightarrow> Inl (Manifest_unreadable i err))"
| "decode_loop st read_error i (doc # docs) =
     (case st_unmarshal st doc of
        Inl err \<Rightarrow> Inl (Manifest_unparsable i err)
      | Inr content \<Rightarrow>
          if content = [] then decode_loop st read_error (i + 1) docs
          else if GetKind content = '''' \<or> GetAPIVersion content = ''''
          then Inl (Manifest_untyped i (GetAPIVersion content) (GetKind content))
          else and_then (decode_loop st read_error (i + 1) docs) (\<lambda>objs. Inr (content # objs)))"

definition decode :: "'w storage_api \<Rightarrow> bytes \<Rightarrow> storage_error + obj list" where
  "decode st manifest = (case st_read st manifest of (docs, err) \<Rightarrow> decode_loop st err 0 docs)"

definition objectsIn :: "'w storage_api \<Rightarrow> bytes \<Rightarrow> storage_error + obj list" where
  "objectsIn st manifest =
     and_then (render (st_mount_point st) manifest) (\<lambda>rendered.
     and_then (decode st rendered) (\<lambda>objs.
     if objs = [] then Inl Manifest_empty else Inr objs))"

text \<open>One object: the cluster decides whether it is namespaced; the request is logged when it is made.\<close>

definition apply_object :: "'w storage_api \<Rightarrow> obj \<Rightarrow> ('w install_run, storage_error, unit) effect" where
  "apply_object st ob s =
     (case st_mapping st (GetAPIVersion ob) (GetKind ob) (ir_world s) of
        (Inl err, w1) \<Rightarrow> (Inl (St_mapping (GetKind ob) (GetName ob) err), s\<lparr>ir_world := w1\<rparr>)
      | (Inr m, w1) \<Rightarrow>
          (case st_marshal st ob of
             Inl err \<Rightarrow> (Inl (St_encoding (GetKind ob) (GetName ob) err), s\<lparr>ir_world := w1\<rparr>)
           | Inr data \<Rightarrow>
               let ns = (if map_Namespaced m then Some (GetNamespace ob) else None);
                   requests = ir_requests s @ [\<lparr>rq_resource = map_Resource m, rq_namespace = ns, rq_name = GetName ob, rq_body = data\<rparr>]
               in (case st_patch st (map_Resource m) ns (GetName ob) data w1 of
                     (Some err, w2) \<Rightarrow> (Inl (St_applying (GetKind ob) (GetName ob) err), \<lparr>ir_world = w2, ir_requests = requests\<rparr>)
                   | (None, w2) \<Rightarrow> (Inr (), \<lparr>ir_world = w2, ir_requests = requests\<rparr>))))"

fun apply_objects :: "'w storage_api \<Rightarrow> obj list \<Rightarrow> ('w install_run, storage_error, unit) effect" where
  "apply_objects st [] = give ()"
| "apply_objects st (ob # obs) = then_do (apply_object st ob) (\<lambda>_. apply_objects st obs)"

definition InstallStorage :: "'w storage_api \<Rightarrow> bytes \<Rightarrow> bytes \<Rightarrow> ('w install_run, storage_error, unit) effect" where
  "InstallStorage st localPathManifest kubeconfig =
     then_do (lift_result (objectsIn st localPathManifest)) (\<lambda>objs.
     if \<not> st_parse st kubeconfig then refuse St_secret_parse
     else case st_dynamic st kubeconfig of
         Some err \<Rightarrow> refuse (St_client err)
       | None \<Rightarrow>
           (case st_discovery st kubeconfig of
              Some err \<Rightarrow> refuse (St_discovery err)
            | None \<Rightarrow> apply_objects st objs))"

subsection \<open>The manifest\<close>

text \<open>Rendering changes the one occurrence of the upstream path, or refuses.\<close>

lemma render_exact:
  assumes "render mp manifest = Inr out"
  shows "\<exists>u v. manifest = u @ upstreamRootPath @ v \<and> out = u @ mountPath mp @ v"
  using assms ReplaceAll_once [of manifest upstreamRootPath "mountPath mp"]
  by (auto simp: render_def Let_def split: if_splits)

lemma decode_loop_typed:
  "decode_loop st err i docs = Inr objs \<Longrightarrow>
   objs = filter (\<lambda>ob. ob \<noteq> []) (map (\<lambda>d. case st_unmarshal st d of Inr ob \<Rightarrow> ob | Inl _ \<Rightarrow> []) docs)
   \<and> (\<forall>ob \<in> set objs. GetKind ob \<noteq> '''' \<and> GetAPIVersion ob \<noteq> '''') \<and> err = None"
proof (induction docs arbitrary: i objs)
  case (Cons d docs)
  show ?case
  proof (cases "st_unmarshal st d")
    case (Inr content)
    with Cons show ?thesis by (cases "content = []") (auto simp: result_simps split: if_splits)
  qed (use Cons.prems in auto)
qed (auto split: option.splits)

subsection \<open>Nothing is left out\<close>

definition request_for :: "'w storage_api \<Rightarrow> obj \<Rightarrow> request \<Rightarrow> bool" where
  "request_for st ob r =
     (rq_name r = GetName ob \<and> st_marshal st ob = Inr (rq_body r)
      \<and> (\<exists>w m w'. st_mapping st (GetAPIVersion ob) (GetKind ob) w = (Inr m, w') \<and> rq_resource r = map_Resource m
           \<and> rq_namespace r = (if map_Namespaced m then Some (GetNamespace ob) else None)))"

lemma apply_object_request:
  assumes "apply_object st ob s = (r, s')"
  shows "ir_requests s' = ir_requests s \<and> (\<exists>err. r = Inl err) \<or> (\<exists>rq. ir_requests s' = ir_requests s @ [rq] \<and> request_for st ob rq)"
proof -
  obtain q w1 where q: "st_mapping st (GetAPIVersion ob) (GetKind ob) (ir_world s) = (q, w1)" by force
  show ?thesis
  proof (cases "\<exists>m data. q = Inr m \<and> st_marshal st ob = Inr data")
    case True
    then obtain m data where "q = Inr m" "st_marshal st ob = Inr data" by blast
    with assms q show ?thesis
      by (intro disjI2 exI [of _ "\<lparr>rq_resource = map_Resource m,
            rq_namespace = (if map_Namespaced m then Some (GetNamespace ob) else None), rq_name = GetName ob, rq_body = data\<rparr>"])
        (auto simp: apply_object_def request_for_def Let_def split: prod.splits option.splits)
  next
    case False
    with assms q show ?thesis by (cases q; cases "st_marshal st ob") (auto simp: apply_object_def)
  qed
qed

lemma apply_objects_requests:
  assumes "apply_objects st obs s = (r, s')"
  shows "\<exists>rs. ir_requests s' = ir_requests s @ rs \<and> (\<exists>n. list_all2 (request_for st) (take n obs) rs)
    \<and> (r = Inr () \<longrightarrow> list_all2 (request_for st) obs rs)"
  using assms
proof (induction obs arbitrary: s)
  case Nil
  then show ?case by (auto simp: give_def)
next
  case (Cons ob obs)
  obtain q s1 where q: "apply_object st ob s = (q, s1)" by force
  show ?case
  proof (cases q)
    case (Inl err)
    with Cons.prems q have "s' = s1" "r = Inl err" by (auto simp: then_do_def)
    with apply_object_request [OF q] show ?thesis
    proof (elim disjE exE conjE)
      assume "ir_requests s1 = ir_requests s"
      with \<open>s' = s1\<close> \<open>r = Inl err\<close> show ?thesis by (intro exI [of _ "[]"] conjI exI [of _ 0]) auto
    next
      fix rq
      assume "ir_requests s1 = ir_requests s @ [rq]" "request_for st ob rq"
      with \<open>s' = s1\<close> \<open>r = Inl err\<close> show ?thesis by (intro exI [of _ "[rq]"] conjI exI [of _ 1]) auto
    qed
  next
    case (Inr u)
    with Cons.prems q have run: "apply_objects st obs s1 = (r, s')" by (auto simp: then_do_def)
    from apply_object_request [OF q] Inr obtain rq where rq: "ir_requests s1 = ir_requests s @ [rq]" "request_for st ob rq" by auto
    from Cons.IH [OF run] obtain rs n where rs: "ir_requests s' = ir_requests s1 @ rs" "list_all2 (request_for st) (take n obs) rs"
      "r = Inr () \<longrightarrow> list_all2 (request_for st) obs rs" by blast
    with rq show ?thesis by (intro exI [of _ "rq # rs"] conjI exI [of _ "Suc n"]) auto
  qed
qed

text \<open>
  C32. An installation that reports success has sent every object of the manifest, in the manifest's
  order, each where the cluster says its kind lives, and there is at least one. The manifest it reads
  them from is the embedded one with the one occurrence of the upstream path, which Talos cannot
  write, replaced by the user volume's.
\<close>

theorem InstallStorage_complete:
  assumes "InstallStorage st manifest kubeconfig s = (Inr (), s')"
  shows "\<exists>u v docs rs. manifest = u @ upstreamRootPath @ v \<and> st_read st (u @ mountPath (st_mount_point st) @ v) = (docs, None)
    \<and> ir_requests s' = ir_requests s @ rs \<and> rs \<noteq> []
    \<and> list_all2 (request_for st)
        (filter (\<lambda>ob. ob \<noteq> []) (map (\<lambda>d. case st_unmarshal st d of Inr ob \<Rightarrow> ob | Inl _ \<Rightarrow> []) docs)) rs"
proof -
  from assms obtain objs where objs: "objectsIn st manifest = Inr objs" and run: "apply_objects st objs s = (Inr (), s')"
    by (auto simp: InstallStorage_def then_do_eq lift_result_def refuse_def split: if_splits option.splits)
  from objs obtain out where out: "render (st_mount_point st) manifest = Inr out" "decode st out = Inr objs" "objs \<noteq> []"
    by (auto simp: objectsIn_def result_simps split: if_splits)
  from render_exact [OF out(1)] obtain u v where uv: "manifest = u @ upstreamRootPath @ v" "out = u @ mountPath (st_mount_point st) @ v"
    by blast
  from out(2) obtain docs err where docs: "st_read st out = (docs, err)" "decode_loop st err 0 docs = Inr objs"
    by (auto simp: decode_def split: prod.splits)
  from apply_objects_requests [OF run] obtain rs where rs: "ir_requests s' = ir_requests s @ rs" "list_all2 (request_for st) objs rs"
    by auto
  have "rs \<noteq> []" using rs(2) out(3) by auto
  with uv docs rs decode_loop_typed [OF docs(2)] show ?thesis
    by (intro exI [of _ u] exI [of _ v] exI [of _ docs] exI [of _ rs]) simp
qed

subsection \<open>A manifest of one object\<close>

definition lab_namespace :: obj where
  "lab_namespace = [(''apiVersion'', VStr ''v1''), (''kind'', VStr ''Namespace'')]"

definition lab_storage :: "unit storage_api" where
  "lab_storage = \<lparr>st_mount_point = ''/var/mnt'', st_read = (\<lambda>m. ([m], None)), st_unmarshal = (\<lambda>_. Inr lab_namespace),
     st_marshal = (\<lambda>_. Inr ''{}''), st_mapping = (\<lambda>_ _ w. (Inr \<lparr>map_Resource = ''namespaces'', map_Namespaced = False\<rparr>, w)),
     st_patch = (\<lambda>_ _ _ _ w. (None, w)), st_parse = (\<lambda>_. True), st_dynamic = (\<lambda>_. None), st_discovery = (\<lambda>_. None)\<rparr>"

lemma lab_split: "split_str upstreamRootPath (''a'' @ upstreamRootPath @ ''b'') = [''a'', ''b'']"
proof -
  have "split_str upstreamRootPath (''a'' @ upstreamRootPath @ ''b'') = ''a'' # split_str upstreamRootPath ''b''"
    by (rule split_str_first) (simp_all add: upstreamRootPath_def has_prefix_def)
  also have "split_str upstreamRootPath ''b'' = [''b'']" by (rule split_str_plain) (simp add: upstreamRootPath_def has_prefix_def)
  finally show ?thesis .
qed

lemma lab_installed:
  "InstallStorage lab_storage (''a'' @ upstreamRootPath @ ''b'') ''k'' \<lparr>ir_world = (), ir_requests = []\<rparr> =
   (Inr (), \<lparr>ir_world = (), ir_requests = [\<lparr>rq_resource = ''namespaces'', rq_namespace = None, rq_name = '''', rq_body = ''{}''\<rparr>]\<rparr>)"
proof -
  have "render ''/var/mnt'' (''a'' @ upstreamRootPath @ ''b'') = Inr (''a'' @ mountPath ''/var/mnt'' @ ''b'')"
    using lab_split by (simp add: render_def bytes_Count_def ReplaceAll_def)
  moreover have "decode lab_storage m = Inr [lab_namespace]" for m
    by (simp add: decode_def lab_storage_def lab_namespace_def GetKind_def GetAPIVersion_def nested_string_def)
  moreover have "st_mount_point lab_storage = ''/var/mnt''" by (simp add: lab_storage_def)
  ultimately have "objectsIn lab_storage (''a'' @ upstreamRootPath @ ''b'') = Inr [lab_namespace]" by (simp add: objectsIn_def)
  then show ?thesis
    by (simp add: InstallStorage_def then_do_def lift_result_def lab_storage_def apply_object_def give_def Let_def
        lab_namespace_def GetName_def nested_string_def)
qed

theorem InstallStorage_complete_witness:
  "\<exists>docs rs. rs \<noteq> [] \<and> list_all2 (request_for lab_storage)
     (filter (\<lambda>ob. ob \<noteq> []) (map (\<lambda>d. case st_unmarshal lab_storage d of Inr ob \<Rightarrow> ob | Inl _ \<Rightarrow> []) docs)) rs"
  using InstallStorage_complete [OF lab_installed] by blast

end
