(* ===== verification/Tinq_Capacity.thy ===== *)
theory Tinq_Capacity
  imports Tinq_Host
begin

section \<open>Host memory for a site\<close>

text \<open>
  \<^verbatim>\<open>cmd/tinq/capacity.go\<close>: the memory of the host, read as macOS or Linux reports it, and the check
  that a joining VM does not bring the running VMs of its site over 85 per cent of it. Sums and
  products wrap at 64 bits as Go's do.
\<close>

definition memoryMarginPercent :: int where "memoryMarginPercent = 85"

text \<open>\<^verbatim>\<open>strings.Fields\<close>, on the white space of \<open>space_seqs\<close>; a word is not empty, so the length bounds the words.\<close>

fun word_length :: "string \<Rightarrow> nat" where
  "word_length [] = 0"
| "word_length (c # s) = (if list_ex (has_prefix (c # s)) space_seqs then 0 else Suc (word_length s))"

fun fields_upto :: "nat \<Rightarrow> string \<Rightarrow> string list" where
  "fields_upto 0 s = []"
| "fields_upto (Suc n) s =
     (let t = trim_left s in
      if t = [] then [] else take (word_length t) t # fields_upto n (drop (word_length t) t))"

definition Fields :: "string \<Rightarrow> string list" where
  "Fields s = fields_upto (length s) s"

text \<open>Integer division of Go: it truncates towards zero.\<close>

definition go_div :: "int \<Rightarrow> int \<Rightarrow> int" where
  "go_div a b = sgn a * sgn b * (\<bar>a\<bar> div \<bar>b\<bar>)"

record mem_facts =
  mf_goos :: string
  mf_sysctl :: "string + bytes"
  mf_meminfo :: "string + bytes"

datatype mem_error =
  Memsize_unreadable string
| Memsize_unparsable
| Meminfo_unreadable string
| MemTotal_unparsable
| No_MemTotal

fun scan_meminfo :: "string list \<Rightarrow> mem_error + int" where
  "scan_meminfo [] = Inl No_MemTotal"
| "scan_meminfo (l # ls) =
     (case Fields l of
        f # g # _ \<Rightarrow>
          if f = ''MemTotal:'' then (case atoi g of (kb, ok) \<Rightarrow> if ok then Inr (go_div kb 1024) else Inl MemTotal_unparsable)
          else scan_meminfo ls
      | _ \<Rightarrow> scan_meminfo ls)"

definition hostMemTotalMB :: "mem_facts \<Rightarrow> mem_error + int" where
  "hostMemTotalMB mf =
     (if mf_goos mf = ''darwin'' then
        (case mf_sysctl mf of
           Inl err \<Rightarrow> Inl (Memsize_unreadable err)
         | Inr out \<Rightarrow>
             (case atoi (trim_space out) of (b, ok) \<Rightarrow> if ok then Inr (b div 2 ^ 20) else Inl Memsize_unparsable))
      else
        (case mf_meminfo mf of
           Inl err \<Rightarrow> Inl (Meminfo_unreadable err)
         | Inr b \<Rightarrow> scan_meminfo (split_on (CHR 0x0A) b)))"

datatype capacity_error =
  Cap_memory mem_error
| Cap_site clusternet_error
| Cap_over "(string \<times> int) list" int int int

definition declared_memory :: "obj \<Rightarrow> int" where
  "declared_memory m = toMB (str (VStr (nested_string m [''spec'', ''memory''])) ''2Gi'')"

definition is_running :: "env \<Rightarrow> hostw \<Rightarrow> obj \<Rightarrow> bool" where
  "is_running e w m = (case Observe_hvf e m w of Inr (Running, _) \<Rightarrow> True | _ \<Rightarrow> False)"

text \<open>The loop: the sum so far and the lines of the refusal.\<close>

fun add_running :: "env \<Rightarrow> hostw \<Rightarrow> obj \<Rightarrow> siteMachine list \<Rightarrow> int \<Rightarrow> int \<times> (string \<times> int) list" where
  "add_running e w m [] acc = (acc, [])"
| "add_running e w m (other # others) acc =
     (if GetName (fst other) = GetName m \<or> \<not> is_running e w (fst other) then add_running e w m others acc
      else let mb = declared_memory (fst other) in
           case add_running e w m others (int64 (acc + mb)) of (sum1, lines) \<Rightarrow> (sum1, (GetName (fst other), mb) # lines))"

definition checkCapacity :: "env \<Rightarrow> mem_facts \<Rightarrow> hostw \<Rightarrow> obj \<Rightarrow> capacity_error option" where
  "checkCapacity e mf w m =
     (case hostMemTotalMB mf of
        Inl err \<Rightarrow> Some (Cap_memory err)
      | Inr memTotal \<Rightarrow>
        (case siteMachines (site_view_of e w) (e_stateRoot e) (nested_string m [''spec'', ''site'']) (dir_of e m) of
           Inl err \<Rightarrow> Some (Cap_site err)
         | Inr machines \<Rightarrow>
             let mine = declared_memory m;
                 (acc, lines) = add_running e w m machines mine;
                 limit = go_div (int64 (memTotal * memoryMarginPercent)) 100
             in if acc \<le> limit then None else Some (Cap_over (lines @ [(GetName m, mine)]) acc limit memTotal)))"

subsection \<open>The margin\<close>

text \<open>The memory the site's running VMs declare, other than \<open>m\<close> itself.\<close>

definition site_memory :: "env \<Rightarrow> hostw \<Rightarrow> obj \<Rightarrow> siteMachine list \<Rightarrow> int" where
  "site_memory e w m machines =
     sum_list (map (\<lambda>other. declared_memory (fst other))
       (filter (\<lambda>other. GetName (fst other) \<noteq> GetName m \<and> is_running e w (fst other)) machines))"

lemma int64_int64_add: "int64 (int64 a + b) = int64 (a + b)"
proof -
  have "(int64 a + b + 2 ^ 63) mod 2 ^ 64 = (a + b + 2 ^ 63) mod 2 ^ 64"
    unfolding int64_def by (simp add: mod_simps algebra_simps)
  then show ?thesis by (simp add: int64_def)
qed


lemma int64_range: "- (2 ^ 63) \<le> int64 x" "int64 x < 2 ^ 63"
  using pos_mod_bound [of "2 ^ 64" "x + 2 ^ 63"] pos_mod_sign [of "2 ^ 64" "x + 2 ^ 63"] by (simp_all add: int64_def)

lemma add_running_sum:
  "- (2 ^ 63) \<le> acc \<Longrightarrow> acc < 2 ^ 63 \<Longrightarrow> fst (add_running e w m machines acc) = int64 (acc + site_memory e w m machines)"
proof (induction machines arbitrary: acc)
  case Nil
  then show ?case by (simp add: site_memory_def int64_id)
next
  case (Cons other others)
  show ?case
  proof (cases "GetName (fst other) = GetName m \<or> \<not> is_running e w (fst other)")
    case True
    with Cons show ?thesis by (auto simp: site_memory_def)
  next
    case False
    let ?acc = "int64 (acc + declared_memory (fst other))"
    have "fst (add_running e w m others ?acc) = int64 (?acc + site_memory e w m others)"
      using Cons.IH int64_range by blast
    also have "\<dots> = int64 (acc + (declared_memory (fst other) + site_memory e w m others))"
      unfolding int64_int64_add by (simp only: add.assoc)
    also have "declared_memory (fst other) + site_memory e w m others = site_memory e w m (other # others)"
      using False by (simp add: site_memory_def)
    finally show ?thesis using False by (simp add: Let_def case_prod_beta)
  qed
qed

lemma declared_memory_range: "- (2 ^ 63) \<le> declared_memory m" "declared_memory m < 2 ^ 63"
  using int64_range by (auto simp: declared_memory_def toMB_def Let_def split: prod.splits)

lemma go_div_margin: "0 \<le> a \<Longrightarrow> x \<le> go_div a 100 \<longleftrightarrow> 100 * x \<le> a"
  by (cases "a = 0") (auto simp: go_div_def sgn_if)

text \<open>
  C34. A joiner passes the capacity check exactly when its declared memory and that of the running VMs
  of its site add up to at most 85 per cent of the host's, as long as neither side leaves 64 bits.
\<close>

theorem checkCapacity_iff:
  assumes "hostMemTotalMB mf = Inr memTotal" "0 \<le> memTotal" "memTotal * 85 < 2 ^ 63"
    and "siteMachines (site_view_of e w) (e_stateRoot e) (nested_string m [''spec'', ''site'']) (dir_of e m) = Inr machines"
    and "0 \<le> declared_memory m + site_memory e w m machines" "declared_memory m + site_memory e w m machines < 2 ^ 63"
  shows "checkCapacity e mf w m = None \<longleftrightarrow> 100 * (declared_memory m + site_memory e w m machines) \<le> 85 * memTotal"
proof -
  have "fst (add_running e w m machines (declared_memory m)) = declared_memory m + site_memory e w m machines"
    using add_running_sum [OF declared_memory_range] int64_id assms(5,6) by simp
  moreover have "int64 (memTotal * memoryMarginPercent) = memTotal * 85"
    using assms(2,3) by (simp add: memoryMarginPercent_def int64_id)
  ultimately show ?thesis
    using assms(1,2,4) by (auto simp: checkCapacity_def Let_def go_div_margin split: prod.splits)
qed

text \<open>A running owner and the machine that joins it, for the witnesses.\<close>

definition duo_member :: "string \<Rightarrow> string \<Rightarrow> 32 word \<Rightarrow> obj" where
  "duo_member name owner a =
     [(''metadata'', VMap [(''name'', VStr name), (''uid'', VStr name)]),
      (''spec'', VMap [(''site'', VStr ''lab''), (''memory'', VStr ''2Gi''), (''joins'', VStr owner),
         (''clusterNetwork'', VMap [(''cidr'', VStr (prefix_string 0x0AFE0000 24)), (''address'', VStr (v4_string a))])])]"

definition duo_owner :: obj where "duo_owner = duo_member ''a'' '''' 0x0AFE000A"

definition duo_joiner :: obj where "duo_joiner = duo_member ''b'' ''a'' 0x0AFE000B"

definition duo_env :: env where
  "duo_env = quiet_env\<lparr>e_unmarshal := (\<lambda>b. if b = ''A'' then Some duo_owner else if b = ''B'' then Some duo_joiner else None)\<rparr>"

definition duo_host :: hostw where
  "duo_host = \<lparr>hw_files = [''/s/lab/a/machine.yaml'' \<mapsto> ''A'', ''/s/lab/b/machine.yaml'' \<mapsto> ''B'', ''/a.yaml'' \<mapsto> ''A'', ''/b.yaml'' \<mapsto> ''B'',
     ''/s/lab/a/system.qcow2'' \<mapsto> ''disk'', ''/s/lab/a/qemu.pid'' \<mapsto> ''42'',
     ''/s/lab/a/secrets.yaml'' \<mapsto> ''pki'', ''/s/lab/a/kubeconfig'' \<mapsto> ''kube'', ''/s/lab/a/cluster-endpoint'' \<mapsto> ''https://a''],
     hw_dirs = [''/s/lab/a'', ''/s/lab/b''], hw_procs = [42 \<mapsto> ''qemu /s/lab/a/qemu.pid''], hw_cancelled = False\<rparr>"

lemmas duo_world = duo_env_def duo_host_def quiet_env_def
lemmas path_eval = path_join_def clean_def clean_comps_def

lemma duo_fields [simp]:
  "GetName (duo_member n j a) = n" "GetUID (duo_member n j a) = n" "nested_string (duo_member n j a) [''spec'', ''site''] = ''lab''"
  "GetNamespace (duo_member n j a) = ''''" "nested_string (duo_member n j a) [''spec'', ''joins''] = j" "\<not> isBaremetal (duo_member n j a)"
  by (simp_all add: duo_member_def GetName_def GetUID_def GetNamespace_def nested_string_def isBaremetal_iff)

lemma duo_dir: "dir_of duo_env duo_owner = ''/s/lab/a''" "dir_of duo_env duo_joiner = ''/s/lab/b''"
  by (simp_all add: dir_of_def machine_dir_def duo_world duo_owner_def duo_joiner_def path_eval)

lemma duo_network:
  "specClusterNetwork (e_pod duo_env) (e_svc duo_env) duo_owner =
     Inr (Some \<lparr>Name = ''cluster'', CIDR = (V4 0x0AFE0000, 24), Addr = V4 0x0AFE000A, Group = Invalid, Port = 0\<rparr>)"
  "specClusterNetwork (e_pod duo_env) (e_svc duo_env) duo_joiner =
     Inr (Some \<lparr>Name = ''cluster'', CIDR = (V4 0x0AFE0000, 24), Addr = V4 0x0AFE000B, Group = Invalid, Port = 0\<rparr>)"
proof -
  have "str (VStr (prefix_string w n)) '''' = prefix_string w n" "str (VStr (v4_string w)) '''' = v4_string w" "prefix_string w n \<noteq> ''''" "v4_string w \<noteq> ''''" for w n
    by (auto simp: str_def prefix_string_def v4_string_def v4_octets_def)
  note texts = this
  show "specClusterNetwork (e_pod duo_env) (e_svc duo_env) duo_owner =
     Inr (Some \<lparr>Name = ''cluster'', CIDR = (V4 0x0AFE0000, 24), Addr = V4 0x0AFE000A, Group = Invalid, Port = 0\<rparr>)"
  "specClusterNetwork (e_pod duo_env) (e_svc duo_env) duo_joiner =
     Inr (Some \<lparr>Name = ''cluster'', CIDR = (V4 0x0AFE0000, 24), Addr = V4 0x0AFE000B, Group = Invalid, Port = 0\<rparr>)"
    by (simp_all add: texts duo_world duo_owner_def duo_joiner_def duo_member_def specClusterNetwork_def field_def read_cidr_def ParsePrefix_prefix_string Is4_def
        Masked_def overlaps_def UserModeNetwork_def read_address_def contains_def addr_next_def read_group_def
        read_port_def str_def defaultClusterNetworkName_def)
qed

lemma duo_site:
  "siteMachines (site_view_of duo_env duo_host) (e_stateRoot duo_env) ''lab'' ''/s/lab/b'' = Inr [(duo_owner, ''/s/lab/a'')]"
  "siteMachines (site_view_of duo_env duo_host) (e_stateRoot duo_env) ''lab'' ''/s/lab/a'' = Inr [(duo_joiner, ''/s/lab/b'')]"
  by (simp_all add: siteMachines_def site_view_of_def duo_world below_def site_entries_def has_prefix_def path_eval machineRecordName_def)

lemma duo_running: "is_running duo_env duo_host duo_owner" "\<not> is_running duo_env duo_host duo_joiner"
proof -
  have "readPid duo_env duo_host ''/s/lab/a'' = 42"
    by (simp add: readPid_def read_file_def duo_world path_eval
        trim_space_visible visible_def atoi_def atoi_digits_def ascii_digit_def digit_val_def)
  moreover have "matches duo_env duo_host 42 ''/s/lab/a''"
    by (simp add: matches_def ProcessMatches_def processCmdline_def linuxCmdline_def procs_of_def duo_world
      machineToken_def path_eval parseCmdline_def has_prefix_def)
  moreover have "stat duo_env duo_host (path_join [''/s/lab/a'', ''system.qcow2'']) = Present"
    "stat duo_env duo_host (path_join [''/s/lab/b'', ''system.qcow2'']) = Not_there"
    by (simp_all add: stat_def duo_world path_eval)
  moreover have "\<not> isBaremetal duo_owner" "\<not> isBaremetal duo_joiner" by (simp_all add: duo_owner_def duo_joiner_def)
  ultimately show "is_running duo_env duo_host duo_owner" "\<not> is_running duo_env duo_host duo_joiner" 
   by (simp_all add: is_running_def Observe_hvf_def duo_dir)
qed


lemma duo_memory: "declared_memory duo_owner = 2048" "declared_memory duo_joiner = 2048"
proof -
  have "trim_space ''2Gi'' = ''2Gi''" by (rule trim_space_visible) (simp add: visible_def)
  then have "toMB ''2Gi'' = 2048"
    by (simp add: toMB_def has_suffix_def trim_right_set_def atoi_def atoi_digits_def ascii_digit_def digit_val_def int64_def)
  then show "declared_memory duo_owner = 2048" "declared_memory duo_joiner = 2048"
    by (simp_all add: declared_memory_def duo_owner_def duo_joiner_def duo_member_def nested_string_def str_def)
qed

definition duo_facts :: mem_facts where
  "duo_facts = \<lparr>mf_goos = ''darwin'', mf_sysctl = Inr ''8589934592'', mf_meminfo = Inl ''absent''\<rparr>"

lemma duo_total: "hostMemTotalMB duo_facts = Inr 8192"
  by (simp add: hostMemTotalMB_def duo_facts_def trim_space_visible visible_def atoi_def atoi_digits_def ascii_digit_def digit_val_def)

lemma duo_others:
  "siteMachines (site_view_of duo_env duo_host) (e_stateRoot duo_env) (nested_string duo_joiner [''spec'', ''site'']) (dir_of duo_env duo_joiner) =
     Inr [(duo_owner, ''/s/lab/a'')]"
  "site_memory duo_env duo_host duo_joiner [(duo_owner, ''/s/lab/a'')] = 2048"
  using duo_site duo_dir duo_running duo_memory
  by (simp_all add: site_memory_def) (simp_all add: duo_owner_def duo_joiner_def)

lemma duo_capacity: "checkCapacity duo_env duo_facts duo_host duo_joiner = None"
  by (simp add: checkCapacity_def duo_total duo_others(1) duo_memory duo_running memoryMarginPercent_def go_div_def int64_def Let_def)

theorem checkCapacity_iff_witness: "checkCapacity duo_env duo_facts duo_host duo_joiner = None"
  using checkCapacity_iff [OF duo_total _ _ duo_others(1)] duo_memory duo_others(2) by simp

end
