(* ===== verification/Tinq_Segment.thy ===== *)
theory Tinq_Segment
  imports Go_Netip
begin

section \<open>Asking the owner over the segment\<close>

text \<open>
  \<^verbatim>\<open>cmd/tinq/segment.go\<close>: the ARP probe, byte by byte, the recognition of a reply with every slice
  checked against the frame, and the probe of a segment. A slice out of range, which panics in Go, is
  \<^term>\<open>None\<close>. The socket calls before the loop are given by what they answer; the loop by its rounds:
  for each one begun before the deadline, the error of the write if it failed and otherwise the frames
  read until the read deadline.
\<close>

definition byte :: "nat \<Rightarrow> char" where
  "byte n = char_of n"

definition be16_bytes :: "nat \<Rightarrow> bytes" where
  "be16_bytes n = [byte (n div 256), byte (n mod 256)]"

definition As4 :: "addr \<Rightarrow> bytes option" where
  "As4 a =
     (case a of
        V4 w \<Rightarrow> Some (map byte (v4_octets w))
      | V6 w z \<Rightarrow> if take 6 (v6_words w) = [0, 0, 0, 0, 0, 65535] then Some (map byte (v4_octets (ucast w))) else None
      | Invalid \<Rightarrow> None)"

definition probeMAC :: bytes where
  "probeMAC = map byte [0x02, 0x74, 0x69, 0x6e, 0x71, 0x01]"

definition arpProbe :: "bytes \<Rightarrow> addr \<Rightarrow> bytes option" where
  "arpProbe src target =
     map_option (\<lambda>t.
       map byte [0xff, 0xff, 0xff, 0xff, 0xff, 0xff] @ src @ be16_bytes 0x0806 @ be16_bytes 1 @ be16_bytes 0x0800
       @ map byte [6, 4] @ be16_bytes 1 @ src @ map byte [0, 0, 0, 0] @ replicate 6 (byte 0) @ t) (As4 target)"

text \<open>\<^verbatim>\<open>netip.AddrFromSlice\<close> of four bytes, the only length it is given here.\<close>

definition AddrFromSlice :: "bytes \<Rightarrow> addr" where
  "AddrFromSlice b = (if length b = 4 then V4 (word_of_octets (map of_char b)) else Invalid)"

text \<open>The answer: the MAC of a reply from the sender; the outer option is the panic.\<close>

definition arpReplyFrom :: "bytes \<Rightarrow> addr \<Rightarrow> bytes option option" where
  "arpReplyFrom frame sender =
     (if length frame < 14 + 28 then Some None
      else case slice frame 12 14 of None \<Rightarrow> None | Some ty \<Rightarrow>
      if be16 ty \<noteq> Some 0x0806 then Some None
      else case slice frame (14 + 6) (14 + 8) of None \<Rightarrow> None | Some operation \<Rightarrow>
      if be16 operation \<noteq> Some 2 then Some None
      else case slice frame (14 + 14) (14 + 18) of None \<Rightarrow> None | Some spa \<Rightarrow>
      if AddrFromSlice spa \<noteq> sender then Some None
      else map_option Some (slice frame (14 + 8) (14 + 14)))"

text \<open>An interface of the host, with the two flags that are read.\<close>

record iface =
  if_name :: string
  if_up :: bool
  if_loopback :: bool

record segment_io =
  sg_interfaces :: "string + iface list"
  sg_join :: "string option"
  sg_interface :: "string option"
  sg_loop :: "string option"
  sg_rounds :: "(string + bytes list) list"

datatype segment_error =
  Interfaces_failed string
| No_loopback
| Segment_unusable string string
| Segment_silent
| Segment_panic

fun first_loopback :: "iface list \<Rightarrow> segment_error + iface" where
  "first_loopback [] = Inl No_loopback"
| "first_loopback (i # is) = (if if_loopback i \<and> if_up i then Inr i else first_loopback is)"

definition loopback :: "segment_io \<Rightarrow> segment_error + iface" where
  "loopback io = (case sg_interfaces io of Inl err \<Rightarrow> Inl (Interfaces_failed err) | Inr ifaces \<Rightarrow> first_loopback ifaces)"

definition is_reply :: "bytes \<Rightarrow> addr \<Rightarrow> bool" where
  "is_reply frame target = (case arpReplyFrom (take 2048 frame) target of Some (Some mac) \<Rightarrow> True | _ \<Rightarrow> False)"

fun probe_rounds :: "addr \<Rightarrow> (string + bytes list) list \<Rightarrow> segment_error + unit" where
  "probe_rounds target [] = Inl Segment_silent"
| "probe_rounds target (Inl err # rounds) = Inl (Segment_unusable ''sending on the segment failed'' err)"
| "probe_rounds target (Inr frames # rounds) =
     (if list_ex (\<lambda>f. is_reply f target) frames then Inr () else probe_rounds target rounds)"

definition socket_step :: "string option \<Rightarrow> string \<Rightarrow> segment_error + unit" where
  "socket_step err what = (case err of Some e \<Rightarrow> Inl (Segment_unusable what e) | None \<Rightarrow> Inr ())"

definition probeSegment :: "segment_io \<Rightarrow> addr \<Rightarrow> segment_error + unit" where
  "probeSegment io target =
     and_then (loopback io) (\<lambda>lo.
     and_then (socket_step (sg_join io) ''joining the multicast group'') (\<lambda>_.
     and_then (socket_step (sg_interface io) (if_name lo)) (\<lambda>_.
     and_then (socket_step (sg_loop io) (if_name lo)) (\<lambda>_.
     case arpProbe probeMAC target of
       None \<Rightarrow> Inl Segment_panic
     | Some frame \<Rightarrow> probe_rounds target (sg_rounds io)))))"

subsection \<open>The exchange\<close>

lemma arpReplyFrom_total: "\<exists>answer. arpReplyFrom frame sender = Some answer"
  by (auto simp: arpReplyFrom_def)

text \<open>What a node answers a probe with: a reply that carries its MAC and address.\<close>

definition arp_reply :: "bytes \<Rightarrow> 32 word \<Rightarrow> bytes \<Rightarrow> bytes \<Rightarrow> bytes" where
  "arp_reply mac w dst tpa =
     dst @ mac @ be16_bytes 0x0806 @ be16_bytes 1 @ be16_bytes 0x0800 @ map byte [6, 4] @ be16_bytes 2
     @ mac @ map byte (v4_octets w) @ dst @ tpa"

lemma be16_bytes_read: "n < 65536 \<Longrightarrow> be16 (be16_bytes n) = Some (word_of_nat n)"
proof -
  assume "n < 65536"
  then have "be16 (be16_bytes n) = Some (word_of_nat (256 * (n div 256) + n mod 256))"
    unfolding be16_def be16_bytes_def byte_def by (simp del: of_nat_add of_nat_mult mult_div_mod_eq)
  then show ?thesis by (simp only: mult_div_mod_eq)
qed

lemma slice_mid: "length a = lo \<Longrightarrow> lo + length b = hi \<Longrightarrow> slice (a @ b @ c) lo hi = Some b"
  by (auto simp: slice_def)

lemma AddrFromSlice_octets: "AddrFromSlice (map byte (v4_octets w)) = V4 w"
proof -
  have "(of_char (byte n) :: nat) = n" if "n < 256" for n using that by (simp add: byte_def)
  then have "map of_char (map byte (v4_octets w)) = v4_octets w" by (simp add: v4_octets_def)
  then show ?thesis using word_of_v4_octets [of w] by (simp add: AddrFromSlice_def) (simp add: v4_octets_def)
qed

lemma be16_bytes_length [simp]: "length (be16_bytes n) = 2"
  by (simp add: be16_bytes_def)

lemma length_v4_octets [simp]: "length (v4_octets w) = 4"
  by (simp add: v4_octets_def)

lemma arp_probe_frame:
  assumes "length src = 6"
  shows "\<exists>frame. arpProbe src (V4 w) = Some frame \<and> length frame = 42 \<and> (\<forall>sender. arpReplyFrom frame sender = Some None)"
proof -
  let ?bc = "map byte [0xff, 0xff, 0xff, 0xff, 0xff, 0xff]" and ?t = "map byte (v4_octets w)"
  let ?hdr = "be16_bytes 1 @ be16_bytes 0x0800 @ map byte [6, 4]"
  let ?tail = "src @ map byte [0, 0, 0, 0] @ replicate 6 (byte 0) @ ?t"
  obtain frame where frame: "frame = (?bc @ src) @ be16_bytes 0x0806 @ ?hdr @ be16_bytes 1 @ ?tail" by blast
  have probe: "arpProbe src (V4 w) = Some frame" by (simp add: arpProbe_def As4_def frame)
  have len: "length frame = 42" by (simp add: frame assms)
  have op: "be16 (be16_bytes 1) \<noteq> Some 2" "be16 (be16_bytes 0x0806) = Some 0x0806" by (simp_all add: be16_bytes_read)
  have s1: "slice frame 12 14 = Some (be16_bytes 0x0806)"
    unfolding frame by (rule slice_mid) (simp_all add: assms)
  have s2: "slice frame 20 22 = Some (be16_bytes 1)"
    using slice_mid [of "?bc @ src @ be16_bytes 0x0806 @ ?hdr" 20 "be16_bytes 1" 22 ?tail] by (simp add: frame assms)
  have "arpReplyFrom frame sender = Some None" for sender
    using op by (simp add: arpReplyFrom_def len s1 s2 del: slice_Some)
  with probe len show ?thesis by blast
qed

lemma arp_reply_read:
  assumes "length mac = 6" "length dst = 6" "length tpa = 4"
  shows "arpReplyFrom (arp_reply mac w dst tpa @ padding) (V4 w) = Some (Some mac)"
proof -
  let ?t = "map byte (v4_octets w)" and ?hdr = "be16_bytes 1 @ be16_bytes 0x0800 @ map byte [6, 4]"
  obtain reply where reply: "reply = (dst @ mac) @ be16_bytes 0x0806 @ ?hdr @ be16_bytes 2 @ mac @ ?t @ dst @ tpa @ padding" by blast
  have op: "be16 (be16_bytes 2) = Some 2" "be16 (be16_bytes 0x0806) = Some 0x0806" by (simp_all add: be16_bytes_read)
  have r: "arp_reply mac w dst tpa @ padding = reply" by (simp add: arp_reply_def reply)
  have r0: "\<not> length reply < 42" by (simp add: reply assms)
  have r1: "slice reply 12 14 = Some (be16_bytes 0x0806)"
    unfolding reply by (rule slice_mid) (simp_all add: assms)
  have r2: "slice reply 20 22 = Some (be16_bytes 2)"
    using slice_mid [of "dst @ mac @ be16_bytes 0x0806 @ ?hdr" 20 "be16_bytes 2" 22 "mac @ ?t @ dst @ tpa @ padding"]
    by (simp add: reply assms)
  have r3: "slice reply 22 28 = Some mac"
    using slice_mid [of "dst @ mac @ be16_bytes 0x0806 @ ?hdr @ be16_bytes 2" 22 mac 28 "?t @ dst @ tpa @ padding"]
    by (simp add: reply assms)
  have r4: "slice reply 28 32 = Some ?t"
    using slice_mid [of "dst @ mac @ be16_bytes 0x0806 @ ?hdr @ be16_bytes 2 @ mac" 28 ?t 32 "dst @ tpa @ padding"]
    by (simp add: reply assms)
  show ?thesis
    unfolding r using op r0 by (simp add: arpReplyFrom_def r1 r2 r3 r4 AddrFromSlice_octets del: slice_Some)
qed

text \<open>
  C35. The probe asks and does not answer itself: for a sender's MAC of six bytes and an IPv4 target the
  frame has 42 bytes, reading it back never panics, and nobody's reply is read out of it, so the copy
  that loopback delivers is skipped. The reply of the node that has the address is read, with its MAC.
\<close>

theorem arp_exchange:
  assumes "length src = 6" "length mac = 6" "length dst = 6" "length tpa = 4"
  shows "\<exists>frame. arpProbe src (V4 w) = Some frame \<and> length frame = 42 \<and> (\<forall>sender. arpReplyFrom frame sender = Some None)
    \<and> arpReplyFrom (arp_reply mac w dst tpa @ padding) (V4 w) = Some (Some mac)"
  using arp_probe_frame [OF assms(1)] arp_reply_read [OF assms(2-4)] by blast

theorem arp_exchange_witness:
  "\<exists>frame. arpProbe probeMAC (V4 0x0AFE000B) = Some frame \<and> length frame = 42"
  using arp_exchange [of probeMAC probeMAC "replicate 6 (byte 0)" "replicate 4 (byte 0)" "0x0AFE000B" "[]"]
  by (auto simp: probeMAC_def)

text \<open>A segment that carries nothing but our own probes is silent, however long it is listened to.\<close>

lemma own_probe_is_no_reply:
  assumes "arpProbe probeMAC (V4 w) = Some frame"
  shows "\<not> is_reply frame sender"
proof -
  obtain f where "arpProbe probeMAC (V4 w) = Some f" "length f = 42" "arpReplyFrom f sender = Some None"
    using arp_probe_frame [of probeMAC w] by (auto simp: probeMAC_def)
  with assms show ?thesis by (simp add: is_reply_def)
qed

lemma probe_rounds_ok:
  "probe_rounds target rounds = Inr () \<longleftrightarrow>
   (\<exists>done frames rest. rounds = map Inr done @ Inr frames # rest \<and> (\<exists>f \<in> set frames. is_reply f target))"
proof (induction target rounds rule: probe_rounds.induct)
  case (3 target frames rounds)
  show ?case
  proof (cases "list_ex (\<lambda>f. is_reply f target) frames")
    case True
    then have "\<exists>f \<in> set frames. is_reply f target" by (simp add: list_ex_iff)
    with True show ?thesis by (auto intro!: exI [of _ "[] :: bytes list list"] exI [of _ frames] exI [of _ rounds])
  next
    case False
    have "(\<exists>done frames' rest. Inr frames # rounds = map Inr done @ Inr frames' # rest \<and> (\<exists>f \<in> set frames'. is_reply f target))
        \<longleftrightarrow> (\<exists>done frames' rest. rounds = map Inr done @ Inr frames' # rest \<and> (\<exists>f \<in> set frames'. is_reply f target))"
      (is "?L \<longleftrightarrow> ?R")
    proof
      assume ?L
      then obtain ds fs rest where e: "Inr frames # rounds = map Inr ds @ Inr fs # rest" "\<exists>f \<in> set fs. is_reply f target" by blast
      with False show ?R by (cases ds) (auto simp: list_ex_iff)
    next
      assume ?R
      then obtain ds fs rest where "rounds = map Inr ds @ Inr fs # rest" "\<exists>f \<in> set fs. is_reply f target" by blast
      then show ?L by (intro exI [of _ "frames # ds"] exI [of _ fs] exI [of _ rest]) simp
    qed
    with False 3 show ?thesis by simp
  qed
qed (auto simp: Cons_eq_append_conv)

lemma first_loopback_iff: "(\<exists>lo. first_loopback is = Inr lo) \<longleftrightarrow> (\<exists>i \<in> set is. if_loopback i \<and> if_up i)"
  by (induction "is") auto

lemma loopback_iff:
  "(\<exists>lo. loopback io = Inr lo) \<longleftrightarrow> (\<exists>ifaces. sg_interfaces io = Inr ifaces \<and> (\<exists>i \<in> set ifaces. if_loopback i \<and> if_up i))"
  by (simp add: loopback_def first_loopback_iff split: sum.split)

text \<open>
  The probe of a segment succeeds exactly when the sockets were set up and, in some round before
  the deadline with every write up to it successful, a frame was read that is an ARP reply from the
  owner's address.
\<close>

theorem probeSegment_iff:
  "probeSegment io (V4 w) = Inr () \<longleftrightarrow>
   (\<exists>ifaces. sg_interfaces io = Inr ifaces \<and> (\<exists>i \<in> set ifaces. if_loopback i \<and> if_up i)) \<and> sg_join io = None \<and> sg_interface io = None \<and> sg_loop io = None
   \<and> (\<exists>done frames rest. sg_rounds io = map Inr done @ Inr frames # rest \<and> (\<exists>f \<in> set frames. is_reply f (V4 w)))"
proof -
  obtain frame where "arpProbe probeMAC (V4 w) = Some frame" by (simp add: arpProbe_def As4_def)
  then show ?thesis
    unfolding loopback_iff [symmetric]
    by (auto simp: probeSegment_def result_simps socket_step_def probe_rounds_ok split: option.splits)
qed

end
