(* ===== verification/Tinq_Join.thy ===== *)
theory Tinq_Join
  imports Tinq_Capacity Tinq_Segment Cluster_Up
begin

section \<open>Joining a cluster\<close>

text \<open>
  \<^verbatim>\<open>cmd/tinq/join.go\<close> and \<open>joinOptions\<close> of \<^verbatim>\<open>adopt.go\<close>: what a joining machine takes from its owner's
  state directory, and every refusal before it boots. Files are those of the host; the calls to the
  owner act on a world of their own, and the segment answers with what its sockets see.
\<close>

record 'n join_ctx =
  jc_api :: "'n talos_api"
  jc_url :: "string \<Rightarrow> (string \<times> string) option"
  jc_segment :: "addr \<Rightarrow> int \<Rightarrow> 'n \<Rightarrow> segment_io \<times> 'n"
  jc_mem :: mem_facts

datatype join_error =
  Joins_itself string string
| Secrets_not_readable string string
| Kubeconfig_not_readable string string
| Join_endpoint endpoint_error
| Join_kubeconfig client_error
| Joiner_network clusternet_error
| Joiner_without_network string
| Owner_search clusternet_error
| Owner_on_other_site string string
| No_such_owner string string
| Owner_network clusternet_error
| Owner_without_network string
| Networks_differ string string
| Cidrs_differ prefix prefix
| Join_read up_failure
| Owner_not_up string owner_failure
| Join_segment segment_error
| Join_capacity capacity_error
and owner_failure =
  Owner_unobservable string
| Owner_is State
| Owner_unread up_failure
| Owner_unconfigured string
| Owner_silent client_error

definition host_fs :: "env \<Rightarrow> hostw \<Rightarrow> fsys" where
  "host_fs e w = \<lparr>fs_dir = (\<lambda>_. None), fs_file = read_file e w, fs_stat = (\<lambda>_. None)\<rparr>"

text \<open>\<open>ReadTalosconfig\<close> on the host's files: a missing file is not an error.\<close>

definition read_talosconfig :: "env \<Rightarrow> hostw \<Rightarrow> string \<Rightarrow> up_failure + bytes option" where
  "read_talosconfig e w dir =
     (let p = path_join [dir, ''talosconfig''] in if e_io_fail e p then Inl (F_read p) else Inr (hw_files w p))"

lemma read_talosconfig_agrees:
  "ue_read_fails ue = e_io_fail e \<Longrightarrow> r_files s = hw_files w \<Longrightarrow> ReadTalosconfig ue dir s = (read_talosconfig e w dir, s)"
  by (simp add: ReadTalosconfig_def read_talosconfig_def Let_def)

definition joinArtifacts :: "'n join_ctx \<Rightarrow> env \<Rightarrow> hostw \<Rightarrow> string \<Rightarrow> string \<Rightarrow> bool \<Rightarrow> join_error + JoinOptions" where
  "joinArtifacts jc e w target dir vm =
     (case read_file e w (path_join [dir, ''secrets.yaml'']) of
        None \<Rightarrow> Inl (Secrets_not_readable target dir)
      | Some secrets \<Rightarrow>
        (case read_file e w (path_join [dir, ''kubeconfig'']) of
           None \<Rightarrow> Inl (Kubeconfig_not_readable target dir)
         | Some kubeconfig \<Rightarrow>
             and_then (if vm then map_error Join_endpoint (ReadClusterEndpoint (host_fs e w) (jc_url jc) dir)
                       else map_error Join_kubeconfig (EndpointFromKubeconfig (jc_api jc) kubeconfig)) (\<lambda>endpoint.
             Inr \<lparr>j_SecretsBundle = secrets, j_ClusterEndpoint = endpoint, j_Kubeconfig = kubeconfig\<rparr>)))"

definition joinOptions :: "'n join_ctx \<Rightarrow> env \<Rightarrow> hostw \<Rightarrow> obj \<Rightarrow> join_error + JoinOptions option" where
  "joinOptions jc e w m =
     (let target = str (field (baremetalFields m) ''joins'') '''' in
      if target = '''' then Inr None
      else if target = GetName m then Inl (Joins_itself ''spec.baremetal.joins'' target)
      else map_sum id Some (joinArtifacts jc e w target
             (path_join [e_stateRoot e, nested_string m [''spec'', ''site''], ''bootstrap-'' @ GetNamespace m @ ''-'' @ target]) False))"

subsection \<open>The owner of a VM's cluster\<close>

definition site_of :: "obj \<Rightarrow> string" where
  "site_of m = nested_string m [''spec'', ''site'']"

definition named :: "obj \<Rightarrow> string \<Rightarrow> siteMachine \<Rightarrow> bool" where
  "named m target other = (GetName (fst other) = target \<and> GetNamespace (fst other) = GetNamespace m)"

text \<open>\<^verbatim>\<open>os.ReadDir\<close> of the state root: the directories that hold a machine's, by name.\<close>

definition root_sites :: "env \<Rightarrow> hostw \<Rightarrow> string list" where
  "root_sites e w =
     (if e_io_fail e (e_stateRoot e) then []
      else sort (remdups (map (\<lambda>p. takeWhile (\<lambda>c. c \<noteq> CHR ''/'') (drop (Suc (length (e_stateRoot e))) p))
             (filter (\<lambda>p. has_prefix p (e_stateRoot e @ ''/'')) (hw_dirs w)))))"

fun on_other_site :: "env \<Rightarrow> hostw \<Rightarrow> obj \<Rightarrow> string \<Rightarrow> string list \<Rightarrow> string option" where
  "on_other_site e w m target [] = None"
| "on_other_site e w m target (s # sites) =
     (if s = site_of m then on_other_site e w m target sites
      else case siteMachines (site_view_of e w) (e_stateRoot e) s '''' of
          Inl _ \<Rightarrow> on_other_site e w m target sites
        | Inr others \<Rightarrow> if list_ex (named m target) others then Some s else on_other_site e w m target sites)"

definition findOwner :: "env \<Rightarrow> hostw \<Rightarrow> obj \<Rightarrow> string \<Rightarrow> join_error + siteMachine" where
  "findOwner e w m target =
     and_then (map_error Owner_search (siteMachines (site_view_of e w) (e_stateRoot e) (site_of m) (dir_of e m))) (\<lambda>machines.
     case find (named m target) machines of
       Some owner \<Rightarrow> Inr owner
     | None \<Rightarrow>
         (case on_other_site e w m target (root_sites e w) of
            Some s \<Rightarrow> Inl (Owner_on_other_site target s)
          | None \<Rightarrow> Inl (No_such_owner target (site_of m))))"

definition ownerAPITimeout :: nat where "ownerAPITimeout = 10000"

definition realOwnerUp :: "'n join_ctx \<Rightarrow> env \<Rightarrow> hostw \<Rightarrow> siteMachine \<Rightarrow> bytes \<Rightarrow> bool \<Rightarrow> 'n \<Rightarrow> owner_failure option \<times> 'n" where
  "realOwnerUp jc e w owner kubeconfig member n =
     (case Observe_hvf e (fst owner) w of
        Inl err \<Rightarrow> (Some (Owner_unobservable err), n)
      | Inr (state, _) \<Rightarrow>
          if state \<noteq> Running then (Some (Owner_is state), n)
          else if \<not> member then
            (case KubeAPIAnswers (jc_api jc) kubeconfig ownerAPITimeout n of (err, n1) \<Rightarrow> (map_option Owner_silent err, n1))
          else case read_talosconfig e w (snd owner) of
              Inl err \<Rightarrow> (Some (Owner_unread err), n)
            | Inr None \<Rightarrow> (Some (Owner_unconfigured (snd owner)), n)
            | Inr (Some talosconfig) \<Rightarrow>
                (case TalosAPIAnswers (jc_api jc) talosconfig (talosEndpoint (fst owner)) ownerAPITimeout n of
                   (err, n1) \<Rightarrow> (map_option Owner_silent err, n1)))"

text \<open>The two networks: the joiner's must exist, the owner's must be the same segment.\<close>

definition same_segment :: "env \<Rightarrow> obj \<Rightarrow> siteMachine \<Rightarrow> clusterNetwork \<Rightarrow> join_error + clusterNetwork" where
  "same_segment e m owner cn =
     and_then (map_error Owner_network (specClusterNetwork (e_pod e) (e_svc e) (fst owner))) (\<lambda>ocn.
     case ocn of
       None \<Rightarrow> Inl (Owner_without_network (GetName (fst owner)))
     | Some oc \<Rightarrow>
         if Name oc \<noteq> Name cn then Inl (Networks_differ (Name oc) (Name cn))
         else if CIDR oc \<noteq> CIDR cn then Inl (Cidrs_differ (CIDR oc) (CIDR cn))
         else Inr oc)"

text \<open>What is decided from files alone: the owner, its segment, its artifacts, and whether \<open>m\<close> is a member already.\<close>

definition join_from_files ::
  "'n join_ctx \<Rightarrow> env \<Rightarrow> hostw \<Rightarrow> obj \<Rightarrow> string \<Rightarrow> join_error + siteMachine \<times> clusterNetwork \<times> JoinOptions \<times> bool" where
  "join_from_files jc e w m target =
     and_then (map_error Joiner_network (specClusterNetwork (e_pod e) (e_svc e) m)) (\<lambda>network.
     case network of
       None \<Rightarrow> Inl (Joiner_without_network target)
     | Some cn \<Rightarrow>
         and_then (findOwner e w m target) (\<lambda>owner.
         and_then (same_segment e m owner cn) (\<lambda>ocn.
         and_then (joinArtifacts jc e w target (snd owner) True) (\<lambda>jo.
         and_then (map_error Join_read (read_talosconfig e w (dir_of e m))) (\<lambda>talosconfig.
         Inr (owner, ocn, jo, talosconfig \<noteq> None))))))"

text \<open>What the sockets see on the owner's segment, whose group and port may be the owner's overrides.\<close>

definition owner_segment :: "'n join_ctx \<Rightarrow> env \<Rightarrow> obj \<Rightarrow> clusterNetwork \<Rightarrow> 'n \<Rightarrow> segment_io \<times> 'n" where
  "owner_segment jc e m ocn n = (case multicast (e_sha256 e) ocn (site_of m) of (grp, prt) \<Rightarrow> jc_segment jc grp prt n)"

definition vmJoinOptions :: "'n join_ctx \<Rightarrow> env \<Rightarrow> hostw \<Rightarrow> obj \<Rightarrow> 'n \<Rightarrow> (join_error + JoinOptions option) \<times> 'n" where
  "vmJoinOptions jc e w m n =
     (let target = nested_string m [''spec'', ''joins''] in
      if target = '''' then (Inr None, n)
      else if target = GetName m then (Inl (Joins_itself ''spec.joins'' target), n)
      else case join_from_files jc e w m target of
          Inl err \<Rightarrow> (Inl err, n)
        | Inr (owner, ocn, jo, member) \<Rightarrow>
            (case realOwnerUp jc e w owner (j_Kubeconfig jo) member n of
               (Some err, n1) \<Rightarrow> (Inl (Owner_not_up target err), n1)
             | (None, n1) \<Rightarrow>
                 (case owner_segment jc e m ocn n1 of (io, n2) \<Rightarrow>
                    (case probeSegment io (Addr ocn) of
                       Inl err \<Rightarrow> (Inl (Join_segment err), n2)
                     | Inr _ \<Rightarrow>
                         (case checkCapacity e (jc_mem jc) w m of
                            Some err \<Rightarrow> (Inl (Join_capacity err), n2)
                          | None \<Rightarrow> (Inr (Some jo), n2))))))"

subsection \<open>What a join rests on\<close>

lemma joinArtifacts_own:
  assumes "joinArtifacts jc e w target dir vm = Inr jo"
  shows "hw_files w (path_join [dir, ''secrets.yaml'']) = Some (j_SecretsBundle jo)
    \<and> hw_files w (path_join [dir, ''kubeconfig'']) = Some (j_Kubeconfig jo)
    \<and> (if vm then ReadClusterEndpoint (host_fs e w) (jc_url jc) dir = Inr (j_ClusterEndpoint jo)
       else EndpointFromKubeconfig (jc_api jc) (j_Kubeconfig jo) = Inr (j_ClusterEndpoint jo))"
  using assms by (auto simp: joinArtifacts_def read_file_def result_simps split: option.splits if_splits)

lemma findOwner_recorded:
  assumes "findOwner e w m target = Inr owner"
  shows "GetName (fst owner) = target \<and> GetNamespace (fst owner) = GetNamespace m
    \<and> (\<exists>machines. siteMachines (site_view_of e w) (e_stateRoot e) (site_of m) (dir_of e m) = Inr machines \<and> owner \<in> set machines)"
proof -
  from assms obtain machines where ms: "siteMachines (site_view_of e w) (e_stateRoot e) (site_of m) (dir_of e m) = Inr machines"
    and f: "(case find (named m target) machines of
       Some owner \<Rightarrow> Inr owner
     | None \<Rightarrow>
         (case on_other_site e w m target (root_sites e w) of
            Some s \<Rightarrow> Inl (Owner_on_other_site target s)
          | None \<Rightarrow> Inl (No_such_owner target (site_of m)))) = Inr owner"
    unfolding findOwner_def and_then_eq_Inr map_error_eq_Inr by blast
  have "find (named m target) machines = Some owner"
    using f by (cases "find (named m target) machines") (auto split: option.splits)
  from find_SomeD [OF this] ms show ?thesis by (auto simp: named_def)
qed

lemma join_from_files_ok:
  assumes "join_from_files jc e w m target = Inr (owner, ocn, jo, member)"
  shows "\<exists>cn tc. specClusterNetwork (e_pod e) (e_svc e) m = Inr (Some cn) \<and> findOwner e w m target = Inr owner
    \<and> specClusterNetwork (e_pod e) (e_svc e) (fst owner) = Inr (Some ocn) \<and> Name ocn = Name cn \<and> CIDR ocn = CIDR cn
    \<and> joinArtifacts jc e w target (snd owner) True = Inr jo \<and> read_talosconfig e w (dir_of e m) = Inr tc \<and> (member \<longleftrightarrow> tc \<noteq> None)"
proof -
  obtain network where net: "specClusterNetwork (e_pod e) (e_svc e) m = Inr network"
    using assms by (auto simp: join_from_files_def and_then_eq_Inr map_error_eq_Inr)
  then obtain cn where "network = Some cn" using assms by (cases network) (auto simp: join_from_files_def)
  with net have cn: "specClusterNetwork (e_pod e) (e_svc e) m = Inr (Some cn)" by simp
  have f: "and_then (findOwner e w m target) (\<lambda>owner.
         and_then (same_segment e m owner cn) (\<lambda>ocn.
         and_then (joinArtifacts jc e w target (snd owner) True) (\<lambda>jo.
         and_then (map_error Join_read (read_talosconfig e w (dir_of e m))) (\<lambda>talosconfig.
         Inr (owner, ocn, jo, talosconfig \<noteq> None))))) = Inr (owner, ocn, jo, member)"
    using assms by (simp add: join_from_files_def cn)
  from f obtain tc where tc: "findOwner e w m target = Inr owner" "same_segment e m owner cn = Inr ocn"
    "joinArtifacts jc e w target (snd owner) True = Inr jo" "read_talosconfig e w (dir_of e m) = Inr tc" "member \<longleftrightarrow> tc \<noteq> None"
    unfolding and_then_eq_Inr map_error_eq_Inr by blast
  have "specClusterNetwork (e_pod e) (e_svc e) (fst owner) = Inr (Some ocn)" "Name ocn = Name cn" "CIDR ocn = CIDR cn"
    using tc(2) unfolding same_segment_def and_then_eq_Inr map_error_eq_Inr by (auto split: option.splits if_splits)
  with cn tc show ?thesis by blast
qed

lemma vmJoinOptions_ok:
  assumes "vmJoinOptions jc e w m n = (Inr (Some jo), n')"
  shows "\<exists>owner machines cn ocn. siteMachines (site_view_of e w) (e_stateRoot e) (site_of m) (dir_of e m) = Inr machines
    \<and> owner \<in> set machines \<and> GetName (fst owner) = nested_string m [''spec'', ''joins''] \<and> GetName (fst owner) \<noteq> GetName m
    \<and> specClusterNetwork (e_pod e) (e_svc e) m = Inr (Some cn) \<and> specClusterNetwork (e_pod e) (e_svc e) (fst owner) = Inr (Some ocn)
    \<and> Name ocn = Name cn \<and> CIDR ocn = CIDR cn \<and> is_running e w (fst owner) \<and> checkCapacity e (jc_mem jc) w m = None
    \<and> (\<exists>n1. probeSegment (fst (owner_segment jc e m ocn n1)) (Addr ocn) = Inr ())
    \<and> hw_files w (path_join [snd owner, ''secrets.yaml'']) = Some (j_SecretsBundle jo)
    \<and> hw_files w (path_join [snd owner, ''kubeconfig'']) = Some (j_Kubeconfig jo)
    \<and> ReadClusterEndpoint (host_fs e w) (jc_url jc) (snd owner) = Inr (j_ClusterEndpoint jo)"
proof -
  let ?target = "nested_string m [''spec'', ''joins'']"
  from assms obtain owner ocn member where f: "join_from_files jc e w m ?target = Inr (owner, ocn, jo, member)"
    and up: "fst (realOwnerUp jc e w owner (j_Kubeconfig jo) member n) = None"
    and probe: "\<exists>n1. probeSegment (fst (owner_segment jc e m ocn n1)) (Addr ocn) = Inr ()" and cap: "checkCapacity e (jc_mem jc) w m = None"
    and self: "?target \<noteq> GetName m"
    by (auto simp: vmJoinOptions_def Let_def split: if_splits sum.splits prod.splits option.splits) (metis fst_conv)+
  have running: "is_running e w (fst owner)"
    using up by (auto simp: realOwnerUp_def is_running_def split: sum.splits prod.splits if_splits State.splits)
  from join_from_files_ok [OF f] obtain cn where cn: "specClusterNetwork (e_pod e) (e_svc e) m = Inr (Some cn)"
    "findOwner e w m ?target = Inr owner" "specClusterNetwork (e_pod e) (e_svc e) (fst owner) = Inr (Some ocn)"
    "Name ocn = Name cn" "CIDR ocn = CIDR cn" "joinArtifacts jc e w ?target (snd owner) True = Inr jo" by blast
  from findOwner_recorded [OF cn(2)] obtain machines where "GetName (fst owner) = ?target"
    "siteMachines (site_view_of e w) (e_stateRoot e) (site_of m) (dir_of e m) = Inr machines" "owner \<in> set machines" by blast
  with joinArtifacts_own [OF cn(6)] cn running probe cap self show ?thesis
    by (intro exI [of _ owner] exI [of _ machines] exI [of _ cn] exI [of _ ocn]) simp
qed

text \<open>
  C27. A VM that is let join joins its owner's cluster and no other. The owner is the recorded machine of
  its site, other than itself, that \<^verbatim>\<open>spec.joins\<close> names; the two declare the same network and CIDR; the
  owner's VM was running and answered over the segment, and the host has the memory. The secrets, the
  endpoint and the kubeconfig are the owner's files, none of them minted.
\<close>

theorem vmJoinOptions_owner:
  assumes "vmJoinOptions jc e w m n = (Inr (Some jo), n')"
  shows "\<exists>owner machines cn ocn. siteMachines (site_view_of e w) (e_stateRoot e) (site_of m) (dir_of e m) = Inr machines
    \<and> owner \<in> set machines \<and> GetName (fst owner) = nested_string m [''spec'', ''joins''] \<and> GetName (fst owner) \<noteq> GetName m
    \<and> specClusterNetwork (e_pod e) (e_svc e) m = Inr (Some cn) \<and> specClusterNetwork (e_pod e) (e_svc e) (fst owner) = Inr (Some ocn)
    \<and> Name ocn = Name cn \<and> CIDR ocn = CIDR cn \<and> is_running e w (fst owner) \<and> checkCapacity e (jc_mem jc) w m = None
    \<and> (\<exists>n1. probeSegment (fst (owner_segment jc e m ocn n1)) (Addr ocn) = Inr ())
    \<and> hw_files w (path_join [snd owner, ''secrets.yaml'']) = Some (j_SecretsBundle jo)
    \<and> hw_files w (path_join [snd owner, ''kubeconfig'']) = Some (j_Kubeconfig jo)
    \<and> ReadClusterEndpoint (host_fs e w) (jc_url jc) (snd owner) = Inr (j_ClusterEndpoint jo)"
  by (rule vmJoinOptions_ok [OF assms])

definition duo_ctx :: "nat join_ctx" where
  "duo_ctx = \<lparr>jc_api = lab_api, jc_url = (\<lambda>u. if u = '''' then Some ('''', '''') else Some (''https'', ''a'')),
     jc_segment = (\<lambda>_ _ n. (\<lparr>sg_interfaces = Inr [\<lparr>if_name = ''lo'', if_up = True, if_loopback = True\<rparr>], sg_join = None, sg_interface = None, sg_loop = None,
       sg_rounds = [Inr [arp_reply probeMAC 0x0AFE000A probeMAC (replicate 4 (byte 0))]]\<rparr>, n)),
     jc_mem = duo_facts\<rparr>"

lemma duo_probe: "probeSegment (fst (owner_segment duo_ctx duo_env m ocn n)) (V4 0x0AFE000A) = Inr ()"
proof -
  let ?frame = "arp_reply probeMAC 0x0AFE000A probeMAC (replicate 4 (byte 0))"
  have "length ?frame = 42" by (simp add: arp_reply_def probeMAC_def)
  moreover have "arpReplyFrom ?frame (V4 0x0AFE000A) = Some (Some probeMAC)"
    using arp_reply_read [where padding = "[]" and mac = probeMAC and dst = probeMAC and tpa = "replicate 4 (byte 0)" and w = "0x0AFE000A"] by (simp add: probeMAC_def)
  ultimately have "is_reply ?frame (V4 0x0AFE000A)" by (simp add: is_reply_def)
  then show ?thesis
    by (simp add: probeSegment_def loopback_def owner_segment_def duo_ctx_def socket_step_def arpProbe_def As4_def split: prod.splits)
qed

lemma duo_find: "findOwner duo_env duo_host duo_joiner ''a'' = Inr (duo_owner, ''/s/lab/a'')"
proof -
  have "site_of duo_joiner = ''lab''" "named duo_joiner ''a'' (duo_owner, ''/s/lab/a'')"
    by (simp_all add: site_of_def named_def duo_joiner_def duo_owner_def)
  with duo_site duo_dir show ?thesis by (simp add: findOwner_def)
qed

lemma duo_artifacts:
  "joinArtifacts duo_ctx duo_env duo_host ''a'' ''/s/lab/a'' True =
     Inr \<lparr>j_SecretsBundle = ''pki'', j_ClusterEndpoint = ''https://a'', j_Kubeconfig = ''kube''\<rparr>"
  by (simp add: joinArtifacts_def read_file_def ReadClusterEndpoint_def host_fs_def duo_ctx_def duo_world path_eval
      trim_space_visible visible_def)

lemma duo_from_files:
  "\<exists>ocn. Addr ocn = V4 0x0AFE000A \<and> join_from_files duo_ctx duo_env duo_host duo_joiner ''a'' =
     Inr ((duo_owner, ''/s/lab/a''), ocn, \<lparr>j_SecretsBundle = ''pki'', j_ClusterEndpoint = ''https://a'', j_Kubeconfig = ''kube''\<rparr>, False)"
proof -
  have "read_talosconfig duo_env duo_host ''/s/lab/b'' = Inr None"
    by (simp add: read_talosconfig_def duo_world path_eval)
  then show ?thesis
    by (simp add: join_from_files_def same_segment_def duo_network duo_find duo_artifacts duo_dir)
qed

lemma duo_join:
  "vmJoinOptions duo_ctx duo_env duo_host duo_joiner 0 =
     (Inr (Some \<lparr>j_SecretsBundle = ''pki'', j_ClusterEndpoint = ''https://a'', j_Kubeconfig = ''kube''\<rparr>), 0)"
proof -
  obtain st where "Observe_hvf duo_env duo_owner duo_host = Inr (Running, st)"
    using duo_running by (auto simp: is_running_def split: sum.splits prod.splits State.splits)
  then have up: "realOwnerUp duo_ctx duo_env duo_host (duo_owner, ''/s/lab/a'') ''kube'' False 0 = (None, 0)"
    by (simp add: realOwnerUp_def KubeAPIAnswers_def duo_ctx_def lab_api_def)
  have target: "nested_string duo_joiner [''spec'', ''joins''] = ''a''" "GetName duo_joiner = ''b''" by (simp_all add: duo_joiner_def)
  have mem: "checkCapacity duo_env (jc_mem duo_ctx) duo_host duo_joiner = None"
    using duo_capacity by (simp add: duo_ctx_def)
  from duo_from_files obtain ocn where ocn: "Addr ocn = V4 0x0AFE000A" "join_from_files duo_ctx duo_env duo_host duo_joiner ''a'' =
     Inr ((duo_owner, ''/s/lab/a''), ocn, \<lparr>j_SecretsBundle = ''pki'', j_ClusterEndpoint = ''https://a'', j_Kubeconfig = ''kube''\<rparr>, False)" by blast
  have "\<exists>io. owner_segment duo_ctx duo_env duo_joiner ocn 0 = (io, 0)"
    by (simp add: owner_segment_def duo_ctx_def split: prod.splits)
  then obtain io where io: "owner_segment duo_ctx duo_env duo_joiner ocn 0 = (io, 0)" by blast
  then have "probeSegment io (V4 0x0AFE000A) = Inr ()" using duo_probe [of duo_joiner ocn 0] by simp
  with target ocn up io mem show ?thesis by (simp add: vmJoinOptions_def)
qed

theorem vmJoinOptions_owner_witness:
  "\<exists>owner :: siteMachine. GetName (fst owner) = ''a'' \<and> is_running duo_env duo_host (fst owner)"
proof -
  have "nested_string duo_joiner [''spec'', ''joins''] = ''a''" by (simp add: duo_joiner_def)
  with vmJoinOptions_owner [OF duo_join] show ?thesis by auto
qed

end
