(* ===== verification/Tinq_Members.thy ===== *)
theory Tinq_Members
  imports Tinq_Join
begin

section \<open>The members of a cluster\<close>

text \<open>
  \<^verbatim>\<open>joinersOf\<close>, \<^verbatim>\<open>allJoinersOf\<close>, \<^verbatim>\<open>stoppedMembers\<close> and \<^verbatim>\<open>runningMember\<close> of \<^verbatim>\<open>cmd/tinq/lifecycle.go\<close>. The
  breadth-first search of \<open>allJoinersOf\<close> is stated for any function that answers a machine's joiners;
  a search that never ends is the value \<^term>\<open>None\<close>.
\<close>

subsection \<open>Breadth-first search by name\<close>

definition mname :: "siteMachine \<Rightarrow> string" where
  "mname j = GetName (fst j)"

text \<open>The inner loop: the machines not seen yet, in order, with the names seen after them.\<close>

fun admit :: "string list \<Rightarrow> siteMachine list \<Rightarrow> string list \<times> siteMachine list" where
  "admit seen [] = (seen, [])"
| "admit seen (j # js) =
     (if mname j \<in> set seen then admit seen js
      else case admit (mname j # seen) js of (seen', new) \<Rightarrow> (seen', j # new))"

partial_function (option) search ::
  "(obj \<Rightarrow> 'e + siteMachine list) \<Rightarrow> string list \<Rightarrow> obj list \<Rightarrow> siteMachine list \<Rightarrow> ('e + siteMachine list) option" where
  "search joiners seen queue out =
     (case queue of
        [] \<Rightarrow> Some (Inr out)
      | cur # rest \<Rightarrow>
          (case joiners cur of
             Inl err \<Rightarrow> Some (Inl err)
           | Inr js \<Rightarrow> search joiners (fst (admit seen js)) (rest @ map fst (snd (admit seen js))) (out @ snd (admit seen js))))"

lemma admit_Cons:
  "mname j \<notin> set seen \<Longrightarrow> admit seen (j # js) = (fst (admit (mname j # seen) js), j # snd (admit (mname j # seen) js))"
  by (simp add: case_prod_beta)

lemma admit_seen: "set (fst (admit seen js)) = set seen \<union> mname ` set (snd (admit seen js))"
proof (induction seen js rule: admit.induct)
  case (2 seen j js)
  show ?case
  proof (cases "mname j \<in> set seen")
    case True
    with 2(1) show ?thesis by simp
  next
    case False
    with 2(2) show ?thesis by (simp only: admit_Cons [OF False]) simp
  qed
qed simp

lemma admit_covers: "mname ` set js \<subseteq> set (fst (admit seen js))"
proof (induction seen js rule: admit.induct)
  case (2 seen j js)
  show ?case
  proof (cases "mname j \<in> set seen")
    case True
    with 2(1) show ?thesis by (simp add: admit_seen)
  next
    case False
    with 2(2) show ?thesis by (simp only: admit_Cons [OF False]) (simp add: admit_seen)
  qed
qed simp

lemma admit_new: "set (snd (admit seen js)) \<subseteq> set js \<and> distinct (map mname (snd (admit seen js)))
  \<and> mname ` set (snd (admit seen js)) \<inter> set seen = {}"
proof (induction seen js rule: admit.induct)
  case (2 seen j js)
  show ?case
  proof (cases "mname j \<in> set seen")
    case True
    with 2(1) show ?thesis by auto
  next
    case False
    with 2(2) show ?thesis by (simp only: admit_Cons [OF False]) auto
  qed
qed simp

text \<open>
  Who is found from \<open>m\<close>: its joiners, and theirs.
\<close>

inductive joins_through :: "(obj \<Rightarrow> 'e + siteMachine list) \<Rightarrow> obj \<Rightarrow> siteMachine \<Rightarrow> bool" for joiners m where
  direct: "joiners m = Inr js \<Longrightarrow> j \<in> set js \<Longrightarrow> joins_through joiners m j"
| through: "joins_through joiners m i \<Longrightarrow> joiners (fst i) = Inr js \<Longrightarrow> j \<in> set js \<Longrightarrow> joins_through joiners m j"

text \<open>Every machine comes after the one it joined, which is \<open>m\<close> or stands earlier.\<close>

definition in_order :: "(obj \<Rightarrow> 'e + siteMachine list) \<Rightarrow> obj \<Rightarrow> siteMachine list \<Rightarrow> bool" where
  "in_order joiners m out =
     (\<forall>k < length out. \<exists>parent js. (parent = m \<or> (\<exists>i < k. parent = fst (out ! i))) \<and> joiners parent = Inr js \<and> out ! k \<in> set js)"

locale member_search =
  fixes joiners :: "obj \<Rightarrow> 'e + siteMachine list" and recorded :: "string set"
  assumes known: "joiners m = Inr js \<Longrightarrow> j \<in> set js \<Longrightarrow> mname j \<in> recorded"
begin

lemma search_ends:
  assumes "finite recorded"
  shows "\<exists>r. search joiners seen queue out = Some r"
proof (induction "2 * card (recorded - set seen) + length queue" arbitrary: seen queue out rule: less_induct)
  case less
  show ?case
  proof (cases queue)
    case Nil
    then show ?thesis by (simp add: search.simps [of _ _ "[]"])
  next
    case (Cons cur rest)
    show ?thesis
    proof (cases "joiners cur")
      case (Inl err)
      with Cons show ?thesis by (simp add: search.simps [of _ _ "cur # rest"])
    next
      case (Inr js)
      let ?seen = "fst (admit seen js)" and ?new = "snd (admit seen js)"
      let ?N = "mname ` set ?new"
      have new: "?N \<subseteq> recorded - set seen"
        using admit_new [of seen js] known [OF Inr] by auto
      have "card ?N = length ?new"
        using admit_new [of seen js] by (metis distinct_card length_map list.set_map)
      moreover have "recorded - set ?seen = (recorded - set seen) - ?N" by (auto simp: admit_seen)
      moreover have "card ((recorded - set seen) - ?N) = card (recorded - set seen) - card ?N"
        using new assms by (intro card_Diff_subset) auto
      moreover have "card ?N \<le> card (recorded - set seen)" using new assms by (intro card_mono) auto
      ultimately have "2 * card (recorded - set ?seen) + length (rest @ map fst ?new) < 2 * card (recorded - set seen) + length queue"
        using Cons by simp
      from less [OF this] Inr Cons show ?thesis by (simp add: search.simps [of _ _ "cur # rest"])
    qed
  qed
qed

text \<open>What holds of the search at every turn of its loop.\<close>

definition searching :: "obj \<Rightarrow> string list \<Rightarrow> obj list \<Rightarrow> siteMachine list \<Rightarrow> bool" where
  "searching m seen queue out =
     (set seen = insert (GetName m) (mname ` set out) \<and> distinct (map mname out)
      \<and> GetName m \<notin> mname ` set out \<and> in_order joiners m out \<and> set queue \<subseteq> insert m (fst ` set out)
      \<and> (\<forall>x \<in> insert m (fst ` set out). x \<in> set queue \<or> (\<exists>js. joiners x = Inr js \<and> mname ` set js \<subseteq> set seen)))"

lemma in_order_append:
  assumes "in_order joiners m out" "cur = m \<or> cur \<in> fst ` set out" "joiners cur = Inr js" "set new \<subseteq> set js"
  shows "in_order joiners m (out @ new)"
  unfolding in_order_def
proof (intro allI impI)
  fix k
  assume k: "k < length (out @ new)"
  show "\<exists>parent js. (parent = m \<or> (\<exists>i < k. parent = fst ((out @ new) ! i))) \<and> joiners parent = Inr js \<and> (out @ new) ! k \<in> set js"
  proof (cases "k < length out")
    case True
    with assms(1) obtain parent js' where p: "parent = m \<or> (\<exists>i < k. parent = fst (out ! i))" "joiners parent = Inr js'" "out ! k \<in> set js'"
      unfolding in_order_def by blast
    have same: "(out @ new) ! i = out ! i" if "i \<le> k" for i using that True by (simp add: nth_append)
    then have "parent = m \<or> (\<exists>i < k. parent = fst ((out @ new) ! i))" using p(1) by (metis less_imp_le)
    moreover have "(out @ new) ! k \<in> set js'" using same [of k] p(3) by simp
    ultimately show ?thesis using p(2) by blast
  next
    case False
    then have "(out @ new) ! k = new ! (k - length out)" "k - length out < length new" using k by (auto simp: nth_append)
    then have "(out @ new) ! k \<in> set js" using assms(4) nth_mem [of "k - length out" new] by auto
    moreover have "\<exists>i < k. cur = fst ((out @ new) ! i)" if "cur \<in> fst ` set out"
    proof -
      from that obtain i where "i < length out" "cur = fst (out ! i)" by (auto simp: in_set_conv_nth)
      with False show ?thesis by (intro exI [of _ i]) (simp add: nth_append)
    qed
    ultimately show ?thesis using assms(2,3) by blast
  qed
qed

lemma searching_step:
  assumes "searching m seen (cur # rest) out" "joiners cur = Inr js"
  shows "searching m (fst (admit seen js)) (rest @ map fst (snd (admit seen js))) (out @ snd (admit seen js))"
proof -
  let ?seen = "fst (admit seen js)" and ?new = "snd (admit seen js)"
  have cur: "cur = m \<or> cur \<in> fst ` set out" using assms(1) by (auto simp: searching_def)
  have "in_order joiners m (out @ ?new)"
    using assms admit_new [of seen js] by (intro in_order_append [OF _ cur assms(2)]) (auto simp: searching_def)
  moreover have "set ?seen = insert (GetName m) (mname ` set (out @ ?new))"
    using assms(1) by (auto simp: searching_def admit_seen)
  moreover have "distinct (map mname (out @ ?new))" "GetName m \<notin> mname ` set (out @ ?new)"
    using assms(1) admit_new [of seen js] by (auto simp: searching_def)
  moreover have "x \<in> set (rest @ map fst ?new) \<or> (\<exists>js. joiners x = Inr js \<and> mname ` set js \<subseteq> set ?seen)"
    if "x \<in> insert m (fst ` set (out @ ?new))" for x
  proof (cases "x \<in> fst ` set ?new \<or> x = cur")
    case True
    then show ?thesis using assms(2) admit_covers [of js seen] by auto
  next
    case False
    with that have "x \<in> insert m (fst ` set out)" by auto
    with assms(1) False have "x \<in> set rest \<or> (\<exists>js. joiners x = Inr js \<and> mname ` set js \<subseteq> set seen)"
      by (auto simp: searching_def)
    moreover have "set seen \<subseteq> set ?seen" by (simp add: admit_seen)
    ultimately show ?thesis by (auto dest: order_trans)
  qed
  moreover have "set (rest @ map fst ?new) \<subseteq> insert m (fst ` set (out @ ?new))"
    using assms(1) by (auto simp: searching_def)
  ultimately show ?thesis by (simp only: searching_def) blast
qed


lemma search_finds:
  assumes "search joiners seen queue out = Some r" "searching m seen queue out" "r = Inr found"
  shows "\<exists>seen'. searching m seen' [] found"
proof -
  have "j = joiners \<longrightarrow> searching m seen queue out \<longrightarrow> r = Inr found \<longrightarrow> (\<exists>seen'. searching m seen' [] found)"
    if "search j seen queue out = Some r" for j
    using _ that
  proof (rule search.raw_induct [of "\<lambda>j seen queue out r. j = joiners \<longrightarrow> searching m seen queue out \<longrightarrow> r = Inr found \<longrightarrow>
      (\<exists>seen'. searching m seen' [] found)"], intro impI)
    fix self :: "(obj \<Rightarrow> 'e + siteMachine list) \<Rightarrow> string list \<Rightarrow> obj list \<Rightarrow> siteMachine list \<Rightarrow> ('e + siteMachine list) option"
    fix j :: "obj \<Rightarrow> 'e + siteMachine list" and seen queue out r
    assume IH: "\<And>j seen queue out r. self j seen queue out = Some r \<Longrightarrow> j = joiners \<longrightarrow> searching m seen queue out \<longrightarrow> r = Inr found \<longrightarrow>
        (\<exists>seen'. searching m seen' [] found)"
      and run: "(case queue of [] \<Rightarrow> Some (Inr out)
        | cur # rest \<Rightarrow> (case j cur of Inl err \<Rightarrow> Some (Inl err)
          | Inr js \<Rightarrow> self j (fst (admit seen js)) (rest @ map fst (snd (admit seen js))) (out @ snd (admit seen js)))) = Some r"
      and hyps: "j = joiners" "searching m seen queue out" "r = Inr found"
    show "\<exists>seen'. searching m seen' [] found"
    proof (cases queue)
      case Nil
      with run hyps show ?thesis by auto
    next
      case (Cons cur rest)
      with run hyps obtain js where js: "joiners cur = Inr js" by (cases "joiners cur") auto
      with run Cons hyps(1) have "self joiners (fst (admit seen js)) (rest @ map fst (snd (admit seen js))) (out @ snd (admit seen js)) = Some r"
        by simp
      from IH [OF this] searching_step [OF hyps(2) [unfolded Cons] js] hyps(3) show ?thesis by blast
    qed
  qed
  with assms show ?thesis by blast
qed

text \<open>The search from a machine: whom it finds, in which order, and that it misses nobody when a name means one machine.\<close>

lemma search_start: "search joiners [GetName m] [m] [] = Some (Inr found) \<Longrightarrow> \<exists>seen. searching m seen [] found"
  by (rule search_finds [of "[GetName m]" "[m]" "[]"]) (simp_all add: searching_def in_order_def)

lemma in_order_joined:
  assumes "in_order joiners m found" "k < length found"
  shows "joins_through joiners m (found ! k)"
  using assms(2)
proof (induction k rule: less_induct)
  case (less k)
  with assms(1) obtain parent js where p: "parent = m \<or> (\<exists>i < k. parent = fst (found ! i))" "joiners parent = Inr js" "found ! k \<in> set js"
    unfolding in_order_def by blast
  from p(1) show ?case
  proof
    assume "parent = m"
    with p show ?thesis by (auto intro: joins_through.direct)
  next
    assume "\<exists>i < k. parent = fst (found ! i)"
    then obtain i where i: "i < k" "parent = fst (found ! i)" by blast
    with less have "joins_through joiners m (found ! i)" by simp
    with p i show ?thesis by (auto intro: joins_through.through)
  qed
qed

lemma search_complete:
  assumes "search joiners [GetName m] [m] [] = Some (Inr found)" "joins_through joiners m j"
    and one: "\<And>i j. joins_through joiners m i \<Longrightarrow> joins_through joiners m j \<Longrightarrow> mname i = mname j \<Longrightarrow> fst i = fst j"
    and self: "\<And>i. joins_through joiners m i \<Longrightarrow> mname i = GetName m \<Longrightarrow> fst i = m"
  shows "mname j \<in> insert (GetName m) (mname ` set found)"
proof -
  from search_start [OF assms(1)] obtain seen where s: "searching m seen [] found" by blast
  then have seen: "set seen = insert (GetName m) (mname ` set found)" and order: "in_order joiners m found"
    by (simp_all add: searching_def)
  have closed: "mname j \<in> set seen" if "x = m \<or> x \<in> fst ` set found" "joiners x = Inr js" "j \<in> set js" for x js j
  proof -
    have "x \<in> insert m (fst ` set found)" using that(1) by blast
    with s obtain js' where "joiners x = Inr js'" "mname ` set js' \<subseteq> set seen"
      unfolding searching_def by (metis empty_iff list.set(1))
    with that(2,3) show ?thesis by auto
  qed
  from assms(2) have "mname j \<in> set seen"
  proof (induction rule: joins_through.induct)
    case (direct js j)
    then show ?case using closed [of m] by blast
  next
    case (through i js j)
    then consider "mname i = GetName m" | f where "f \<in> set found" "mname i = mname f" unfolding seen by auto
    then have "fst i = m \<or> fst i \<in> fst ` set found"
    proof cases
      case 1
      with self through(1) show ?thesis by blast
    next
      case (2 f)
      then obtain k where "k < length found" "found ! k = f" by (auto simp: in_set_conv_nth)
      with in_order_joined [OF order] have "joins_through joiners m f" by blast
      with one [OF through(1)] 2 show ?thesis by auto
    qed
    with through(2,3) show ?case using closed by blast
  qed
  then show ?thesis by (simp add: seen)
qed

lemma search_found:
  assumes "search joiners [GetName m] [m] [] = Some (Inr found)"
  shows "distinct (map mname found) \<and> GetName m \<notin> mname ` set found \<and> in_order joiners m found"
  using search_start [OF assms] by (auto simp: searching_def)

end

subsection \<open>Joiners\<close>

definition joins_of :: "obj \<Rightarrow> string" where
  "joins_of m = nested_string m [''spec'', ''joins'']"

definition joinersOf :: "env \<Rightarrow> hostw \<Rightarrow> obj \<Rightarrow> clusternet_error + siteMachine list" where
  "joinersOf e w m =
     and_then (siteMachines (site_view_of e w) (e_stateRoot e) (site_of m) (dir_of e m)) (\<lambda>machines.
     Inr (filter (\<lambda>other. joins_of (fst other) = GetName m \<and> GetNamespace (fst other) = GetNamespace m) machines))"

definition allJoinersOf :: "env \<Rightarrow> hostw \<Rightarrow> obj \<Rightarrow> (clusternet_error + siteMachine list) option" where
  "allJoinersOf e w m = search (joinersOf e w) [GetName m] [m] []"

text \<open>The names on record: those of the machines some file of the host decodes to.\<close>

definition recorded_names :: "env \<Rightarrow> hostw \<Rightarrow> string set" where
  "recorded_names e w = {GetName ob |ob b. b \<in> ran (hw_files w) \<and> e_unmarshal e b = Some ob}"

lemma site_scan_record:
  "site_scan sv root site self es = Inr ms \<Longrightarrow> j \<in> set ms \<Longrightarrow> \<exists>p b. sv_record sv p = Inr b \<and> sv_unmarshal sv b = Some (fst j)"
  by (induction sv root site self es arbitrary: ms rule: site_scan.induct)
    (force simp: Let_def result_simps split: if_splits sum.splits bool.splits option.splits)+

lemma siteMachines_recorded:
  assumes "siteMachines (site_view_of e w) root site self = Inr ms" "j \<in> set ms"
  shows "mname j \<in> recorded_names e w"
proof -
  from assms obtain p b where "sv_record (site_view_of e w) p = Inr b" "sv_unmarshal (site_view_of e w) b = Some (fst j)"
    by (auto simp: siteMachines_def result_simps split: sum.splits bool.splits dest!: site_scan_record)
  then have "hw_files w p = Some b" "e_unmarshal e b = Some (fst j)"
    by (auto simp: site_view_of_def split: if_splits option.splits)
  then show ?thesis unfolding recorded_names_def mname_def by (auto intro: ranI)
qed

lemma finite_recorded_names:
  assumes "finite (dom (hw_files w))"
  shows "finite (recorded_names e w)"
proof -
  have "finite (ran (hw_files w))" using assms by (rule finite_ran)
  moreover have "recorded_names e w \<subseteq> (\<lambda>b. GetName (the (e_unmarshal e b))) ` ran (hw_files w)"
    by (force simp: recorded_names_def)
  ultimately show ?thesis by (blast intro: finite_subset)
qed

interpretation site: member_search "joinersOf e w" "recorded_names e w" for e w
  by unfold_locales (auto simp: joinersOf_def result_simps dest: siteMachines_recorded simp flip: mname_def)

text \<open>
  C26. Finding the members of a cluster ends, finds everyone once, and in an order they can be taken
  down in. On a host with finitely many files the search from \<open>m\<close> returns; when it does not meet an
  unreadable record it lists, each name once and never \<open>m\<close>'s own, every machine that joined \<open>m\<close> or
  one of its joiners, each after the machine it joined, provided a name means one machine.
\<close>

theorem allJoinersOf_members:
  assumes "finite (dom (hw_files w))"
    and "\<forall>i j. joins_through (joinersOf e w) m i \<and> joins_through (joinersOf e w) m j \<and> mname i = mname j \<longrightarrow> fst i = fst j"
    and "\<forall>i. joins_through (joinersOf e w) m i \<and> mname i = GetName m \<longrightarrow> fst i = m"
  shows "\<exists>r. allJoinersOf e w m = Some r \<and> (\<forall>found. r = Inr found \<longrightarrow>
    distinct (map mname found) \<and> GetName m \<notin> mname ` set found \<and> in_order (joinersOf e w) m found
    \<and> mname ` set found = mname ` {j. joins_through (joinersOf e w) m j} - {GetName m})"
proof -
  obtain r where r: "allJoinersOf e w m = Some r"
    using site.search_ends [OF finite_recorded_names [OF assms(1)]] unfolding allJoinersOf_def by blast
  have "distinct (map mname found) \<and> GetName m \<notin> mname ` set found \<and> in_order (joinersOf e w) m found
    \<and> mname ` set found = mname ` {j. joins_through (joinersOf e w) m j} - {GetName m}" if "r = Inr found" for found
  proof -
    have s: "search (joinersOf e w) [GetName m] [m] [] = Some (Inr found)" using r that by (simp add: allJoinersOf_def)
    note f = site.search_found [OF s]
    have "mname j \<in> insert (GetName m) (mname ` set found)" if "joins_through (joinersOf e w) m j" for j
      by (rule site.search_complete [OF s that]) (use assms(2,3) in blast)+
    moreover have "joins_through (joinersOf e w) m j" if "j \<in> set found" for j
      using that site.in_order_joined f by (metis in_set_conv_nth)
    ultimately show ?thesis using f by blast
  qed
  with r show ?thesis by blast
qed

subsection \<open>Who is stopped, who is running\<close>

datatype member_error =
  Member_search clusternet_error
| Member_search_endless
| Member_unread string up_failure
| Member_unobservable string string

text \<open>A joiner without a talosconfig never applied a config, so it holds no vote.\<close>

fun stopped_among :: "env \<Rightarrow> hostw \<Rightarrow> siteMachine list \<Rightarrow> member_error + string list" where
  "stopped_among e w [] = Inr []"
| "stopped_among e w (j # js) =
     (case read_talosconfig e w (snd j) of
        Inl err \<Rightarrow> Inl (Member_unread (mname j) err)
      | Inr None \<Rightarrow> stopped_among e w js
      | Inr (Some _) \<Rightarrow>
          (case Observe_hvf e (fst j) w of
             Inl err \<Rightarrow> Inl (Member_unobservable (mname j) err)
           | Inr (state, _) \<Rightarrow>
               and_then (stopped_among e w js) (\<lambda>out. Inr (if state \<noteq> Running then mname j # out else out))))"

definition stoppedMembers :: "env \<Rightarrow> hostw \<Rightarrow> obj \<Rightarrow> member_error + string list" where
  "stoppedMembers e w m =
     (case allJoinersOf e w m of
        None \<Rightarrow> Inl Member_search_endless
      | Some (Inl err) \<Rightarrow> Inl (Member_search err)
      | Some (Inr joiners) \<Rightarrow> and_then (stopped_among e w joiners) (\<lambda>out. Inr (sort out)))"

definition member_endpoint :: "env \<Rightarrow> hostw \<Rightarrow> clusterNetwork \<Rightarrow> siteMachine \<Rightarrow> string option" where
  "member_endpoint e w cn other =
     (case specClusterNetwork (e_pod e) (e_svc e) (fst other) of
        Inr (Some ocn) \<Rightarrow>
          if Name ocn = Name cn \<and> is_running e w (fst other) \<and> talosEndpoint (fst other) \<noteq> ''''
          then Some (talosEndpoint (fst other)) else None
      | _ \<Rightarrow> None)"

definition runningMember :: "env \<Rightarrow> hostw \<Rightarrow> obj \<Rightarrow> string option" where
  "runningMember e w m =
     (case (siteMachines (site_view_of e w) (e_stateRoot e) (site_of m) (dir_of e m), specClusterNetwork (e_pod e) (e_svc e) m) of
        (Inr machines, Inr (Some cn)) \<Rightarrow>
          (case find (\<lambda>other. member_endpoint e w cn other \<noteq> None) machines of
             Some other \<Rightarrow> member_endpoint e w cn other
           | None \<Rightarrow> None)
      | _ \<Rightarrow> None)"

text \<open>The members reported stopped are the configured joiners whose VM is not running, by name and sorted.\<close>

lemma stopped_among_iff:
  "stopped_among e w js = Inr out \<Longrightarrow>
   set out = mname ` {j \<in> set js. hw_files w (path_join [snd j, ''talosconfig'']) \<noteq> None \<and> \<not> is_running e w (fst j)}"
proof (induction js arbitrary: out)
  case (Cons j js)
  obtain tc where tc: "read_talosconfig e w (snd j) = Inr tc" using Cons.prems by (cases "read_talosconfig e w (snd j)") auto
  then have tcf: "tc = hw_files w (path_join [snd j, ''talosconfig''])" by (auto simp: read_talosconfig_def Let_def split: if_splits)
  show ?case
  proof (cases tc)
    case None
    with Cons tc tcf show ?thesis by auto
  next
    case (Some b)
    obtain state st where st: "Observe_hvf e (fst j) w = Inr (state, st)"
      using Cons.prems tc Some by (cases "Observe_hvf e (fst j) w") auto
    then have run: "is_running e w (fst j) \<longleftrightarrow> state = Running" by (cases state) (auto simp: is_running_def)
    from Cons.prems tc Some st obtain out' where out': "stopped_among e w js = Inr out'"
      "out = (if state \<noteq> Running then mname j # out' else out')" by (auto simp: result_simps)
    show ?thesis using Cons.IH [OF out'(1)] out'(2) run Some tcf by auto
  qed
qed simp

lemma duo_joiners:
  "joinersOf duo_env duo_host duo_owner = Inr [(duo_joiner, ''/s/lab/b'')]" "joinersOf duo_env duo_host duo_joiner = Inr []"
  using duo_site duo_dir by (simp_all add: joinersOf_def site_of_def joins_of_def) (simp_all add: duo_owner_def duo_joiner_def)

lemma duo_joined: "joins_through (joinersOf duo_env duo_host) duo_owner i \<Longrightarrow> i = (duo_joiner, ''/s/lab/b'')"
  by (induction rule: joins_through.induct) (use duo_joiners in auto)

theorem allJoinersOf_members_witness:
  "\<exists>r. allJoinersOf duo_env duo_host duo_owner = Some r \<and> (\<forall>found. r = Inr found \<longrightarrow> mname ` set found = {''b''})"
proof -
  have names: "mname (duo_joiner, ''/s/lab/b'') = ''b''" "GetName duo_owner = ''a''"
    by (simp_all add: mname_def duo_joiner_def duo_owner_def)
  have "joins_through (joinersOf duo_env duo_host) duo_owner (duo_joiner, ''/s/lab/b'')" using duo_joiners by (auto intro: direct)
  then have "{j. joins_through (joinersOf duo_env duo_host) duo_owner j} = {(duo_joiner, ''/s/lab/b'')}" using duo_joined by blast
  then have image: "mname ` {j. joins_through (joinersOf duo_env duo_host) duo_owner j} - {GetName duo_owner} = {''b''}" using names by simp
  have fin: "finite (dom (hw_files duo_host))" by (simp add: duo_host_def)
  have same: "\<forall>i j. joins_through (joinersOf duo_env duo_host) duo_owner i \<and> joins_through (joinersOf duo_env duo_host) duo_owner j \<and> mname i = mname j
      \<longrightarrow> fst i = fst j" using duo_joined by blast
  have own: "\<forall>i. joins_through (joinersOf duo_env duo_host) duo_owner i \<and> mname i = GetName duo_owner \<longrightarrow> fst i = duo_owner"
    using duo_joined names by fastforce
  from allJoinersOf_members [OF fin same own, unfolded image] obtain r where r: "allJoinersOf duo_env duo_host duo_owner = Some r"
    "\<forall>found. r = Inr found \<longrightarrow> distinct (map mname found) \<and> GetName duo_owner \<notin> mname ` set found
      \<and> in_order (joinersOf duo_env duo_host) duo_owner found \<and> mname ` set found = {''b''}" by (elim exE conjE)
  show ?thesis by (intro exI [of _ r] conjI r(1)) (simp add: r(2))
qed

end
