(* ===== verification/Tinq_Verbs.thy ===== *)
theory Tinq_Verbs
  imports Tinq_Members Cluster_Reconfigure Cluster_Nodeinfo
begin

section \<open>From a machine file to a bring-up\<close>

text \<open>
  The verbs \<^verbatim>\<open>up\<close> (\<^verbatim>\<open>bringUp\<close> and \<^verbatim>\<open>upOptions\<close> of \<^verbatim>\<open>cmd/tinq/main.go\<close>), \<^verbatim>\<open>adopt\<close> (\<^verbatim>\<open>adoptMachine\<close> of
  \<^verbatim>\<open>cmd/tinq/adopt.go\<close>) and \<^verbatim>\<open>reconfigure\<close> (\<^verbatim>\<open>cmd/tinq/reconfigure.go\<close>): how a machine file is
  translated into what \<open>Up\<close> and \<open>Reconfigure\<close> are given, with every refusal in the order of the code.
  A verb runs over the world of a host and of a net; the files are those of the run, which the
  host's agree with when a verb starts. The progress lines are not modelled.
\<close>

datatype verb_error =
  V_read read_error
| V_substrate substrate_error
| V_image create_error
| V_detect detect_error
| V_mirrors mirror_error
| V_patches patch_error
| V_site clusternet_error
| V_identity identity_error
| V_image_panic
| V_join join_error
| V_members member_error
| V_up up_error
| V_not_a_block string
| V_no_maintenance_endpoint
| V_endpoint_with_port string
| V_block baremetal_error
| V_network network_error
| V_disk disk_error
| V_two_places string string
| V_state_dir string
| V_failed up_failure
| V_unreachable client_error "string option"
| V_link link_error
| V_reconfigure reconfigure_error

text \<open>\<^verbatim>\<open>filepath.Base\<close>.\<close>

definition path_base :: "string \<Rightarrow> string" where
  "path_base p =
     (if p = '''' then ''.''
      else let q = rev (dropWhile (\<lambda>c. c = CHR ''/'') (rev p)) in
           if q = '''' then ''/'' else rev (takeWhile (\<lambda>c. c \<noteq> CHR ''/'') (rev q)))"

definition disables_kexec :: "Platform \<Rightarrow> bool" where
  "disables_kexec host = (OS host = ''darwin'' \<and> ImageArch host = ''arm64'')"

subsection \<open>up\<close>

text \<open>What \<open>upOptions\<close> reads and refuses from files alone.\<close>

record vm_facts =
  vf_image :: string
  vf_host :: Platform
  vf_mirrors :: "RegistryMirror list"
  vf_patches :: "string list"
  vf_net :: "ClusterNetwork option"
  vf_hostname :: string
  vf_version :: string

definition vm_facts_of :: "env \<Rightarrow> 'c machinery \<Rightarrow> hostw \<Rightarrow> obj \<Rightarrow> verb_error + vm_facts" where
  "vm_facts_of e mc w m =
     and_then (map_error V_image (resolveImage e w (nested_map m [''spec'']))) (\<lambda>img.
     and_then (map_error V_detect (e_detect e)) (\<lambda>host.
     and_then (map_error V_mirrors (registryMirrors (host_fs e w) m)) (\<lambda>mirrors.
     and_then (map_error V_patches (configPatches m)) (\<lambda>patches.
     case checkSite (site_view_of e w) (e_stateRoot e) (e_pod e) (e_svc e) m of
       Some err \<Rightarrow> Inl (V_site err)
     | None \<Rightarrow>
     and_then (map_error V_site (nodeIdentity (e_sha256 e) (e_pod e) (e_svc e) m)) (\<lambda>(cn, hostname).
     case InspectImageVersion (read_file e w img) of
       None \<Rightarrow> Inl V_image_panic
     | Some talosVersion \<Rightarrow>
       (case CheckNodeIdentity mc talosVersion cn hostname of
          Some err \<Rightarrow> Inl (V_identity err)
        | None \<Rightarrow> Inr \<lparr>vf_image = img, vf_host = host, vf_mirrors = mirrors, vf_patches = patches, vf_net = cn,
                       vf_hostname = hostname, vf_version = talosVersion\<rparr>))))))"

definition vm_options :: "env \<Rightarrow> obj \<Rightarrow> vm_facts \<Rightarrow> JoinOptions option \<Rightarrow> string list \<Rightarrow> UpOptions" where
  "vm_options e m f jo stopped =
     (let spec = nested_map m [''spec'']; host = vf_host f in
      \<lparr>o_ClusterName = GetName m, o_StateDir = dir_of e m, o_TalosEndpoint = talosEndpoint m, o_KubeEndpoint = kubeEndpoint m,
       o_SystemDisk = specSystemDisk spec, o_DataDiskSerial = dataDiskSerial spec, o_EphemeralMaxSize = '''',
       o_InstallerImage = str (field spec ''installerImage'') '''',
       o_TalosVersion = vf_version f, o_VersionSource = path_base (vf_image f) @ '' (ISO volume id)'',
       o_Substrate = OS host @ ''/'' @ ImageArch host @ '', '' @ Accel host @ '', '' @ QEMUBinary host,
       o_ConsoleArg = ConsoleArg host, o_DisableKexec = disables_kexec host, o_Network = None,
       o_ClusterNetwork = vf_net f, o_Hostname = vf_hostname f, o_Registries = vf_mirrors f, o_ConfigPatches = vf_patches f,
       o_KubernetesVersion = str (field spec ''kubernetesVersion'') '''', o_Join = jo, o_StoppedMembers = stopped\<rparr>)"

definition upOptions :: "env \<Rightarrow> 'n join_ctx \<Rightarrow> 'c machinery \<Rightarrow> hostw \<Rightarrow> obj \<Rightarrow> 'n \<Rightarrow> (verb_error + UpOptions) \<times> 'n" where
  "upOptions e jc mc w m n =
     (case vm_facts_of e mc w m of
        Inl err \<Rightarrow> (Inl err, n)
      | Inr f \<Rightarrow>
          (case vmJoinOptions jc e w m n of
             (Inl err, n1) \<Rightarrow> (Inl (V_join err), n1)
           | (Inr (Some jo), n1) \<Rightarrow> (Inr (vm_options e m f (Some jo) []), n1)
           | (Inr None, n1) \<Rightarrow>
               (map_error V_members (and_then (stoppedMembers e w m) (\<lambda>stopped. Inr (vm_options e m f None stopped))), n1)))"

text \<open>The \<^verbatim>\<open>Boot\<close> closure of \<open>upOptions\<close>: a running VM is taken as it is, any other one is created.\<close>

definition vm_boot :: "env \<Rightarrow> obj \<Rightarrow> State \<Rightarrow> obj \<Rightarrow> hostw \<times> 'n \<Rightarrow> (string + int) \<times> (hostw \<times> 'n)" where
  "vm_boot e m state status v =
     (if state = Running then (Inr (toInt (field status ''pid'')), v)
      else case create e m (dir_of e m) (fst v) of (r, w1) \<Rightarrow> (map_error (\<lambda>_. ''create'') r, (w1, snd v)))"

definition run_host :: "(hostw \<times> 'n) run \<Rightarrow> hostw" where
  "run_host s = (fst (r_world s))\<lparr>hw_files := r_files s\<rparr>"

definition bringUp ::
  "env \<Rightarrow> 'n join_ctx \<Rightarrow> ('c, hostw \<times> 'n) up_env \<Rightarrow> obj \<Rightarrow> State \<Rightarrow> obj \<Rightarrow> ((hostw \<times> 'n) run, verb_error, unit) effect" where
  "bringUp e jc ue m state status s =
     (case upOptions e jc (ue_machinery ue) (run_host s) m (snd (r_world s)) of
        (Inl err, n1) \<Rightarrow> (Inl err, s\<lparr>r_world := (fst (r_world s), n1)\<rparr>)
      | (Inr opts, n1) \<Rightarrow>
          fails_as V_up (Up (ue\<lparr>ue_boot := vm_boot e m state status\<rparr>) opts) (s\<lparr>r_world := (fst (r_world s), n1)\<rparr>))"

subsection \<open>adopt\<close>

definition adoptMaintenanceTimeout :: nat where "adoptMaintenanceTimeout = 600000"

text \<open>The resource lists a node answers, as in \<open>ListDisks\<close> and \<open>ListLinks\<close>.\<close>

record 'w node_lists =
  nl_disks :: "credential \<Rightarrow> string \<Rightarrow> 'w \<Rightarrow> (rpc_failure + (string \<times> disk_spec) list) \<times> 'w"
  nl_links :: "credential \<Rightarrow> string \<Rightarrow> 'w \<Rightarrow> (rpc_failure + (string \<times> link_spec) list) \<times> 'w"

text \<open>
  The line a failed wait suggests for the kernel's command line, for a machine with a static address;
  \<^verbatim>\<open>net.CIDRMask\<close> of more than 32 bits is nil, which prints as such.
\<close>

definition cidr_mask :: "nat \<Rightarrow> string" where
  "cidr_mask bits = (if bits \<le> 32 then v4_string (push_bit (32 - bits) (drop_bit (32 - bits) (- 1))) else ''<nil>'')"

definition kernelCmdlineHint :: "Network option \<Rightarrow> string option" where
  "kernelCmdlineHint net =
     (case net of
        None \<Rightarrow> None
      | Some n \<Rightarrow>
          (case ParsePrefix (Address n) of
             None \<Rightarrow> None
           | Some (a, bits) \<Rightarrow>
               Some (''ip='' @ addr_string a @ ''::'' @ Gateway n @ '':'' @ cidr_mask bits @ ''::<your-nic>:off'')))"

record adopt_plan =
  ap_spec :: obj
  ap_endpoint :: string
  ap_network :: "Network option"
  ap_join :: "JoinOptions option"
  ap_mirrors :: "RegistryMirror list"
  ap_patches :: "string list"
  ap_systemDisk :: DiskRef
  ap_dataSerial :: string
  ap_ephemeral :: string

text \<open>Every refusal that is provable from files, in order, before the state directory is made.\<close>

definition adopt_plan_of :: "env \<Rightarrow> 'n join_ctx \<Rightarrow> hostw \<Rightarrow> obj \<Rightarrow> verb_error + adopt_plan" where
  "adopt_plan_of e jc w m =
     (case refuseWrongSubstrate m ''adopt'' of
        Some err \<Rightarrow> Inl (V_substrate err)
      | None \<Rightarrow>
     (case fst (specBaremetal m) of
        None \<Rightarrow> Inl (V_not_a_block (GetName m))
      | Some spec \<Rightarrow>
          let endpoint = baremetalTalosEndpoint m;
              a = str (field spec ''maintenanceEndpoint'') '''';
              systemDisk = \<lparr>Serial = str (field spec ''systemDiskSerial'') '''', WWID = str (field spec ''systemDiskWWID'') '''', DevPath = ''''\<rparr>;
              dataSerial = str (field spec ''dataDiskSerial'') '''';
              ephemeral = str (field spec ''ephemeralMaxSize'') ''''
          in
          if endpoint = '''' then Inl V_no_maintenance_endpoint
          else if CHR '':'' \<in> set a then Inl (V_endpoint_with_port a)
          else
            and_then (map_error V_block (baremetalNetwork m)) (\<lambda>network.
            and_then (map_error V_network (CheckNetwork network a)) (\<lambda>_.
            and_then (map_error V_join (joinOptions jc e w m)) (\<lambda>jo.
            and_then (map_error V_mirrors (registryMirrors (host_fs e w) m)) (\<lambda>mirrors.
            and_then (map_error V_patches (configPatches m)) (\<lambda>patches.
            case Validate systemDisk ''install target'' of
              Some err \<Rightarrow> Inl (V_disk err)
            | None \<Rightarrow>
                if dataSerial \<noteq> '''' \<and> ephemeral \<noteq> '''' then Inl (V_two_places dataSerial ephemeral)
                else Inr \<lparr>ap_spec = spec, ap_endpoint = endpoint, ap_network = network, ap_join = jo, ap_mirrors = mirrors,
                          ap_patches = patches, ap_systemDisk = systemDisk, ap_dataSerial = dataSerial, ap_ephemeral = ephemeral\<rparr>)))))))"

definition adopt_options :: "env \<Rightarrow> obj \<Rightarrow> adopt_plan \<Rightarrow> string \<times> string \<Rightarrow> UpOptions" where
  "adopt_options e m p version =
     \<lparr>o_ClusterName = GetName m, o_StateDir = dir_of e m, o_TalosEndpoint = ap_endpoint p, o_KubeEndpoint = baremetalKubeEndpoint m,
      o_SystemDisk = ap_systemDisk p, o_DataDiskSerial = ap_dataSerial p, o_EphemeralMaxSize = ap_ephemeral p,
      o_InstallerImage = '''', o_TalosVersion = fst version, o_VersionSource = snd version,
      o_Substrate = ''baremetal, '' @ str (field (ap_spec p) ''maintenanceEndpoint'') '''',
      o_ConsoleArg = str (field (ap_spec p) ''consoleArg'') '''', o_DisableKexec = False, o_Network = ap_network p,
      o_ClusterNetwork = None, o_Hostname = '''', o_Registries = ap_mirrors p, o_ConfigPatches = ap_patches p,
      o_KubernetesVersion = Str m [''spec'', ''kubernetesVersion''], o_Join = ap_join p, o_StoppedMembers = []\<rparr>"

text \<open>The version, from the file or from the node, with where it comes from.\<close>

definition node_version ::
  "string \<Rightarrow> string \<Rightarrow> ('w \<Rightarrow> (client_error + string) \<times> 'w) \<Rightarrow> ('w run, verb_error, string \<times> string) effect" where
  "node_version declared source ask =
     (if declared \<noteq> '''' then give (declared, ''spec.baremetal.talosVersion'')
      else then_do (fails_as (V_failed \<circ> F_client) (hook (Wait_for ''version'') ask)) (\<lambda>v. give (v, source)))"

definition require :: "('e \<Rightarrow> verb_error) \<Rightarrow> 'e option \<Rightarrow> ('s, verb_error, unit) effect" where
  "require f r = (case r of Some err \<Rightarrow> refuse (f err) | None \<Rightarrow> give ())"

text \<open>The pre-flight of a node that is still in maintenance mode.\<close>

definition maintenance_preflight ::
  "('c, 'w) up_env \<Rightarrow> 'w node_lists \<Rightarrow> adopt_plan \<Rightarrow> ('w run, verb_error, string \<times> string) effect" where
  "maintenance_preflight ue nl p =
     then_do (fails_as (\<lambda>err. V_unreachable err (kernelCmdlineHint (ap_network p)))
       (hook (Wait_for ''maintenance'') (WaitMaintenance (ue_api ue) (ap_endpoint p) adoptMaintenanceTimeout))) (\<lambda>_.
     then_do (fails_as (V_failed \<circ> F_client) (hook (Wait_for ''disks'') (ListDisks (ue_api ue) (nl_disks nl) (ap_endpoint p)))) (\<lambda>disks.
     then_do (require V_disk (RequireDisk disks (ap_systemDisk p) ''install target'')) (\<lambda>_.
     then_do (if ap_dataSerial p \<noteq> ''''
              then require V_disk (RequireDisk disks \<lparr>Serial = ap_dataSerial p, WWID = '''', DevPath = ''''\<rparr> ''data disk'')
              else give ()) (\<lambda>_.
     then_do (case ap_network p of
                None \<Rightarrow> give ()
              | Some net \<Rightarrow>
                  then_do (fails_as (V_failed \<circ> F_client) (hook (Wait_for ''links'') (ListLinks (ue_api ue) (nl_links nl) (ap_endpoint p)))) (\<lambda>links.
                  require V_link (RequireLink links (HardwareAddr net)))) (\<lambda>_.
     node_version (str (field (ap_spec p) ''talosVersion'') '''') ''the node's maintenance API'' (NodeVersion (ue_api ue) (ap_endpoint p)))))))"

definition make_state_dir :: "env \<Rightarrow> string \<Rightarrow> ((hostw \<times> 'n) run, verb_error, unit) effect" where
  "make_state_dir e dir s =
     (case mkdir_all e (fst (r_world s)) dir of
        (Some err, w1) \<Rightarrow> (Inl (V_state_dir err), s\<lparr>r_world := (w1, snd (r_world s))\<rparr>)
      | (None, w1) \<Rightarrow> (Inr (), s\<lparr>r_world := (w1, snd (r_world s))\<rparr>))"

text \<open>After the checks of the file.\<close>

definition adopt_run ::
  "env \<Rightarrow> ('c, hostw \<times> 'n) up_env \<Rightarrow> (hostw \<times> 'n) node_lists \<Rightarrow> obj \<Rightarrow> adopt_plan \<Rightarrow> ((hostw \<times> 'n) run, verb_error, unit) effect" where
  "adopt_run e ue nl m p =
     then_do (make_state_dir e (dir_of e m)) (\<lambda>_.
     then_do (fails_as V_failed (ReadTalosconfig ue (dir_of e m))) (\<lambda>found.
     then_do (case found of
                Some talosconfig \<Rightarrow>
                  node_version (str (field (ap_spec p) ''talosVersion'') '''') ''the node's authenticated API''
                    (InstalledNodeVersion (ue_api ue) talosconfig (baremetalInstalledEndpoint m) NodeVersionTimeout)
              | None \<Rightarrow> maintenance_preflight ue nl p) (\<lambda>version.
     fails_as V_up (Up (ue\<lparr>ue_boot := (\<lambda>v. (Inr 0, v))\<rparr>) (adopt_options e m p version)))))"

definition adoptMachine ::
  "env \<Rightarrow> 'n join_ctx \<Rightarrow> ('c, hostw \<times> 'n) up_env \<Rightarrow> (hostw \<times> 'n) node_lists \<Rightarrow> string \<Rightarrow> ((hostw \<times> 'n) run, verb_error, unit) effect" where
  "adoptMachine e jc ue nl path s =
     (case readMachine (host_fs e (run_host s)) (e_unmarshal e) path of
        Inl err \<Rightarrow> (Inl (V_read err), s)
      | Inr m \<Rightarrow>
          (case adopt_plan_of e jc (run_host s) m of
             Inl err \<Rightarrow> (Inl err, s)
           | Inr p \<Rightarrow> adopt_run e ue nl m p s))"

subsection \<open>reconfigure\<close>

definition baremetal_reconfigure :: "env \<Rightarrow> 'n join_ctx \<Rightarrow> hostw \<Rightarrow> obj \<Rightarrow> obj \<Rightarrow> verb_error + ReconfigureOptions" where
  "baremetal_reconfigure e jc w m spec =
     and_then (map_error V_block (baremetalNetwork m)) (\<lambda>network.
     and_then (map_error V_up (installedEndpoint (baremetalTalosEndpoint m) network)) (\<lambda>(installedAddr, installed).
     and_then (map_error V_join (joinOptions jc e w m)) (\<lambda>jo.
     let systemDisk = \<lparr>Serial = str (field spec ''systemDiskSerial'') '''', WWID = str (field spec ''systemDiskWWID'') '''', DevPath = ''''\<rparr> in
     case Validate systemDisk ''install target'' of
       Some err \<Rightarrow> Inl (V_disk err)
     | None \<Rightarrow>
         Inr \<lparr>rc_ClusterName = GetName m, rc_StateDir = dir_of e m, rc_TalosEndpoint = installed,
              rc_KubeEndpoint = (case jo of Some j \<Rightarrow> j_ClusterEndpoint j | None \<Rightarrow> baremetalKubeEndpoint m),
              rc_APIAddress = installedAddr, rc_SystemDisk = systemDisk, rc_DataDiskSerial = str (field spec ''dataDiskSerial'') '''',
              rc_EphemeralMaxSize = str (field spec ''ephemeralMaxSize'') '''', rc_ConsoleArg = str (field spec ''consoleArg'') '''',
              rc_DisableKexec = False, rc_Network = network, rc_ClusterNetwork = None, rc_Hostname = '''',
              rc_Registries = [], rc_ConfigPatches = []\<rparr>)))"

definition vm_reconfigure :: "env \<Rightarrow> obj \<Rightarrow> verb_error + ReconfigureOptions" where
  "vm_reconfigure e m =
     and_then (map_error V_detect (e_detect e)) (\<lambda>host.
     and_then (map_error V_up (apiAddress (talosEndpoint m))) (\<lambda>a.
     and_then (map_error V_site (nodeIdentity (e_sha256 e) (e_pod e) (e_svc e) m)) (\<lambda>(cn, hostname).
     Inr \<lparr>rc_ClusterName = GetName m, rc_StateDir = dir_of e m, rc_TalosEndpoint = talosEndpoint m, rc_KubeEndpoint = kubeEndpoint m,
          rc_APIAddress = a, rc_SystemDisk = \<lparr>Serial = DiskSerialSystem, WWID = '''', DevPath = ''''\<rparr>,
          rc_DataDiskSerial = dataDiskSerial (nested_map m [''spec'']), rc_EphemeralMaxSize = '''', rc_ConsoleArg = ConsoleArg host,
          rc_DisableKexec = disables_kexec host, rc_Network = None, rc_ClusterNetwork = cn, rc_Hostname = hostname,
          rc_Registries = [], rc_ConfigPatches = []\<rparr>)))"

definition reconfigureOptions :: "env \<Rightarrow> 'n join_ctx \<Rightarrow> hostw \<Rightarrow> obj \<Rightarrow> verb_error + ReconfigureOptions" where
  "reconfigureOptions e jc w m =
     and_then (case specBaremetal m of
                 (Some spec, True) \<Rightarrow> baremetal_reconfigure e jc w m spec
               | (None, True) \<Rightarrow> Inl (V_not_a_block (GetName m))
               | _ \<Rightarrow> vm_reconfigure e m) (\<lambda>opts.
     and_then (map_error V_mirrors (registryMirrors (host_fs e w) m)) (\<lambda>mirrors.
     and_then (map_error V_patches (configPatches m)) (\<lambda>patches.
     Inr (opts\<lparr>rc_Registries := mirrors, rc_ConfigPatches := patches\<rparr>))))"

text \<open>A manifest that matches the running node is not a failure.\<close>

definition reconfigureMachine ::
  "env \<Rightarrow> 'n join_ctx \<Rightarrow> ('c, hostw \<times> 'n) up_env \<Rightarrow> ('c, 'i, 't, 'k, 'p) generator \<Rightarrow> string
    \<Rightarrow> ((hostw \<times> 'n) run, verb_error, unit) effect" where
  "reconfigureMachine e jc ue g path s =
     (case readMachine (host_fs e (run_host s)) (e_unmarshal e) path of
        Inl err \<Rightarrow> (Inl (V_read err), s)
      | Inr m \<Rightarrow>
          (case reconfigureOptions e jc (run_host s) m of
             Inl err \<Rightarrow> (Inl err, s)
           | Inr opts \<Rightarrow>
               (case Reconfigure ue g opts s of
                  (Inr _, s1) \<Rightarrow> (Inr (), s1)
                | (Inl Nothing_to_apply, s1) \<Rightarrow> (Inr (), s1)
                | (Inl err, s1) \<Rightarrow> (Inl (V_reconfigure err), s1))))"

subsection \<open>A joiner is configured from its owner\<close>

lemma vmJoinOptions_named:
  "vmJoinOptions jc e w m n = (Inr jo, n1) \<Longrightarrow> jo = None \<longleftrightarrow> nested_string m [''spec'', ''joins''] = ''''"
  by (auto simp: vmJoinOptions_def Let_def split: if_splits sum.splits prod.splits option.splits)

lemma upOptions_ok:
  assumes "upOptions e jc mc w m n = (Inr opts, n1)"
  shows "\<exists>f jo stopped. vm_facts_of e mc w m = Inr f \<and> vmJoinOptions jc e w m n = (Inr jo, n1) \<and> opts = vm_options e m f jo stopped
    \<and> (jo = None \<longrightarrow> stoppedMembers e w m = Inr stopped)"
  using assms by (auto simp: upOptions_def result_simps split: sum.splits prod.splits option.splits)

lemma owner_endpoint_given:
  assumes "ReadClusterEndpoint fs url dir = Inr ep" "url '''' = Some ('''', '''')"
  shows "ep \<noteq> ''''"
  using assms by (auto simp: ReadClusterEndpoint_def Let_def split: option.splits if_splits)

text \<open>The generations that would not use the secrets or the endpoint of the cluster that is joined.\<close>

definition foreign :: "JoinOptions \<Rightarrow> event set" where
  "foreign j = {ev. \<exists>inp. ev = Generate inp \<and> (in_SecretsBundle inp \<noteq> j_SecretsBundle j \<or> in_Endpoint inp \<noteq> j_ClusterEndpoint j)}"

lemma Up_joins_owner:
  assumes "o_Join opts = Some j" "j_ClusterEndpoint j \<noteq> ''''"
  shows "keeps (clean_since l0 (range Bootstrap \<union> {Install_storage} \<union> foreign j)) (Up e opts)"
proof -
  have "Generate (config_input e opts a) \<notin> foreign j" for a
    using assms by (simp add: foreign_def config_input_def controlPlaneEndpoint_def)
  then show ?thesis unfolding up_parts Let_def by (auto simp: assms(1) foreign_def intro!: keeping split: option.split)
qed

text \<open>
  C9. A VM that joins is configured from its owner: whatever a bring-up of a machine with \<^verbatim>\<open>spec.joins\<close>
  does, and however it ends, it never bootstraps etcd or installs a StorageClass, and every config it
  generates is generated from the secrets bundle and for the endpoint that the state directory of the
  named machine holds.
\<close>

theorem bringUp_joins_owner:
  assumes "nested_string m [''spec'', ''joins''] \<noteq> ''''" "jc_url jc '''' = Some ('''', '''')"
    and "bringUp e jc ue m state status s = (r, s')"
  shows "\<exists>l. r_log s' = r_log s @ l \<and> (\<forall>ep. Bootstrap ep \<notin> set l) \<and> Install_storage \<notin> set l
    \<and> (\<forall>inp. Generate inp \<in> set l \<longrightarrow> (\<exists>owner machines.
         siteMachines (site_view_of e (run_host s)) (e_stateRoot e) (site_of m) (dir_of e m) = Inr machines
         \<and> owner \<in> set machines \<and> GetName (fst owner) = nested_string m [''spec'', ''joins'']
         \<and> r_files s (path_join [snd owner, ''secrets.yaml'']) = Some (in_SecretsBundle inp)
         \<and> ReadClusterEndpoint (host_fs e (run_host s)) (jc_url jc) (snd owner) = Inr (in_Endpoint inp)))"
proof -
  obtain ro n1 where up: "upOptions e jc (ue_machinery ue) (run_host s) m (snd (r_world s)) = (ro, n1)" by fastforce
  show ?thesis
  proof (cases ro)
    case (Inl err)
    with assms(3) up show ?thesis by (auto simp: bringUp_def)
  next
    case (Inr opts)
    from upOptions_ok [OF up [unfolded Inr]] obtain f jo stopped where opts: "vmJoinOptions jc e (run_host s) m (snd (r_world s)) = (Inr jo, n1)"
      "opts = vm_options e m f jo stopped" by blast
    then obtain j where j: "jo = Some j" using vmJoinOptions_named [OF opts(1)] assms(1) by (cases jo) auto
    from vmJoinOptions_ok [OF opts(1) [unfolded j]] obtain owner machines where
      owner: "siteMachines (site_view_of e (run_host s)) (e_stateRoot e) (site_of m) (dir_of e m) = Inr machines"
        "owner \<in> set machines" "GetName (fst owner) = nested_string m [''spec'', ''joins'']"
        "hw_files (run_host s) (path_join [snd owner, ''secrets.yaml'']) = Some (j_SecretsBundle j)"
        "ReadClusterEndpoint (host_fs e (run_host s)) (jc_url jc) (snd owner) = Inr (j_ClusterEndpoint j)"
      by (elim exE conjE) blast
    let ?s = "s\<lparr>r_world := (fst (r_world s), n1)\<rparr>"
    obtain r1 where run: "Up (ue\<lparr>ue_boot := vm_boot e m state status\<rparr>) opts ?s = (r1, s')"
      using assms(3) up Inr by (auto simp: bringUp_def fails_as_def split: prod.splits)
    have "o_Join opts = Some j" using opts(2) j by (simp add: vm_options_def Let_def)
    from keepsD [OF Up_joins_owner [OF this owner_endpoint_given [OF owner(5) assms(2)]] clean_since_start run]
    obtain l where l: "r_log s' = r_log s @ l" "set l \<inter> (range Bootstrap \<union> {Install_storage} \<union> foreign j) = {}"
      by (auto simp: clean_since_def)
    have "in_SecretsBundle inp = j_SecretsBundle j \<and> in_Endpoint inp = j_ClusterEndpoint j" if "Generate inp \<in> set l" for inp
      using l(2) that by (auto simp: foreign_def)
    with l owner show ?thesis by (intro exI [of _ l]) (auto simp: run_host_def)
  qed
qed

subsection \<open>A machine is surveyed before it is overwritten\<close>

text \<open>The node listed its disks, the one to install on is among them and may be written, and the same holds of the data disk and the interface.\<close>

definition surveyed :: "('c, 'w) up_env \<Rightarrow> 'w node_lists \<Rightarrow> adopt_plan \<Rightarrow> bool" where
  "surveyed ue nl p =
     ((\<exists>w1 w2 disks. ListDisks (ue_api ue) (nl_disks nl) (ap_endpoint p) w1 = (Inr disks, w2)
        \<and> RequireDisk disks (ap_systemDisk p) ''install target'' = None
        \<and> (ap_dataSerial p \<noteq> '''' \<longrightarrow> RequireDisk disks \<lparr>Serial = ap_dataSerial p, WWID = '''', DevPath = ''''\<rparr> ''data disk'' = None))
      \<and> (\<forall>net. ap_network p = Some net \<longrightarrow>
           (\<exists>w1 w2 links. ListLinks (ue_api ue) (nl_links nl) (ap_endpoint p) w1 = (Inr links, w2) \<and> RequireLink links (HardwareAddr net) = None)))"

lemma require_ok: "require f r s = (Inr x, s') \<longleftrightarrow> r = None \<and> s' = s"
  by (auto simp: require_def give_def refuse_def split: option.splits)

lemma hook_answered: "hook ev f s = (Inr x, s') \<Longrightarrow> \<exists>w. f (r_world s) = (Inr x, w)"
  by (auto simp: hook_def split: prod.splits)

lemma keeps_require [keeping]: "keeps P (require f r)"
  by (simp add: require_def keeps_refuse keeps_give split: option.split)

lemma then_ok: "then_do m f s = (Inr x, s') \<longleftrightarrow> (\<exists>y s1. m s = (Inr y, s1) \<and> f y s1 = (Inr x, s'))"
  by (auto simp: then_do_eq)

lemma preflight_surveys:
  assumes "maintenance_preflight ue nl p s = (Inr v, s')"
  shows "surveyed ue nl p"
proof -
  let ?survey = "\<lambda>net. then_do (fails_as (V_failed \<circ> F_client) (hook (Wait_for ''links'') (ListLinks (ue_api ue) (nl_links nl) (ap_endpoint p)))) (\<lambda>links.
                  require V_link (RequireLink links (HardwareAddr net)))"
  from assms [unfolded maintenance_preflight_def then_ok [of "fails_as _ _"] fails_as_eq_ok] obtain s1 s2 disks where
    disks: "hook (Wait_for ''disks'') (ListDisks (ue_api ue) (nl_disks nl) (ap_endpoint p)) s1 = (Inr disks, s2)"
    and rest: "then_do (require V_disk (RequireDisk disks (ap_systemDisk p) ''install target'')) (\<lambda>_.
     then_do (if ap_dataSerial p \<noteq> ''''
              then require V_disk (RequireDisk disks \<lparr>Serial = ap_dataSerial p, WWID = '''', DevPath = ''''\<rparr> ''data disk'')
              else give ()) (\<lambda>_.
     then_do (case ap_network p of None \<Rightarrow> give () | Some net \<Rightarrow> ?survey net) (\<lambda>_.
     node_version (str (field (ap_spec p) ''talosVersion'') '''') ''the node's maintenance API'' (NodeVersion (ue_api ue) (ap_endpoint p))))) s2 = (Inr v, s')"
    by (elim exE conjE) blast
  from rest obtain s3 where "RequireDisk disks (ap_systemDisk p) ''install target'' = None"
    "ap_dataSerial p \<noteq> '''' \<longrightarrow> RequireDisk disks \<lparr>Serial = ap_dataSerial p, WWID = '''', DevPath = ''''\<rparr> ''data disk'' = None"
    and links: "\<exists>u s4. (case ap_network p of None \<Rightarrow> give () | Some net \<Rightarrow> ?survey net) s3 = (Inr u, s4)"
    unfolding then_ok require_ok by (auto simp: require_ok give_def split: if_splits)
  moreover obtain w2 where "ListDisks (ue_api ue) (nl_disks nl) (ap_endpoint p) (r_world s1) = (Inr disks, w2)"
    using hook_answered [OF disks] by blast
  moreover have "\<exists>w1 w2 links. ListLinks (ue_api ue) (nl_links nl) (ap_endpoint p) w1 = (Inr links, w2) \<and> RequireLink links (HardwareAddr net) = None"
    if "ap_network p = Some net" for net
  proof -
    from links that obtain s5 u where "hook (Wait_for ''links'') (ListLinks (ue_api ue) (nl_links nl) (ap_endpoint p)) s3 = (Inr u, s5)"
      "RequireLink u (HardwareAddr net) = None" by (auto simp: then_ok fails_as_eq_ok require_ok)
    with hook_answered [OF this(1)] show ?thesis by blast
  qed
  ultimately show ?thesis unfolding surveyed_def by blast
qed

lemma preflight_asks: "keeps (clean_since l0 (- range Wait_for)) (maintenance_preflight ue nl p)"
  unfolding maintenance_preflight_def node_version_def by (auto intro!: keeping split: option.split)

lemma make_state_dir_quiet: "make_state_dir e d s = (r, s') \<Longrightarrow> r_log s' = r_log s \<and> r_files s' = r_files s"
  by (auto simp: make_state_dir_def split: prod.splits option.splits)

text \<open>
  C11. A machine is surveyed before it is overwritten. On a machine without a talosconfig, when \<^verbatim>\<open>adopt\<close>
  goes beyond asking (to any step of a bring-up, a write or an apply), the file had passed every check and
  the node itself had listed the disk to install on, the data disk if one is named, and the interface of the static
  address if one is declared.
\<close>

theorem adopt_surveys_first:
  assumes "adoptMachine e jc ue nl path s = (r, s')" "readMachine (host_fs e (run_host s)) (e_unmarshal e) path = Inr m"
    and "r_files s (path_join [dir_of e m, ''talosconfig'']) = None"
    and "r_log s' = r_log s @ l" "ev \<in> set l" "ev \<notin> range Wait_for"
  shows "\<exists>p. adopt_plan_of e jc (run_host s) m = Inr p \<and> surveyed ue nl p"
proof -
  from assms(1,2,4,5) obtain p where p: "adopt_plan_of e jc (run_host s) m = Inr p" "adopt_run e ue nl m p s = (r, s')"
    by (cases "adopt_plan_of e jc (run_host s) m") (auto simp: adoptMachine_def)
  obtain r1 s1 where dir: "make_state_dir e (dir_of e m) s = (r1, s1)" by fastforce
  note quiet = make_state_dir_quiet [OF dir]
  have unclean: "\<not> clean_since (r_log s) (- range Wait_for) s'" using assms(4-6) by (auto simp: clean_since_def)
  have "clean_since (r_log s) (- range Wait_for) s1" using quiet by (simp add: clean_since_def)
  then have start: "clean_since (r_log s) (- range Wait_for) s1" "s' \<noteq> s1" using unclean by auto
  have read: "ReadTalosconfig ue (dir_of e m) s1 = (Inr None, s1)"
    using p(2) dir start(2) quiet assms(3)
    by (auto simp: adopt_run_def effect_eqs ReadTalosconfig_def Let_def then_do_def fails_as_def split: sum.splits if_splits)
  obtain v s2 where pre: "maintenance_preflight ue nl p s1 = (v, s2)" by fastforce
  have "s' \<noteq> s2" using keepsD [OF preflight_asks start(1) pre] unclean by auto
  then have "\<exists>x. v = Inr x"
    using p(2) dir read pre start(2) by (cases v; cases r1) (auto simp: adopt_run_def then_do_def fails_as_def)
  then show ?thesis using pre preflight_surveys p(1) by blast
qed

text \<open>
  C23. Running \<^verbatim>\<open>adopt\<close> again resumes: on a machine that has a talosconfig it never asks the maintenance
  system anything, which an installed node does not serve, generates and applies no config, and
  leaves the talosconfig as it is.
\<close>

theorem adopt_resumes:
  assumes "adoptMachine e jc ue nl path s = (r, s')" "readMachine (host_fs e (run_host s)) (e_unmarshal e) path = Inr m"
    and "r_files s (path_join [dir_of e m, ''talosconfig'']) = Some tc"
    and "state_path (dir_of e m)" "\<forall>as. set (ue_order ue as) = set as"
  shows "clean_since (r_log s) (installs \<union> Wait_for ` {''maintenance'', ''disks'', ''links''}) s'
    \<and> r_files s' (path_join [dir_of e m, ''talosconfig'']) = Some tc"
proof -
  let ?F = "[path_join [dir_of e m, ''talosconfig''] \<mapsto> tc]"
  let ?P = "safe_since (r_log s) reinstalls ?F :: (hostw \<times> 'a) run \<Rightarrow> bool"
  have start: "?P s" using assms(3) by (simp add: safe_since_def clean_since_start holds_files_def)
  have dir: "keeps ?P (make_state_dir e (dir_of e m))"
    unfolding keeps_def by (rule triple_both) (auto dest!: make_state_dir_quiet simp: safe_since_def clean_since_def holds_files_def)
  have up: "keeps ?P (Up (ue\<lparr>ue_boot := b\<rparr>) (adopt_options e m p v))" for b p v
    using assms(4,5) by (intro Up_resumes_safely) (auto simp: adopt_options_def)
  have version: "keeps ?P (node_version d src ask)" for d src ask
    unfolding node_version_def by (auto intro!: keeping simp: not_reinstalls)
  have read: "triple ?P (fails_as V_failed (ReadTalosconfig ue (dir_of e m))) (\<lambda>found s1. found = Some tc \<and> ?P s1) ?P"
    by (rule triple_fails_as) (auto intro!: tripleI simp: ReadTalosconfig_def Let_def safe_since_def holds_files_def split: if_splits)
  have rest: "triple (\<lambda>s1. found = Some tc \<and> ?P s1)
      (then_do (case found of
                Some talosconfig \<Rightarrow>
                  node_version (str (field (ap_spec p) ''talosVersion'') '''') ''the node's authenticated API''
                    (InstalledNodeVersion (ue_api ue) talosconfig (baremetalInstalledEndpoint m) NodeVersionTimeout)
              | None \<Rightarrow> maintenance_preflight ue nl p) (\<lambda>version.
     fails_as V_up (Up (ue\<lparr>ue_boot := (\<lambda>v. (Inr 0, v))\<rparr>) (adopt_options e m p version)))) (\<lambda>_. ?P) ?P" for found p
  proof (cases "found = Some tc")
    case True
    then show ?thesis unfolding True option.case simp_thms keeps_def [symmetric] by (intro keeps_then version keeps_fails_as up)
  qed (simp add: triple_def)
  have run: "keeps ?P (adopt_run e ue nl m p)" for p
    unfolding adopt_run_def keeps_def by (rule triple_then [OF dir [unfolded keeps_def] triple_then [OF read rest]])
  have "?P s'"
  proof (cases "adopt_plan_of e jc (run_host s) m")
    case (Inl err)
    with assms(1,2) start show ?thesis by (simp add: adoptMachine_def)
  next
    case (Inr p)
    with assms(1,2) have "adopt_run e ue nl m p s = (r, s')" by (simp add: adoptMachine_def)
    with run [of p] start show ?thesis by (rule keepsD)
  qed
  then show ?thesis by (simp add: safe_since_def holds_files_def reinstalls_def)
qed

subsection \<open>A reconfigure repeats the bring-up\<close>

lemma vm_facts_ok:
  assumes "vm_facts_of e mc w m = Inr f"
  shows "e_detect e = Inr (vf_host f) \<and> registryMirrors (host_fs e w) m = Inr (vf_mirrors f) \<and> configPatches m = Inr (vf_patches f)
    \<and> nodeIdentity (e_sha256 e) (e_pod e) (e_svc e) m = Inr (vf_net f, vf_hostname f)"
  using assms by (auto simp: vm_facts_of_def result_simps split: option.splits)

lemma joiner_on_network:
  assumes "vmJoinOptions jc e w m n = (Inr (Some jo), n1)" "nodeIdentity (e_sha256 e) (e_pod e) (e_svc e) m = Inr (cn, hn)"
  shows "cn \<noteq> None"
proof -
  from vmJoinOptions_ok [OF assms(1)] obtain c where "specClusterNetwork (e_pod e) (e_svc e) m = Inr (Some c)" by (elim exE conjE) blast
  with assms(2) show ?thesis by (auto simp: nodeIdentity_def Let_def)
qed

lemma reconfigureOptions_vm:
  assumes "upOptions e jc mc w m n = (Inr opts, n1)" "\<not> isBaremetal m" "up_checks ue opts = Inr (a, installed)"
    and "str (field (nested_map m [''spec'']) ''installDisk'') '''' = ''''"
  shows "reconfigureOptions e jc w m = Inr (reconfigure_of opts a installed)"
proof -
  from upOptions_ok [OF assms(1)] obtain f jo stopped where f: "vm_facts_of e mc w m = Inr f" "vmJoinOptions jc e w m n = (Inr jo, n1)"
    and opts: "opts = vm_options e m f jo stopped" by blast
  note facts = vm_facts_ok [OF f(1)]
  have ends: "apiAddress (talosEndpoint m) = Inr a \<and> installed = talosEndpoint m"
    using assms(3) by (auto simp: up_checks_def opts vm_options_def Let_def installedEndpoint_def result_simps split: if_splits)
  have "jo = None" if "vf_net f = None"
  proof (rule ccontr)
    assume "jo \<noteq> None"
    then obtain j where "jo = Some j" by blast
    with joiner_on_network f(2) facts that show False by metis
  qed
  then have "rc_KubeEndpoint (reconfigure_of opts a installed) = kubeEndpoint m"
    by (simp add: reconfigure_of_def opts vm_options_def Let_def split: option.split)
  moreover have "snd (specBaremetal m) = False" using assms(2) by (simp add: isBaremetal_def)
  then have "specBaremetal m = (None, False)" by (auto simp: specBaremetal_def split: option.splits val.splits)
  ultimately show ?thesis
    using facts ends assms(4)
    by (simp add: reconfigureOptions_def vm_reconfigure_def reconfigure_of_def opts vm_options_def specSystemDisk_def Let_def)
qed

lemma reconfigureOptions_baremetal:
  assumes "adopt_plan_of e jc w m = Inr p" "up_checks ue (adopt_options e m p v) = Inr (a, installed)"
  shows "reconfigureOptions e jc w m = Inr (reconfigure_of (adopt_options e m p v) a installed)"
proof -
  from assms(1) obtain spec where spec: "specBaremetal m = (Some spec, True)"
    by (auto simp: adopt_plan_of_def refuseWrongSubstrate_def isBaremetal_def Let_def prod_eq_iff split: option.splits if_splits)
  have p: "baremetalNetwork m = Inr (ap_network p)" "joinOptions jc e w m = Inr (ap_join p)" "registryMirrors (host_fs e w) m = Inr (ap_mirrors p)"
    "configPatches m = Inr (ap_patches p)" "Validate (ap_systemDisk p) ''install target'' = None" "ap_endpoint p = baremetalTalosEndpoint m"
    "ap_spec p = spec" "ap_dataSerial p = str (field spec ''dataDiskSerial'') ''''" "ap_ephemeral p = str (field spec ''ephemeralMaxSize'') ''''"
    "ap_systemDisk p = \<lparr>Serial = str (field spec ''systemDiskSerial'') '''', WWID = str (field spec ''systemDiskWWID'') '''', DevPath = ''''\<rparr>"
    using assms(1) spec by (auto simp: adopt_plan_of_def Let_def result_simps split: option.splits if_splits)
  have "installedEndpoint (baremetalTalosEndpoint m) (ap_network p) = Inr (a, installed)"
    using assms(2) p(6) by (auto simp: up_checks_def adopt_options_def result_simps split: if_splits option.splits prod.splits)
  with p spec show ?thesis
    by (simp add: reconfigureOptions_def baremetal_reconfigure_def reconfigure_of_def adopt_options_def Let_def split: option.split)
qed

text \<open>
  C13. Reconfiguring a machine whose file has not been edited repeats its bring-up, where the two verbs
  read the file alike: the machine is an adopted one or a VM without \<^verbatim>\<open>spec.installDisk\<close>, the file pins no
  \<^verbatim>\<open>kubernetesVersion\<close> and no \<^verbatim>\<open>installerImage\<close>, the bring-up passed its checks, the control plane endpoint is an https URL
  with a host that neither begins nor ends with blank space, a joiner knows its owner's endpoint, and on
  a cluster network the endpoint the bring-up recorded is on file and readable. Then what \<^verbatim>\<open>reconfigure\<close>
  generates from is what the bring-up generated from, with the version the node reports and the secrets on file.
\<close>

theorem reconfigure_repeats_bringup:
  assumes "upOptions e jc mc w m n = (Inr opts, n1) \<and> \<not> isBaremetal m \<and> str (field (nested_map m [''spec'']) ''installDisk'') '''' = ''''
      \<or> (\<exists>p. adopt_plan_of e jc w m = Inr p \<and> opts = adopt_options e m p v)"
    and "up_checks ue opts = Inr (a, installed)"
    and "o_KubernetesVersion opts = ''''" "o_InstallerImage opts = ''''" "\<forall>j. o_Join opts = Some j \<longrightarrow> j_ClusterEndpoint j \<noteq> ''''"
    and "o_ClusterNetwork opts \<noteq> None \<longrightarrow>
      files (path_join [o_StateDir opts, ''cluster-endpoint'']) =
        map_of (config_artifacts opts (in_Endpoint (config_input ue opts a)) gen) ''cluster-endpoint''
      \<and> \<not> ue_read_fails ue (path_join [o_StateDir opts, ''cluster-endpoint''])"
    and "\<exists>h. ue_url ue (in_Endpoint (config_input ue opts a)) = Some (''https'', h) \<and> h \<noteq> ''''"
      "visible (hd (in_Endpoint (config_input ue opts a)))" "visible (last (in_Endpoint (config_input ue opts a)))"
      "in_Endpoint (config_input ue opts a) \<noteq> ''''"
  shows "\<exists>ro. reconfigureOptions e jc w m = Inr ro \<and>
    reconfigureInput ue files ro version sb = Inr ((config_input ue opts a)\<lparr>in_TalosVersion := version, in_SecretsBundle := sb\<rparr>)"
proof -
  have "reconfigureOptions e jc w m = Inr (reconfigure_of opts a installed)"
    using assms(1)
  proof
    assume "upOptions e jc mc w m n = (Inr opts, n1) \<and> \<not> isBaremetal m \<and> str (field (nested_map m [''spec'']) ''installDisk'') '''' = ''''"
    then show ?thesis by (elim conjE) (rule reconfigureOptions_vm [OF _ _ assms(2)])
  next
    assume "\<exists>p. adopt_plan_of e jc w m = Inr p \<and> opts = adopt_options e m p v"
    then obtain p where "adopt_plan_of e jc w m = Inr p" "opts = adopt_options e m p v" by blast
    then show ?thesis using reconfigureOptions_baremetal [OF _ assms(2) [unfolded \<open>opts = adopt_options e m p v\<close>]] by simp
  qed
  moreover have "reconfigureInput ue files (reconfigure_of opts a installed) version sb =
      Inr ((config_input ue opts a)\<lparr>in_TalosVersion := version, in_SecretsBundle := sb\<rparr>)"
    by (rule reconfigureInput_of_Up [where gen = gen]) (fact assms)+
  ultimately show ?thesis by blast
qed

subsection \<open>A bench, for the witnesses\<close>

definition bench_api :: "(hostw \<times> nat) talos_api" where
  "bench_api = \<lparr>tl_clock = \<lparr>c_now = (\<lambda>_. 0), c_cancelled = (\<lambda>_. False), c_parent = None, c_select = (\<lambda>_ v. (False, v)), c_done = (\<lambda>_ v. v)\<rparr>,
     tl_new = (\<lambda>_ _. None), tl_parse = (\<lambda>_. True), tl_version = (\<lambda>_ _ _ v. (Inr [''v1.14.1''], v)), tl_stage = (\<lambda>_ _ _ v. (Inr ''running'', v)),
     tl_apply = (\<lambda>_ _ _ _ v. (None, v)), tl_bootstrap = (\<lambda>_ _ _ v. (None, v)), tl_kubeconfig = (\<lambda>_ _ _ v. (Inr '''', v)),
     kb_parse = (\<lambda>_. True), kb_new = (\<lambda>_. None), kb_nodes = (\<lambda>_ _ v. (Inr [], v)), kb_load = (\<lambda>_. None), kb_write = (\<lambda>_. None)\<rparr>"

definition bench_up :: "(nat, hostw \<times> nat) up_env" where
  "bench_up = \<lparr>ue_hooks = realHooks bench_api lab_generator (\<lambda>_ v. (Inr (), v)), ue_api = bench_api,
     ue_machinery = (g_machinery lab_generator)\<lparr>ParseContract := \<lambda>_. None\<rparr>, ue_boot = (\<lambda>v. (Inr 0, v)),
     ue_read_fails = (\<lambda>_. False), ue_write_fails = (\<lambda>_. None), ue_order = id, ue_url = (\<lambda>_. Some (''https'', ''h''))\<rparr>"

definition bench_machine :: obj where
  "bench_machine = [(''metadata'', VMap [(''name'', VStr ''m''), (''uid'', VStr ''u'')]),
     (''spec'', VMap [(''site'', VStr ''lab''), (''baremetal'', VMap [(''maintenanceEndpoint'', VStr ''h''),
        (''systemDiskSerial'', VStr ''S1''), (''talosVersion'', VStr ''v1.14.1'')])])]"

definition bench_env :: env where
  "bench_env = quiet_env\<lparr>e_unmarshal := (\<lambda>b. if b = ''M'' then Some bench_machine else None)\<rparr>"

definition bench_lists :: "(hostw \<times> nat) node_lists" where
  "bench_lists = \<lparr>nl_disks = (\<lambda>_ _ v. (Inr [(''sda'', nvme)], v)), nl_links = (\<lambda>_ _ v. (Inr [], v))\<rparr>"

definition bench_start :: "(string \<rightharpoonup> bytes) \<Rightarrow> (hostw \<times> nat) run" where
  "bench_start files = \<lparr>r_world = (running_host, 0), r_files = files(''/m.yaml'' \<mapsto> ''M''), r_log = []\<rparr>"

definition bench_plan :: adopt_plan where
  "bench_plan = \<lparr>ap_spec = [(''maintenanceEndpoint'', VStr ''h''), (''systemDiskSerial'', VStr ''S1''), (''talosVersion'', VStr ''v1.14.1'')],
     ap_endpoint = ''h:50000'', ap_network = None, ap_join = None, ap_mirrors = [], ap_patches = [],
     ap_systemDisk = \<lparr>Serial = ''S1'', WWID = '''', DevPath = ''''\<rparr>, ap_dataSerial = '''', ap_ephemeral = ''''\<rparr>"

lemma bench_read: "readMachine (host_fs bench_env (run_host (bench_start files))) (e_unmarshal bench_env) ''/m.yaml'' = Inr bench_machine"
proof -
  have "GetUID bench_machine \<noteq> []" by (simp add: bench_machine_def GetUID_def nested_string_def)
  then show ?thesis by (simp add: readMachine_def host_fs_def read_file_def bench_env_def quiet_env_def run_host_def bench_start_def)
qed

lemma bench_dir: "dir_of bench_env bench_machine = ''/s/lab/u''"
  by (simp add: dir_of_def machine_dir_def bench_env_def quiet_env_def bench_machine_def nested_string_def GetUID_def path_eval)

lemma bench_endpoint: "baremetalTalosEndpoint bench_machine = ''h:50000''" "baremetalKubeEndpoint bench_machine = ''https://h:6443''"
  by (simp_all add: baremetalTalosEndpoint_def baremetalKubeEndpoint_def baremetalInstalledAddr_def baremetalNetwork_def baremetalFields_def
      specBaremetal_def bench_machine_def field_def str_def talosAPIGuestPort_def kubeAPIGuestPort_def itoa_def dec_eval)

lemma bench_unpinned: "Str bench_machine [''spec'', ''kubernetesVersion''] = ''''"
  by (simp add: bench_machine_def Str_def nested_string_def)

lemma bench_planned: "adopt_plan_of bench_env jc w bench_machine = Inr bench_plan"
proof -
  have "baremetalNetwork bench_machine = Inr None" "joinOptions jc bench_env w bench_machine = Inr None"
    "registryMirrors (host_fs bench_env w) bench_machine = Inr []" "configPatches bench_machine = Inr []"
    by (simp_all add: baremetalNetwork_def joinOptions_def baremetalFields_def specBaremetal_def bench_machine_def field_def str_def
        registryMirrors_def configPatches_def nestedSlice_def)
  moreover have "specBaremetal bench_machine = (Some (ap_spec bench_plan), True)" by (simp add: specBaremetal_def bench_machine_def bench_plan_def)
  ultimately show ?thesis
    by (simp add: adopt_plan_of_def refuseWrongSubstrate_def isBaremetal_def bench_endpoint bench_plan_def field_def str_def CheckNetwork_def Validate_def Let_def)
qed

lemma bench_checks: "up_checks (ue\<lparr>ue_boot := b\<rparr>) (adopt_options bench_env bench_machine bench_plan v) = Inr (''h'', ''h:50000'')"
proof -
  have "SplitHostPort ''h:50000'' = Some (''h'', ''50000'')" using SplitHostPort_plain [of "''h''" "''50000''"] by simp
  then show ?thesis
    by (simp add: up_checks_def adopt_options_def bench_endpoint bench_plan_def apiAddress_def installedEndpoint_def CheckNetwork_def)
qed

text \<open>A VM without a network of its own, reached through its forwards.\<close>

definition yard_vm :: obj where
  "yard_vm = [(''metadata'', VMap [(''name'', VStr ''m''), (''uid'', VStr ''u'')]), (''spec'', VMap [(''site'', VStr ''lab''), (''image'', VStr ''talos.iso''),
     (''hostForwards'', VList [VMap [(''hostPort'', VInt 50000), (''guestPort'', VInt 50000)], VMap [(''hostPort'', VInt 6443), (''guestPort'', VInt 6443)]])])]"

definition yard_host :: hostw where
  "yard_host = \<lparr>hw_files = [''/i/talos.iso'' \<mapsto> ''iso''], hw_dirs = [''/s''], hw_procs = Map.empty, hw_cancelled = False\<rparr>"

definition yard_facts :: vm_facts where
  "yard_facts = \<lparr>vf_image = ''/i/talos.iso'', vf_host = lab_platform, vf_mirrors = [], vf_patches = [], vf_net = None, vf_hostname = '''', vf_version = ''''\<rparr>"

lemma yard_site: "siteMachines (site_view_of quiet_env yard_host) (e_stateRoot quiet_env) ''lab'' d = Inr []"
  by (simp add: siteMachines_def site_view_of_def yard_host_def quiet_env_def below_def has_prefix_def path_join_def
      clean_def clean_comps_def)

lemma yard_spec: "nested_string yard_vm [''spec'', ''site''] = ''lab''" "specClusterNetwork p s yard_vm = Inr None"
  "nested_string yard_vm [''spec'', ''hostname''] = ''''" "nested_string yard_vm [''spec'', ''joins''] = ''''" "\<not> isBaremetal yard_vm"
  "registryMirrors fs yard_vm = Inr []" "configPatches yard_vm = Inr []"
  by (simp_all add: nested_string_def specClusterNetwork_def yard_vm_def isBaremetal_iff registryMirrors_def configPatches_def nestedSlice_def)

lemma yard_unset: "k \<in> {''installDisk'', ''installerImage'', ''kubernetesVersion''} \<Longrightarrow> str (field (nested_map yard_vm [''spec'']) k) '''' = ''''"
  by (auto simp: nested_map_def yard_vm_def field_def str_def)

lemma yard_endpoints: "talosEndpoint yard_vm = ''127.0.0.1:50000''" "kubeEndpoint yard_vm = ''https://127.0.0.1:6443''"
  by (simp_all add: talosEndpoint_def kubeEndpoint_def yard_vm_def hostForward_def nestedSlice_def as_map_def field_def str_def toInt_def talosAPIGuestPort_def kubeAPIGuestPort_def
      defaultHostAddr_def itoa_def dec_eval)

lemma yard_facts_of: "vm_facts_of quiet_env mc yard_host yard_vm = Inr yard_facts"
proof -
  have "resolveImage quiet_env yard_host (nested_map yard_vm [''spec'']) = Inr ''/i/talos.iso''"
    by (simp add: resolveImage_def nested_map_def yard_vm_def field_def str_def is_abs_def has_prefix_def path_join_def clean_def clean_comps_def quiet_env_def
      stat_def yard_host_def Let_def)
  moreover have "InspectImageVersion (read_file quiet_env yard_host ''/i/talos.iso'') = Some ''''"
    by (simp add: InspectImageVersion_def read_file_def yard_host_def quiet_env_def read_pvd_def read_at_def sectorSize_def)
  moreover have "checkSite (site_view_of quiet_env yard_host) (e_stateRoot quiet_env) (e_pod quiet_env) (e_svc quiet_env) yard_vm = None"
    using yard_site by (simp add: checkSite_def yard_spec)
  moreover have "e_detect quiet_env = Inr lab_platform" by (simp add: quiet_env_def)
  ultimately show ?thesis by (simp add: vm_facts_of_def yard_spec nodeIdentity_def CheckNodeIdentity_def yard_facts_def)
qed

lemma yard_options: "upOptions quiet_env jc mc yard_host yard_vm n = (Inr (vm_options quiet_env yard_vm yard_facts None []), n)"
proof -
  have "joinersOf quiet_env yard_host yard_vm = Inr []"
    using yard_site by (simp add: joinersOf_def site_of_def yard_spec)
  then have "stoppedMembers quiet_env yard_host yard_vm = Inr []"
    by (simp add: stoppedMembers_def allJoinersOf_def search.simps [of _ _ "[yard_vm]"] search.simps [of _ _ "[]"])
  then show ?thesis by (simp add: upOptions_def yard_facts_of vmJoinOptions_def yard_spec)
qed

lemma yard_checks: "up_checks ue (vm_options quiet_env yard_vm yard_facts None []) = Inr (''127.0.0.1'', ''127.0.0.1:50000'')"
proof -
  have "SplitHostPort ''127.0.0.1:50000'' = Some (''127.0.0.1'', ''50000'')" using SplitHostPort_plain [of "''127.0.0.1''" "''50000''"] by simp
  then show ?thesis
    by (simp add: up_checks_def vm_options_def Let_def yard_endpoints yard_facts_def apiAddress_def installedEndpoint_def CheckNetwork_def)
qed

text \<open>The adopted machine of the bench and the VM of the yard.\<close>

theorem reconfigure_repeats_bringup_witness:
  "(\<exists>ro. reconfigureOptions bench_env duo_ctx running_host bench_machine = Inr ro \<and>
    reconfigureInput bench_up Map.empty ro ''v1.14.2'' ''s'' =
      Inr ((config_input bench_up (adopt_options bench_env bench_machine bench_plan ('''', '''')) ''h'')\<lparr>in_TalosVersion := ''v1.14.2'', in_SecretsBundle := ''s''\<rparr>))
  \<and> (\<exists>ro. reconfigureOptions quiet_env duo_ctx yard_host yard_vm = Inr ro \<and>
    reconfigureInput bench_up Map.empty ro ''v1.14.2'' ''s'' =
      Inr ((config_input bench_up (vm_options quiet_env yard_vm yard_facts None []) ''127.0.0.1'')\<lparr>in_TalosVersion := ''v1.14.2'', in_SecretsBundle := ''s''\<rparr>))"
proof (rule conjI; rule reconfigure_repeats_bringup [where gen = lab_gen and mc = "ue_machinery bench_up" and n = 0 and ?n1.0 = 0 and v = "('''', '''')"])
  let ?o = "adopt_options bench_env bench_machine bench_plan ('''', '''')" and ?y = "vm_options quiet_env yard_vm yard_facts None []"
  show "upOptions bench_env duo_ctx (ue_machinery bench_up) running_host bench_machine 0 = (Inr ?o, 0) \<and> \<not> isBaremetal bench_machine
      \<and> str (field (nested_map bench_machine [''spec'']) ''installDisk'') '''' = ''''
    \<or> (\<exists>p. adopt_plan_of bench_env duo_ctx running_host bench_machine = Inr p \<and> ?o = adopt_options bench_env bench_machine p ('''', ''''))"
    using bench_planned by blast
  show "up_checks bench_up ?o = Inr (''h'', ''h:50000'')" using bench_checks [where ue = bench_up and b = "ue_boot bench_up"] by simp
  show "upOptions quiet_env duo_ctx (ue_machinery bench_up) yard_host yard_vm 0 = (Inr ?y, 0) \<and> \<not> isBaremetal yard_vm
      \<and> str (field (nested_map yard_vm [''spec'']) ''installDisk'') '''' = ''''
    \<or> (\<exists>p. adopt_plan_of quiet_env duo_ctx yard_host yard_vm = Inr p \<and> ?y = adopt_options quiet_env yard_vm p ('''', ''''))"
    by (simp add: yard_options yard_spec yard_unset)
  show "up_checks bench_up ?y = Inr (''127.0.0.1'', ''127.0.0.1:50000'')" by (rule yard_checks)
qed (simp_all add: adopt_options_def bench_plan_def config_input_def controlPlaneEndpoint_def bench_endpoint bench_up_def visible_def bench_unpinned
    vm_options_def Let_def yard_facts_def yard_endpoints yard_unset)

theorem bringUp_joins_owner_witness:
  "\<exists>r s' l. bringUp duo_env duo_ctx bench_up duo_joiner Absent [] \<lparr>r_world = (duo_host, 0), r_files = hw_files duo_host, r_log = []\<rparr> = (r, s')
    \<and> r_log s' = l \<and> (\<forall>ep. Bootstrap ep \<notin> set l)"
proof -
  let ?s = "\<lparr>r_world = (duo_host, 0), r_files = hw_files duo_host, r_log = []\<rparr>"
  obtain r s' where run: "bringUp duo_env duo_ctx bench_up duo_joiner Absent [] ?s = (r, s')" by fastforce
  have "nested_string duo_joiner [''spec'', ''joins''] \<noteq> ''''" "jc_url duo_ctx '''' = Some ('''', '''')"
    by (simp_all add: duo_joiner_def duo_ctx_def)
  from bringUp_joins_owner [OF this run] obtain l where "r_log s' = l" "\<forall>ep. Bootstrap ep \<notin> set l" by auto
  with run show ?thesis by blast
qed

lemma bench_waits: "WaitMaintenance bench_api ''h:50000'' t v = (Inr (), v)"
  by (simp add: WaitMaintenance_def MaintenanceClient_def run_wait_def waitFor_def waitFor_loop.simps version_probe_def bench_api_def)

lemma bench_preflight:
  "maintenance_preflight bench_up bench_lists bench_plan s =
     (Inr (''v1.14.1'', ''spec.baremetal.talosVersion''), s\<lparr>r_log := r_log s @ [Wait_for ''maintenance'', Wait_for ''disks'']\<rparr>)"
proof -
  have "ListDisks bench_api (nl_disks bench_lists) ''h:50000'' v = (Inr [to_disk (''sda'', nvme)], v)" for v
    by (simp add: ListDisks_def MaintenanceClient_def bench_lists_def bench_api_def toDisks_def)
  moreover have "RequireDisk [to_disk (''sda'', nvme)] (ap_systemDisk bench_plan) ''install target'' = None"
    by (simp add: RequireDisk_def IsZero_def Validate_def Match_def to_disk_def nvme_def bench_plan_def)
  moreover have "ue_api bench_up = bench_api" by (simp add: bench_up_def)
  ultimately show ?thesis
    using bench_waits
    by (simp add: maintenance_preflight_def then_do_def fails_as_def hook_def require_def give_def node_version_def bench_plan_def field_def str_def)
qed

lemma bench_adopts:
  "\<exists>r s'. adoptMachine bench_env duo_ctx bench_up bench_lists ''/m.yaml'' (bench_start Map.empty) = (r, s')
    \<and> r_log s' = [Wait_for ''maintenance'', Wait_for ''disks'', Step ''platform'', Step ''version'', Step ''version guard'']"
proof -
  let ?s = "bench_start Map.empty"
  have plan: "adopt_plan_of bench_env duo_ctx (run_host ?s) bench_machine = Inr bench_plan" by (rule bench_planned)
  have dir: "make_state_dir bench_env ''/s/lab/u'' ?s = (Inr (), ?s)"
    by (simp add: make_state_dir_def mkdir_all_def bench_env_def quiet_env_def bench_start_def running_host_def)
  have read: "ReadTalosconfig bench_up ''/s/lab/u'' ?s = (Inr None, ?s)"
    by (simp add: ReadTalosconfig_def bench_up_def bench_start_def path_eval)
  let ?s1 = "?s\<lparr>r_log := [Wait_for ''maintenance'', Wait_for ''disks'']\<rparr>"
  let ?o = "adopt_options bench_env bench_machine bench_plan (''v1.14.1'', ''spec.baremetal.talosVersion'')"
  have pre: "maintenance_preflight bench_up bench_lists bench_plan ?s = (Inr (''v1.14.1'', ''spec.baremetal.talosVersion''), ?s1)"
    by (simp add: bench_preflight) (simp add: bench_start_def)
  have "\<exists>err. CheckVersion (ue_machinery bench_up) ''v1.14.1'' = (False, Some err) \<or> CheckVersion (ue_machinery bench_up) ''v1.14.1'' = (False, None)"
    by (simp add: CheckVersion_def checkVersion_def bench_up_def)
  then have up: "\<exists>err s'. Up (bench_up\<lparr>ue_boot := (\<lambda>v. (Inr 0, v))\<rparr>) ?o ?s1 = (Inl err, s')
      \<and> r_log s' = [Wait_for ''maintenance'', Wait_for ''disks'', Step ''platform'', Step ''version'', Step ''version guard'']"
    by (auto simp: Up_def up_prologue_def then_do_def lift_result_def bench_checks step_def version_guard_def refuse_def)
      (simp_all add: adopt_options_def then_do_def step_def refuse_def split: prod.split option.split)
  then obtain err s' where up: "Up (bench_up\<lparr>ue_boot := (\<lambda>v. (Inr 0, v))\<rparr>) ?o ?s1 = (Inl err, s')"
    "r_log s' = [Wait_for ''maintenance'', Wait_for ''disks'', Step ''platform'', Step ''version'', Step ''version guard'']" by blast
  show ?thesis
    using up by (simp add: adoptMachine_def bench_read plan adopt_run_def bench_dir then_do_def dir fails_as_def read pre)
qed

theorem adopt_surveys_first_witness: "\<exists>p. adopt_plan_of bench_env duo_ctx (run_host (bench_start Map.empty)) bench_machine = Inr p \<and> surveyed bench_up bench_lists p"
proof -
  obtain r s' where run: "adoptMachine bench_env duo_ctx bench_up bench_lists ''/m.yaml'' (bench_start Map.empty) = (r, s')"
    "r_log s' = [Wait_for ''maintenance'', Wait_for ''disks'', Step ''platform'', Step ''version'', Step ''version guard'']"
    using bench_adopts by blast
  have "r_files (bench_start Map.empty) (path_join [dir_of bench_env bench_machine, ''talosconfig'']) = None"
    unfolding bench_dir by (simp add: bench_start_def path_eval)
  from adopt_surveys_first [OF run(1) bench_read this, of "r_log s'" "Step ''platform''"] run(2) show ?thesis
    by (auto simp: bench_start_def)
qed

theorem adopt_resumes_witness:
  "\<exists>r s'. adoptMachine bench_env duo_ctx bench_up bench_lists ''/m.yaml'' (bench_start [''/s/lab/u/talosconfig'' \<mapsto> ''t'']) = (r, s')
    \<and> r_files s' ''/s/lab/u/talosconfig'' = Some ''t''"
proof -
  let ?s = "bench_start [''/s/lab/u/talosconfig'' \<mapsto> ''t'']"
  obtain r s' where run: "adoptMachine bench_env duo_ctx bench_up bench_lists ''/m.yaml'' ?s = (r, s')" by fastforce
  have path: "path_join [dir_of bench_env bench_machine, ''talosconfig''] = ''/s/lab/u/talosconfig''"
    unfolding bench_dir by (simp add: path_eval)
  have tc: "r_files ?s (path_join [dir_of bench_env bench_machine, ''talosconfig'']) = Some ''t''"
    unfolding path by (simp add: bench_start_def)
  have "state_path (dir_of bench_env bench_machine)"
    unfolding bench_dir state_path_def by (rule exI [of _ "[''s'', ''lab'', ''u'']"]) (simp add: abs_path_def plain_comp_def)
  from adopt_resumes [OF run bench_read tc this] run path show ?thesis by (auto simp: bench_up_def)
qed

end
