(* ===== verification/Tinq_Lifecycle.thy ===== *)
theory Tinq_Lifecycle
  imports Tinq_Verbs Cluster_Membership Tinq_Driver
begin

section \<open>Destroying a member\<close>

text \<open>
  \<^verbatim>\<open>destroyMachine\<close> and \<^verbatim>\<open>leaveCluster\<close> of \<^verbatim>\<open>cmd/tinq/lifecycle.go\<close> and \<^verbatim>\<open>standalone\<close> of
  \<^verbatim>\<open>cmd/tinq/main.go\<close>. The state of a verb is the host, the world its cluster calls act on, and a log
  of what happened to which machine; the lines printed are not modelled.
\<close>

record 'n memberOps =
  op_leave :: "bytes \<Rightarrow> string \<Rightarrow> 'n \<Rightarrow> client_error option \<times> 'n"
  op_remove :: "bytes \<Rightarrow> string \<Rightarrow> string \<Rightarrow> 'n \<Rightarrow> client_error option \<times> 'n"
  op_deleteNode :: "bytes \<Rightarrow> string \<Rightarrow> 'n \<Rightarrow> client_error option \<times> 'n"

definition as_error :: "(client_error + unit) \<times> 'n \<Rightarrow> client_error option \<times> 'n" where
  "as_error r = (case r of (Inl err, n) \<Rightarrow> (Some err, n) | (Inr _, n) \<Rightarrow> (None, n))"

definition real_ops :: "'n talos_api \<Rightarrow> 'n membership_api \<Rightarrow> 'n memberOps" where
  "real_ops api mb =
     \<lparr>op_leave = (\<lambda>tc ep n. as_error (LeaveEtcd api mb tc ep n)),
      op_remove = (\<lambda>tc via addr n. as_error (RemoveEtcdMember api mb tc via addr n)),
      op_deleteNode = (\<lambda>kc addr n. as_error (DeleteNodeAt api mb kc addr n))\<rparr>"

record destroyOptions =
  withJoiners :: bool
  force :: bool

text \<open>
  \<open>Left_etcd\<close>: the member left or was removed. \<open>Never_member\<close>: it has no talosconfig, so it never was one.
  \<open>Left_in_etcd\<close>: it could not be removed and \<^verbatim>\<open>--force\<close> went on.
\<close>

datatype life_event =
  Left_etcd string
| Never_member string
| Left_in_etcd string
| Node_deleted string
| Node_stale string
| Destroyed string
| Halted string
| Created string

record 'n life =
  lf_host :: hostw
  lf_net :: 'n
  lf_log :: "life_event list"

datatype leave_failure = Leave_failed client_error | No_running_member State

datatype life_error =
  L_read read_error
| L_substrate substrate_error
| L_observe string
| L_members clusternet_error
| L_endless
| L_unreadable string
| L_network clusternet_error
| L_no_network string
| L_not_removed string leave_failure
| L_has_joiners string "string list"
| L_destroy string destroy_error
| L_stop stop_error
| L_create create_error
| L_up verb_error

subsection \<open>Leaving\<close>

definition leave_attempt ::
  "env \<Rightarrow> 'n memberOps \<Rightarrow> obj \<Rightarrow> hostw \<Rightarrow> State \<Rightarrow> bytes \<Rightarrow> string \<Rightarrow> 'n \<Rightarrow> leave_failure option \<times> 'n" where
  "leave_attempt e ops m w state talosconfig a n =
     (if state = Running then
        (case op_leave ops talosconfig (talosEndpoint m) n of (err, n1) \<Rightarrow> (map_option Leave_failed err, n1))
      else case runningMember e w m of
          None \<Rightarrow> (Some (No_running_member state), n)
        | Some via \<Rightarrow> (case op_remove ops talosconfig via a n of (err, n1) \<Rightarrow> (map_option Leave_failed err, n1)))"

text \<open>The Kubernetes node goes too, when it can: a failure is only reported.\<close>

definition delete_node :: "env \<Rightarrow> 'n memberOps \<Rightarrow> obj \<Rightarrow> string \<Rightarrow> 'n life \<Rightarrow> 'n life" where
  "delete_node e ops m a s =
     (case read_file e (lf_host s) (path_join [dir_of e m, ''kubeconfig'']) of
        None \<Rightarrow> s\<lparr>lf_log := lf_log s @ [Node_stale (GetName m)]\<rparr>
      | Some kubeconfig \<Rightarrow>
          (case op_deleteNode ops kubeconfig a (lf_net s) of
             (None, n1) \<Rightarrow> s\<lparr>lf_net := n1, lf_log := lf_log s @ [Node_deleted (GetName m)]\<rparr>
           | (Some err, n1) \<Rightarrow> s\<lparr>lf_net := n1, lf_log := lf_log s @ [Node_stale (GetName m)]\<rparr>))"

definition leaveCluster :: "env \<Rightarrow> 'n memberOps \<Rightarrow> obj \<Rightarrow> bool \<Rightarrow> ('n life, life_error, unit) effect" where
  "leaveCluster e ops m forced s =
     (let w = lf_host s; p = path_join [dir_of e m, ''talosconfig''] in
      if e_io_fail e p then (Inl (L_unreadable p), s)
      else case hw_files w p of
          None \<Rightarrow> (Inr (), s\<lparr>lf_log := lf_log s @ [Never_member (GetName m)]\<rparr>)
        | Some talosconfig \<Rightarrow>
          (case specClusterNetwork (e_pod e) (e_svc e) m of
             Inl err \<Rightarrow> (Inl (L_network err), s)
           | Inr None \<Rightarrow> (Inl (L_no_network (GetName m)), s)
           | Inr (Some cn) \<Rightarrow>
             (case Observe_hvf e m w of
                Inl err \<Rightarrow> (Inl (L_observe err), s)
              | Inr (state, _) \<Rightarrow>
                (case leave_attempt e ops m w state talosconfig (addr_string (Addr cn)) (lf_net s) of
                   (Some failure, n1) \<Rightarrow>
                     if \<not> forced then (Inl (L_not_removed (GetName m) failure), s\<lparr>lf_net := n1\<rparr>)
                     else (Inr (), s\<lparr>lf_net := n1, lf_log := lf_log s @ [Left_in_etcd (GetName m)]\<rparr>)
                 | (None, n1) \<Rightarrow>
                     (Inr (), delete_node e ops m (addr_string (Addr cn))
                        (s\<lparr>lf_net := n1, lf_log := lf_log s @ [Left_etcd (GetName m)]\<rparr>))))))"

subsection \<open>The verbs\<close>

definition destroy_one :: "env \<Rightarrow> obj \<Rightarrow> ('n life, life_error, unit) effect" where
  "destroy_one e m s =
     (case Destroy_hvf e m (lf_host s) of
        (Some err, w1, _) \<Rightarrow> (Inl (L_destroy (GetName m) err), s\<lparr>lf_host := w1\<rparr>)
      | (None, w1, _) \<Rightarrow> (Inr (), s\<lparr>lf_host := w1, lf_log := lf_log s @ [Destroyed (GetName m)]\<rparr>))"

definition stop_one :: "env \<Rightarrow> obj \<Rightarrow> ('n life, life_error, unit) effect" where
  "stop_one e m s =
     (case Stop_hvf e m (lf_host s) of
        (Some err, w1, _) \<Rightarrow> (Inl (L_stop err), s\<lparr>lf_host := w1\<rparr>)
      | (None, w1, _) \<Rightarrow> (Inr (), s\<lparr>lf_host := w1, lf_log := lf_log s @ [Halted (GetName m)]\<rparr>))"

definition create_one :: "env \<Rightarrow> obj \<Rightarrow> ('n life, life_error, unit) effect" where
  "create_one e m s =
     (case Create_hvf e m (lf_host s) of
        (Some err, w1) \<Rightarrow> (Inl (L_create err), s\<lparr>lf_host := w1\<rparr>)
      | (None, w1) \<Rightarrow>
          (case Observe_hvf e m w1 of
             Inl err \<Rightarrow> (Inl (L_observe err), s\<lparr>lf_host := w1\<rparr>)
           | Inr _ \<Rightarrow> (Inr (), s\<lparr>lf_host := w1, lf_log := lf_log s @ [Created (GetName m)]\<rparr>)))"

text \<open>
  A run on the state of a verb: it starts from the files of the host, and what it changed of them goes
  over what booting left of them. \<open>standalone\<close> takes \<open>bringUp\<close> as an argument, so that what is shown of
  the other verbs does not depend on it.
\<close>

definition on_run :: "((hostw \<times> 'n) run, verb_error, unit) effect \<Rightarrow> ('n life, life_error, unit) effect" where
  "on_run act s =
     (case act \<lparr>r_world = (lf_host s, lf_net s), r_files = hw_files (lf_host s), r_log = []\<rparr> of
        (r, s1) \<Rightarrow>
          (map_error L_up r,
           s\<lparr>lf_host := (fst (r_world s1))\<lparr>hw_files := (\<lambda>p.
                if r_files s1 p \<noteq> hw_files (lf_host s) p then r_files s1 p else hw_files (fst (r_world s1)) p)\<rparr>,
             lf_net := snd (r_world s1)\<rparr>))"

definition up_verb ::
  "env \<Rightarrow> 'n join_ctx \<Rightarrow> ('c, hostw \<times> 'n) up_env \<Rightarrow> obj \<Rightarrow> State \<Rightarrow> obj \<Rightarrow> ('n life, life_error, unit) effect" where
  "up_verb e jc ue m state status = on_run (bringUp e jc ue m state status)"

definition standalone ::
  "env \<Rightarrow> (obj \<Rightarrow> State \<Rightarrow> obj \<Rightarrow> ('n life, life_error, unit) effect) \<Rightarrow> string \<Rightarrow> string \<Rightarrow> ('n life, life_error, unit) effect" where
  "standalone e bring path verb s =
     (case readMachine (host_fs e (lf_host s)) (e_unmarshal e) path of
        Inl err \<Rightarrow> (Inl (L_read err), s)
      | Inr m \<Rightarrow>
        (case refuseWrongSubstrate m verb of
           Some err \<Rightarrow> (Inl (L_substrate err), s)
         | None \<Rightarrow>
           (case Observe_hvf e m (lf_host s) of
              Inl err \<Rightarrow> (Inl (L_observe err), s)
            | Inr (state, status) \<Rightarrow>
                if verb = ''destroy'' then (if state = Absent then give () else destroy_one e m) s
                else if verb = ''stop'' then (if state \<noteq> Running then give () else stop_one e m) s
                else if verb = ''up'' then bring m state status s
                else (if state = Running then give () else create_one e m) s)))"

fun take_down :: "env \<Rightarrow> 'n memberOps \<Rightarrow> bool \<Rightarrow> bool \<Rightarrow> siteMachine list \<Rightarrow> ('n life, life_error, unit) effect" where
  "take_down e ops whole forced [] = give ()"
| "take_down e ops whole forced (j # js) =
     then_do (if whole then give () else leaveCluster e ops (fst j) forced) (\<lambda>_.
     then_do (destroy_one e (fst j)) (\<lambda>_. take_down e ops whole forced js))"

text \<open>What becomes of the machines that joined \<open>m\<close>.\<close>

definition joiners_first :: "env \<Rightarrow> 'n memberOps \<Rightarrow> destroyOptions \<Rightarrow> obj \<Rightarrow> ('n life, life_error, unit) effect" where
  "joiners_first e ops opts m s =
     (case joinersOf e (lf_host s) m of
        Inl err \<Rightarrow> (Inl (L_members err), s)
      | Inr joiners \<Rightarrow>
          if joiners = [] then (Inr (), s)
          else if withJoiners opts then
            (case allJoinersOf e (lf_host s) m of
               None \<Rightarrow> (Inl L_endless, s)
             | Some (Inl err) \<Rightarrow> (Inl (L_members err), s)
             | Some (Inr found) \<Rightarrow> take_down e ops (joins_of m = '''') (force opts) (rev found) s)
          else if force opts then (Inr (), s)
          else (Inl (L_has_joiners (GetName m) (map mname joiners)), s))"

definition destroyMachine ::
  "env \<Rightarrow> 'n memberOps \<Rightarrow> (obj \<Rightarrow> State \<Rightarrow> obj \<Rightarrow> ('n life, life_error, unit) effect) \<Rightarrow> string \<Rightarrow> destroyOptions
    \<Rightarrow> ('n life, life_error, unit) effect" where
  "destroyMachine e ops bring path opts s =
     (case readMachine (host_fs e (lf_host s)) (e_unmarshal e) path of
        Inl err \<Rightarrow> (Inl (L_read err), s)
      | Inr m \<Rightarrow>
          if isBaremetal m then standalone e bring path ''destroy'' s
          else then_do (joiners_first e ops opts m) (\<lambda>_.
               then_do (if joins_of m \<noteq> '''' then leaveCluster e ops m (force opts) else give ()) (\<lambda>_.
               standalone e bring path ''destroy'')) s)"

subsection \<open>The verbs refine three power states\<close>

text \<open>What \<^verbatim>\<open>apply\<close>, \<^verbatim>\<open>stop\<close> and \<^verbatim>\<open>destroy\<close> promise of a machine, on the three states alone.\<close>

definition power_spec :: "string \<Rightarrow> State \<Rightarrow> State" where
  "power_spec verb state =
     (if verb = ''destroy'' then Absent
      else if verb = ''stop'' then min state Stopped
      else Running)"

definition power_log :: "string \<Rightarrow> string \<Rightarrow> State \<Rightarrow> life_event list" where
  "power_log verb name state =
     (if power_spec verb state = state then []
      else [if verb = ''destroy'' then Destroyed name else if verb = ''stop'' then Halted name else Created name])"

text \<open>
  C5. The verbs on files refine the three power states: on a host whose programs behave, a verb other
  than \<^verbatim>\<open>up\<close> that succeeds takes the state of the machine, read off its disks and processes, where the
  specification takes it, and acts exactly when the specification changes the state.
\<close>

theorem standalone_refines:
  assumes "qemu_host e" "readMachine (host_fs e (lf_host s)) (e_unmarshal e) path = Inr m" "hvf_owns e m" "verb \<noteq> ''up''"
    and "standalone e bring path verb s = (Inr (), s')"
  shows "hvf_state e m (lf_host s') = power_spec verb (hvf_state e m (lf_host s))
    \<and> lf_log s' = lf_log s @ power_log verb (GetName m) (hvf_state e m (lf_host s))"
proof -
  from assms(2,5) obtain state status where seen: "Observe_hvf e m (lf_host s) = Inr (state, status)"
    by (auto simp: standalone_def split: option.splits sum.splits)
  then have st: "state = hvf_state e m (lf_host s)" using qemu_host.observe_truth_hvf [OF assms(1,3)] by blast
  consider "verb = ''destroy''" | "verb = ''stop''" | "verb \<noteq> ''destroy''" "verb \<noteq> ''stop''" by blast
  then show ?thesis
  proof cases
    case 1
    with assms(2,5) seen have "(if state = Absent then give () else destroy_one e m) s = (Inr (), s')"
      by (auto simp: standalone_def split: option.splits)
    then show ?thesis
      using 1 st qemu_host.destroy_absent_hvf [OF assms(1,3)]
      by (auto simp: destroy_one_def give_def power_spec_def power_log_def split: prod.splits option.splits if_splits)
  next
    case 2
    with assms(2,5) seen have "(if state \<noteq> Running then give () else stop_one e m) s = (Inr (), s')"
      by (auto simp: standalone_def split: option.splits)
    then show ?thesis
      using 2 st qemu_host.stop_stopped_hvf [OF assms(1,3)]
      by (auto simp: stop_one_def give_def power_spec_def power_log_def split: prod.splits option.splits if_splits)
  next
    case 3
    with assms(2,4,5) seen have "(if state = Running then give () else create_one e m) s = (Inr (), s')"
      by (auto simp: standalone_def split: option.splits)
    then show ?thesis
      using 3 st qemu_host.create_running_hvf [OF assms(1,3)]
      by (auto simp: create_one_def give_def power_spec_def power_log_def split: prod.splits option.splits sum.splits if_splits)
  qed
qed

subsection \<open>The machine file is left alone\<close>

text \<open>Neither a signal nor the passing of time writes the file at \<open>p\<close>.\<close>

definition leaves_alone :: "env \<Rightarrow> string \<Rightarrow> bool" where
  "leaves_alone e p = ((\<forall>w pid sg. hw_files (e_signal e pid sg w) p = hw_files w p) \<and> (\<forall>w. hw_files (e_tick e w) p = hw_files w p))"

lemma waitGone_file: "leaves_alone e p \<Longrightarrow> waitGone e n pid dir w = (r, w') \<Longrightarrow> hw_files w' p = hw_files w p"
proof (induction n arbitrary: w)
  case 0
  then show ?case by (auto simp: waitGone.simps split: if_splits)
next
  case (Suc n)
  show ?case
  proof (cases "matches e w pid dir \<and> \<not> hw_cancelled w")
    case True
    with Suc.prems have "waitGone e n pid dir (e_tick e w) = (r, w')" by (simp add: waitGone.simps [of e "Suc n"])
    with Suc have "hw_files w' p = hw_files (e_tick e w) p" by blast
    with Suc.prems(1) show ?thesis by (simp add: leaves_alone_def)
  qed (use Suc.prems in \<open>auto simp: waitGone.simps [of e "Suc n"] split: if_splits\<close>)
qed

lemma halt_file: "leaves_alone e p \<Longrightarrow> halt e pid dir w = (r, w', t) \<Longrightarrow> hw_files w' p = hw_files w p"
  by (auto simp: halt_def Let_def leaves_alone_def split: if_splits prod.splits wait_result.splits
      dest!: waitGone_file [unfolded leaves_alone_def, of e p, rotated])

lemma Destroy_hvf_file:
  assumes "leaves_alone e p" "Destroy_hvf e m w = (r, w', t)"
  shows "hw_files w' p = hw_files w p \<or> hw_files w' p = None"
proof (cases "isBaremetal m")
  case True
  with assms show ?thesis by (simp add: Destroy_hvf_def)
next
  case False
  let ?dir = "dir_of e m"
  obtain w1 t1 where tpm: "destroy_swtpm e ?dir w = (w1, t1)" by fastforce
  obtain h w2 t2 where halt: "halt e (readPid e w1 ?dir) ?dir w1 = (h, w2, t2)" by (metis prod_cases3)
  have "hw_files w1 p = hw_files w p"
    using tpm assms(1) by (auto simp: destroy_swtpm_def leaves_alone_def split: option.splits prod.splits if_splits)
  moreover have "hw_files w2 p = hw_files w1 p" by (rule halt_file [OF assms(1) halt])
  moreover have "hw_files w' p = hw_files w2 p \<or> hw_files w' p = None"
    using assms(2) False tpm halt
    by (auto simp: Destroy_hvf_def destroy_def remove_all_def remove_empty_def split: if_splits)
  ultimately show ?thesis by simp
qed

definition still_names :: "env \<Rightarrow> string \<Rightarrow> obj \<Rightarrow> 'n life \<Rightarrow> bool" where
  "still_names e path m s =
     (\<forall>m'. readMachine (host_fs e (lf_host s)) (e_unmarshal e) path = Inr m' \<longrightarrow> m' = m)"

lemma still_names_step:
  assumes "still_names e path m s" "hw_files (lf_host s') path = hw_files (lf_host s) path \<or> hw_files (lf_host s') path = None"
  shows "still_names e path m s'"
  using assms by (auto simp: still_names_def readMachine_def host_fs_def read_file_def split: option.splits)

lemma leaveCluster_host: "leaveCluster e ops m forced s = (r, s') \<Longrightarrow> lf_host s' = lf_host s"
  by (auto simp: leaveCluster_def delete_node_def Let_def split: if_splits option.splits sum.splits prod.splits)

lemma still_leave: "keeps (still_names e path m) (leaveCluster e ops m' forced)"
  unfolding keeps_def by (rule tripleI) (auto dest!: leaveCluster_host intro: still_names_step)

lemma still_destroy: "leaves_alone e path \<Longrightarrow> keeps (still_names e path m) (destroy_one e m')"
  unfolding keeps_def
  by (rule tripleI)
    (auto simp: destroy_one_def split: prod.splits option.splits intro: still_names_step dest!: Destroy_hvf_file [of e path])

subsection \<open>Nobody is destroyed while etcd counts on it\<close>

definition departed :: "string \<Rightarrow> life_event list \<Rightarrow> bool" where
  "departed x l = (Left_etcd x \<in> set l \<or> Never_member x \<in> set l)"

definition departs :: "life_event list \<Rightarrow> bool" where
  "departs l = (\<forall>pre x post. l = pre @ Destroyed x # post \<longrightarrow> departed x pre)"

definition departs_since :: "life_event list \<Rightarrow> 'n life \<Rightarrow> bool" where
  "departs_since l0 s = (\<exists>l. lf_log s = l0 @ l \<and> departs l)"

definition departed_since :: "life_event list \<Rightarrow> string \<Rightarrow> 'n life \<Rightarrow> bool" where
  "departed_since l0 x s = (\<exists>l. lf_log s = l0 @ l \<and> departs l \<and> departed x l)"

lemma departs_snoc: "departs l \<Longrightarrow> (\<And>x. ev = Destroyed x \<Longrightarrow> departed x l) \<Longrightarrow> departs (l @ [ev])"
  unfolding departs_def
  by (metis append_eq_append_conv2 butlast.simps(2) butlast_append butlast_snoc last.simps last_append last_snoc list.distinct(1))

lemma departs_leave:
  "triple (departs_since l0) (leaveCluster e ops m False) (\<lambda>_. departed_since l0 (GetName m)) (departs_since l0)"
proof (rule tripleI)
  fix s x s'
  assume P: "departs_since l0 s" and run: "leaveCluster e ops m False s = (Inr x, s')"
  from P obtain l where l: "lf_log s = l0 @ l" "departs l" by (auto simp: departs_since_def)
  from run have "lf_log s' = lf_log s @ [Never_member (GetName m)]
    \<or> (\<exists>ev \<in> {Node_deleted (GetName m), Node_stale (GetName m)}. lf_log s' = lf_log s @ [Left_etcd (GetName m), ev])"
    by (auto simp: leaveCluster_def delete_node_def Let_def split: if_splits option.splits sum.splits prod.splits)
  then show "departed_since l0 (GetName m) s'"
  proof
    assume "lf_log s' = lf_log s @ [Never_member (GetName m)]"
    with l departs_snoc [OF l(2), of "Never_member (GetName m)"] show ?thesis
      unfolding departed_since_def departed_def by (intro exI [of _ "l @ [Never_member (GetName m)]"]) auto
  next
    assume "\<exists>ev \<in> {Node_deleted (GetName m), Node_stale (GetName m)}. lf_log s' = lf_log s @ [Left_etcd (GetName m), ev]"
    then obtain ev where ev: "ev \<in> {Node_deleted (GetName m), Node_stale (GetName m)}" "lf_log s' = lf_log s @ [Left_etcd (GetName m), ev]"
      by blast
    have "departs (l @ [Left_etcd (GetName m)])" by (rule departs_snoc [OF l(2)]) simp
    then have "departs ((l @ [Left_etcd (GetName m)]) @ [ev])" by (rule departs_snoc) (use ev(1) in auto)
    with ev(2) l(1) show ?thesis
      unfolding departed_since_def departed_def by (intro exI [of _ "l @ [Left_etcd (GetName m), ev]"]) auto
  qed
next
  fix s x s'
  assume P: "departs_since l0 s" and run: "leaveCluster e ops m False s = (Inl x, s')"
  from run have "lf_log s' = lf_log s"
    by (auto simp: leaveCluster_def delete_node_def Let_def split: if_splits option.splits sum.splits prod.splits)
  with P show "departs_since l0 s'" by (simp add: departs_since_def)
qed

lemma departs_destroy: "triple (departed_since l0 (GetName m)) (destroy_one e m) (\<lambda>_. departs_since l0) (departs_since l0)"
proof (rule tripleI)
  fix s x s'
  assume P: "departed_since l0 (GetName m) s" and run: "destroy_one e m s = (Inr x, s')"
  from P obtain l where l: "lf_log s = l0 @ l" "departs l" "departed (GetName m) l" by (auto simp: departed_since_def)
  from run have "lf_log s' = lf_log s @ [Destroyed (GetName m)]" by (auto simp: destroy_one_def split: prod.splits option.splits)
  moreover have "departs (l @ [Destroyed (GetName m)])" by (rule departs_snoc [OF l(2)]) (use l(3) in simp)
  ultimately show "departs_since l0 s'" using l(1) unfolding departs_since_def by (metis append.assoc)
next
  fix s x s'
  assume "departed_since l0 (GetName m) s" "destroy_one e m s = (Inl x, s')"
  then show "departs_since l0 s'"
    by (auto simp: destroy_one_def departed_since_def departs_since_def split: prod.splits option.splits)
qed

lemma departs_take_down: "keeps (departs_since l0) (take_down e ops False False js)"
proof (induction js)
  case (Cons j js)
  then show ?case
    unfolding take_down.simps if_False keeps_def
    by (intro triple_then [OF departs_leave] triple_then [OF departs_destroy])
qed (simp add: keeps_give)

lemma joiners_first_keeps:
  assumes "\<And>found. keeps P (take_down e ops (joins_of m = '''') (force opts) (rev found))"
  shows "keeps P (joiners_first e ops opts m)"
  unfolding keeps_def
  by (rule tripleI)
    (auto simp: joiners_first_def split: sum.splits if_splits option.splits dest: keepsD [OF assms])

lemma still_take_down: "leaves_alone e path \<Longrightarrow> keeps (still_names e path m) (take_down e ops whole forced js)"
  by (induction js) (auto intro!: keeping still_leave still_destroy)

text \<open>
  C8. Nobody is destroyed while etcd counts on it. Without \<^verbatim>\<open>--force\<close>, when a machine that joined a
  cluster is destroyed, alone or with those that joined through it, every machine the run destroys has
  before that left etcd, or never was a member; that holds for a run that fails half way too.
\<close>

theorem destroy_departs_first:
  assumes "readMachine (host_fs e (lf_host s)) (e_unmarshal e) path = Inr m" "joins_of m \<noteq> ''''" "\<not> isBaremetal m"
    and "\<not> force opts" "leaves_alone e path" "destroyMachine e ops bring path opts s = (r, s')"
  shows "\<exists>l. lf_log s' = lf_log s @ l \<and> (\<forall>pre x post. l = pre @ Destroyed x # post \<longrightarrow> Left_etcd x \<in> set pre \<or> Never_member x \<in> set pre)"
proof -
  let ?P = "\<lambda>s1 :: 'a life. departs_since (lf_log s) s1 \<and> still_names e path m s1"
  let ?Q = "\<lambda>s1 :: 'a life. departed_since (lf_log s) (GetName m) s1 \<and> still_names e path m s1"
  have one: "keeps ?P (joiners_first e ops opts m)"
    using assms(2,4,5) by (intro joiners_first_keeps keeps_conj) (simp_all add: departs_take_down still_take_down)
  have two: "triple ?P (leaveCluster e ops m False) (\<lambda>_. ?Q) (departs_since (lf_log s))"
    by (rule tripleI)
      (auto dest: tripleD_ok [OF departs_leave] tripleD_err [OF departs_leave] keepsD [OF still_leave])
  have three: "triple ?Q (standalone e bring path ''destroy'') (\<lambda>_. departs_since (lf_log s)) (departs_since (lf_log s))"
  proof (rule triple_both)
    fix s1 :: "'a life" and q s2
    assume Q: "?Q s1" and run: "standalone e bring path ''destroy'' s1 = (q, s2)"
    then have quiet: "departs_since (lf_log s) s1" by (auto simp: departed_since_def departs_since_def)
    have "s2 = s1 \<or> destroy_one e m s1 = (q, s2)"
      using run Q by (auto simp: standalone_def still_names_def give_def split: sum.splits option.splits prod.splits if_splits)
    then show "departs_since (lf_log s) s2"
    proof
      assume "destroy_one e m s1 = (q, s2)"
      from tripleD_both [OF departs_destroy _ this, of "lf_log s"] Q show ?thesis by simp
    qed (use quiet in simp)
  qed
  have all: "triple ?P (then_do (joiners_first e ops opts m) (\<lambda>_. then_do (leaveCluster e ops m False) (\<lambda>_. standalone e bring path ''destroy'')))
        (\<lambda>_. departs_since (lf_log s)) (departs_since (lf_log s))"
  proof (rule triple_then)
    show "triple ?P (joiners_first e ops opts m) (\<lambda>_. ?P) (departs_since (lf_log s))"
      by (rule triple_quiet [OF one]) simp
  qed (rule triple_then [OF two three])
  have start: "?P s" using assms(1) by (auto simp: departs_since_def departs_def still_names_def intro: exI [of _ "[]"])
  have run: "then_do (joiners_first e ops opts m) (\<lambda>_. then_do (leaveCluster e ops m False) (\<lambda>_. standalone e bring path ''destroy'')) s = (r, s')"
    using assms by (simp add: destroyMachine_def)
  from tripleD_both [OF all start run] have "departs_since (lf_log s) s'" .
  then show ?thesis by (simp add: departs_since_def departs_def departed_def)
qed

subsection \<open>An owner and its cluster\<close>

lemma destroy_one_ok:
  "destroy_one e m s = (Inr x, s') \<Longrightarrow> lf_log s' = lf_log s @ [Destroyed (GetName m)] \<and> lf_net s' = lf_net s"
  by (auto simp: destroy_one_def split: prod.splits option.splits)

lemma take_down_whole:
  "take_down e ops True forced js s = (Inr (), s') \<Longrightarrow> lf_log s' = lf_log s @ map (Destroyed \<circ> mname) js \<and> lf_net s' = lf_net s"
proof (induction js arbitrary: s)
  case (Cons j js)
  from Cons.prems obtain s1 where s1: "destroy_one e (fst j) s = (Inr (), s1)" "take_down e ops True forced js s1 = (Inr (), s')"
    by (auto simp: then_do_eq give_def)
  with Cons.IH [OF s1(2)] destroy_one_ok [OF s1(1)] show ?case by (simp add: mname_def)
qed (simp add: give_def)

text \<open>
  An owner is not destroyed under its joiners: without a flag the run refuses, naming them, and
  nothing on the host or in the cluster has changed.
\<close>

theorem destroy_owner_refused:
  assumes "readMachine (host_fs e (lf_host s)) (e_unmarshal e) path = Inr m" "\<not> isBaremetal m"
    and "joinersOf e (lf_host s) m = Inr joiners" "joiners \<noteq> []" "\<not> withJoiners opts" "\<not> force opts"
  shows "destroyMachine e ops bring path opts s = (Inl (L_has_joiners (GetName m) (map mname joiners)), s)"
  using assms by (simp add: destroyMachine_def joiners_first_def then_do_def)

text \<open>
  C29. A whole cluster is taken down from its leaves: a successful run with \<^verbatim>\<open>--with-joiners\<close> on the
  machine that created it destroys every machine found through it, each before the one it joined,
  the creator last if it is still there, and asks nothing of the cluster.
\<close>

theorem destroy_whole_cluster:
  assumes "readMachine (host_fs e (lf_host s)) (e_unmarshal e) path = Inr m" "\<not> isBaremetal m" "joins_of m = ''''"
    and "joinersOf e (lf_host s) m = Inr joiners" "joiners \<noteq> []" "withJoiners opts" "leaves_alone e path"
    and "destroyMachine e ops bring path opts s = (Inr (), s')"
  shows "\<exists>found ending. allJoinersOf e (lf_host s) m = Some (Inr found) \<and> distinct (map mname found)
    \<and> in_order (joinersOf e (lf_host s)) m found \<and> ending \<in> {[], [Destroyed (GetName m)]}
    \<and> lf_log s' = lf_log s @ map (Destroyed \<circ> mname) (rev found) @ ending \<and> lf_net s' = lf_net s"
proof -
  from assms obtain s1 where first: "joiners_first e ops opts m s = (Inr (), s1)"
    and last1: "standalone e bring path ''destroy'' s1 = (Inr (), s')"
    by (auto simp: destroyMachine_def then_do_eq give_def)
  from first assms(3-6) obtain found where found: "allJoinersOf e (lf_host s) m = Some (Inr found)"
    and down: "take_down e ops True (force opts) (rev found) s = (Inr (), s1)"
    by (auto simp: joiners_first_def split: option.splits sum.splits)
  have "still_names e path m s" using assms(1) by (simp add: still_names_def)
  then have names: "still_names e path m s1" using keepsD [OF still_take_down [OF assms(7)] _ down] by blast
  have "s' = s1 \<or> destroy_one e m s1 = (Inr (), s')"
    using last1 names by (auto simp: standalone_def still_names_def give_def split: sum.splits option.splits prod.splits if_splits)
  then obtain ending where "ending \<in> {[], [Destroyed (GetName m)]}" "lf_log s' = lf_log s1 @ ending" "lf_net s' = lf_net s1"
    by (auto dest: destroy_one_ok)
  moreover have "distinct (map mname found) \<and> in_order (joinersOf e (lf_host s)) m found"
    using site.search_found found by (auto simp: allJoinersOf_def)
  ultimately show ?thesis using found take_down_whole [OF down] by (intro exI [of _ found] exI [of _ ending]) simp
qed

subsection \<open>Two machines, for the witnesses\<close>

definition duo_start :: "nat life" where
  "duo_start = \<lparr>lf_host = duo_host, lf_net = 0, lf_log = []\<rparr>"

definition duo_ops :: "nat memberOps" where
  "duo_ops = \<lparr>op_leave = (\<lambda>_ _ n. (None, n)), op_remove = (\<lambda>_ _ _ n. (None, n)), op_deleteNode = (\<lambda>_ _ n. (None, n))\<rparr>"

definition no_up :: "obj \<Rightarrow> State \<Rightarrow> obj \<Rightarrow> (nat life, life_error, unit) effect" where
  "no_up m state status = give ()"

lemma duo_alone: "leaves_alone duo_env p"
  by (simp add: leaves_alone_def duo_env_def quiet_env_def)

lemma duo_read:
  "hw_files w ''/a.yaml'' = Some ''A'' \<Longrightarrow> readMachine (host_fs duo_env w) (e_unmarshal duo_env) ''/a.yaml'' = Inr duo_owner"
  "hw_files w ''/b.yaml'' = Some ''B'' \<Longrightarrow> readMachine (host_fs duo_env w) (e_unmarshal duo_env) ''/b.yaml'' = Inr duo_joiner"
proof -
  have "GetUID duo_owner \<noteq> []" "GetUID duo_joiner \<noteq> []" by (simp_all add: duo_owner_def duo_joiner_def)
  then show "hw_files w ''/a.yaml'' = Some ''A'' \<Longrightarrow> readMachine (host_fs duo_env w) (e_unmarshal duo_env) ''/a.yaml'' = Inr duo_owner"
    "hw_files w ''/b.yaml'' = Some ''B'' \<Longrightarrow> readMachine (host_fs duo_env w) (e_unmarshal duo_env) ''/b.yaml'' = Inr duo_joiner"
    by (simp_all add: readMachine_def host_fs_def read_file_def duo_env_def quiet_env_def)
qed

lemma duo_vm: "\<not> isBaremetal duo_owner" "\<not> isBaremetal duo_joiner" "joins_of duo_owner = ''''" "joins_of duo_joiner = ''a''"
  by (simp_all add: duo_owner_def duo_joiner_def joins_of_def)

theorem destroy_departs_first_witness:
  "\<exists>r s'. destroyMachine duo_env duo_ops no_up ''/b.yaml'' \<lparr>withJoiners = False, force = False\<rparr> duo_start = (r, s')
    \<and> (\<forall>pre x post. lf_log s' = pre @ Destroyed x # post \<longrightarrow> Left_etcd x \<in> set pre \<or> Never_member x \<in> set pre)"
proof -
  obtain r s' where run: "destroyMachine duo_env duo_ops no_up ''/b.yaml'' \<lparr>withJoiners = False, force = False\<rparr> duo_start = (r, s')"
    by fastforce
  have "readMachine (host_fs duo_env (lf_host duo_start)) (e_unmarshal duo_env) ''/b.yaml'' = Inr duo_joiner"
    by (rule duo_read) (simp add: duo_start_def duo_host_def)
  from destroy_departs_first [OF this _ _ _ duo_alone run] duo_vm run show ?thesis by (auto simp: duo_start_def)
qed

lemma duo_owner_file: "readMachine (host_fs duo_env (lf_host duo_start)) (e_unmarshal duo_env) ''/a.yaml'' = Inr duo_owner"
  by (rule duo_read) (simp add: duo_start_def duo_host_def)

lemma duo_start_joiners: "joinersOf duo_env (lf_host duo_start) duo_owner = Inr [(duo_joiner, ''/s/lab/b'')]"
  using duo_joiners by (simp add: duo_start_def)

theorem destroy_owner_refused_witness:
  "destroyMachine duo_env duo_ops no_up ''/a.yaml'' \<lparr>withJoiners = False, force = False\<rparr> duo_start =
     (Inl (L_has_joiners ''a'' [''b'']), duo_start)"
proof -
  have "GetName duo_owner = ''a''" "mname (duo_joiner, ''/s/lab/b'') = ''b''" by (simp_all add: duo_owner_def mname_def duo_joiner_def)
  with destroy_owner_refused [OF duo_owner_file duo_vm(1) duo_start_joiners] show ?thesis by simp
qed

lemma duo_effects:
  "e_signal duo_env pid sg w = w\<lparr>hw_procs := (hw_procs w)(pid := None)\<rparr>" "e_tick duo_env w = w"
  by (simp_all add: duo_env_def quiet_env_def)

lemma duo_waits: "waitGone duo_env n pid dir w = (r, w') \<Longrightarrow> w' = w"
  by (induction n arbitrary: r w') (auto simp: waitGone.simps [of _ 0] waitGone.simps [of _ "Suc _"] duo_effects split: if_splits)

lemma duo_halts: "halt duo_env pid dir w = (r, w', t) \<Longrightarrow> hw_cancelled w' = hw_cancelled w \<and> hw_files w' = hw_files w"
  by (auto simp: halt_def Let_def duo_effects split: if_splits prod.splits wait_result.splits dest!: duo_waits)

lemma duo_destroys:
  assumes "\<not> hw_cancelled (lf_host s)" "\<not> isBaremetal m"
  shows "\<exists>s'. destroy_one duo_env m s = (Inr (), s') \<and> (\<forall>p. \<not> below (dir_of duo_env m) p \<longrightarrow> hw_files (lf_host s') p = hw_files (lf_host s) p)
    \<and> \<not> hw_cancelled (lf_host s')"
proof -
  let ?w = "lf_host s" and ?dir = "dir_of duo_env m"
  obtain w1 t1 where tpm: "destroy_swtpm duo_env ?dir ?w = (w1, t1)" by fastforce
  obtain h w2 t2 where halt: "halt duo_env (readPid duo_env w1 ?dir) ?dir w1 = (h, w2, t2)" by (metis prod_cases3)
  have one: "\<not> hw_cancelled w1 \<and> hw_files w1 = hw_files ?w"
    using tpm assms(1) by (auto simp: destroy_swtpm_def duo_env_def quiet_env_def split: option.splits prod.splits if_splits)
  with duo_halts [OF halt] have "\<not> hw_cancelled w2 \<and> hw_files w2 = hw_files ?w" by simp
  moreover have "\<not> e_io_fail duo_env q" for q by (simp add: duo_env_def quiet_env_def)
  ultimately show ?thesis
    using assms(2) tpm halt by (simp add: destroy_one_def Destroy_hvf_def destroy_def remove_all_clear remove_empty_def)
qed

theorem destroy_whole_cluster_witness:
  "\<exists>s'. destroyMachine duo_env duo_ops no_up ''/a.yaml'' \<lparr>withJoiners = True, force = False\<rparr> duo_start = (Inr (), s')
    \<and> lf_net s' = 0"
proof -
  have "search (joinersOf duo_env duo_host) [''a''] [duo_owner] [] = Some (Inr [(duo_joiner, ''/s/lab/b'')])"
    by (simp add: search.simps duo_joiners mname_def) (simp add: duo_joiner_def)
  moreover have "GetName duo_owner = ''a''" by (simp add: duo_owner_def)
  ultimately have all: "allJoinersOf duo_env (lf_host duo_start) duo_owner = Some (Inr [(duo_joiner, ''/s/lab/b'')])"
    by (simp add: allJoinersOf_def duo_start_def)
  have "\<not> hw_cancelled (lf_host duo_start)" "\<not> below (dir_of duo_env duo_joiner) ''/a.yaml''"
    unfolding duo_dir by (simp_all add: duo_start_def duo_host_def below_def has_prefix_def)
  with duo_destroys [of duo_start duo_joiner] duo_vm obtain s1 where s1: "destroy_one duo_env duo_joiner duo_start = (Inr (), s1)"
    "hw_files (lf_host s1) ''/a.yaml'' = hw_files (lf_host duo_start) ''/a.yaml''" "\<not> hw_cancelled (lf_host s1)" by auto
  have first: "joiners_first duo_env duo_ops \<lparr>withJoiners = True, force = False\<rparr> duo_owner duo_start = (Inr (), s1)"
    using s1(1) by (simp add: joiners_first_def duo_start_joiners all duo_vm then_do_def give_def)
  have "stat duo_env (lf_host s1) p \<noteq> Stat_error" for p by (simp add: stat_def duo_env_def quiet_env_def)
  then have "\<exists>state status. Observe_hvf duo_env duo_owner (lf_host s1) = Inr (state, status)"
    by (auto simp: Observe_hvf_def Let_def duo_vm split: stat_result.splits)
  then obtain state status where seen: "Observe_hvf duo_env duo_owner (lf_host s1) = Inr (state, status)" by blast
  have "readMachine (host_fs duo_env (lf_host s1)) (e_unmarshal duo_env) ''/a.yaml'' = Inr duo_owner"
    by (rule duo_read) (simp add: s1 duo_start_def duo_host_def)
  with seen duo_destroys [OF s1(3) duo_vm(1)] obtain s' where "standalone duo_env no_up ''/a.yaml'' ''destroy'' s1 = (Inr (), s')"
    by (cases "state = Absent") (auto simp: standalone_def refuseWrongSubstrate_def duo_vm give_def)
  with first have run: "destroyMachine duo_env duo_ops no_up ''/a.yaml'' \<lparr>withJoiners = True, force = False\<rparr> duo_start = (Inr (), s')"
    by (simp add: destroyMachine_def duo_owner_file duo_vm then_do_def give_def)
  with destroy_whole_cluster [OF duo_owner_file duo_vm(1,3) duo_start_joiners _ _ duo_alone run] show ?thesis
    by (auto simp: duo_start_def)
qed

definition ideal_lab :: env where
  "ideal_lab = ideal_env\<lparr>e_unmarshal := (\<lambda>_. Some lab_vm)\<rparr>"

lemma ideal_lab_host: "qemu_host ideal_lab"
proof -
  have "swtpmSocketPath ideal_lab d = swtpmSocketPath ideal_env d" for d by (simp add: swtpmSocketPath_def ideal_lab_def)
  moreover have "e_goos ideal_lab = e_goos ideal_env" "e_qemu_img ideal_lab = e_qemu_img ideal_env" "e_swtpm ideal_lab = e_swtpm ideal_env"
    "e_qemu ideal_lab = e_qemu ideal_env" "e_signal ideal_lab = e_signal ideal_env" "e_tick ideal_lab = e_tick ideal_env"
    "e_shutdown ideal_lab = e_shutdown ideal_env" by (simp_all add: ideal_lab_def)
  ultimately show ?thesis using ideal.qemu_host_axioms unfolding qemu_host_def by simp
qed

definition lab_start :: "nat life" where
  "lab_start = \<lparr>lf_host = running_host\<lparr>hw_files := (hw_files running_host)(''/lab.yaml'' \<mapsto> '''')\<rparr>, lf_net = 0, lf_log = []\<rparr>"

theorem standalone_refines_witness:
  "\<exists>s'. standalone ideal_lab no_up ''/lab.yaml'' ''apply'' lab_start = (Inr (), s') \<and> hvf_state ideal_lab lab_vm (lf_host s') = Running"
proof -
  let ?w = "lf_host lab_start"
  have dir: "dir_of ideal_lab lab_vm = ''/s/lab/u''" using lab_dir by (simp add: dir_of_def ideal_lab_def)
  have "GetUID lab_vm \<noteq> []" by (simp add: lab_vm_def GetUID_def nested_string_def)
  then have read: "readMachine (host_fs ideal_lab ?w) (e_unmarshal ideal_lab) ''/lab.yaml'' = Inr lab_vm"
    by (simp add: readMachine_def host_fs_def read_file_def ideal_lab_def ideal_env_def quiet_env_def lab_start_def)
  have owns: "hvf_owns ideal_lab lab_vm" using lab_owns by (simp add: hvf_owns_def dir_of_def ideal_lab_def)
  have "readPid ideal_lab ?w ''/s/lab/u'' = 42"
    by (simp add: readPid_def read_file_def ideal_lab_def ideal_env_def quiet_env_def lab_start_def running_host_def path_eval
        trim_space_visible visible_def atoi_def atoi_digits_def ascii_digit_def digit_val_def)
  moreover have "matches ideal_lab ?w 42 ''/s/lab/u''"
    using running_matches by (simp add: matches_def procs_of_def ideal_lab_def ideal_env_def lab_start_def)
  moreover have "stat ideal_lab ?w (path_join [''/s/lab/u'', ''system.qcow2'']) = Present"
    by (simp add: stat_def ideal_lab_def ideal_env_def quiet_env_def lab_start_def running_host_def path_eval)
  moreover have "\<not> isBaremetal lab_vm" by (simp add: isBaremetal_iff lab_vm_def)
  ultimately have "\<exists>st. Observe_hvf ideal_lab lab_vm ?w = Inr (Running, st)" by (simp add: Observe_hvf_def dir)
  then have run: "standalone ideal_lab no_up ''/lab.yaml'' ''apply'' lab_start = (Inr (), lab_start)"
    using \<open>\<not> isBaremetal lab_vm\<close> by (auto simp: standalone_def read refuseWrongSubstrate_def give_def)
  with standalone_refines [OF ideal_lab_host read owns _ run] show ?thesis by (simp add: power_spec_def)
qed

end
