(* ===== verification/Tinq_Frame.thy ===== *)
theory Tinq_Frame
  imports Tinq_Host
begin

section \<open>What the driver's verbs leave alone\<close>

text \<open>
  A property of the host that no single action of the driver breaks is kept by \<open>Create_hvf\<close> and
  \<open>Stop_hvf\<close>, however they end. The actions are those on the files of the machine's own directory, the
  socket of its TPM, and the programs, signals and waits of the environment; the locale
  \<open>host_invariant\<close> has one assumption for each.
\<close>

definition extra_files :: "string set" where
  "extra_files = range (\<lambda>i. ''extra-'' @ dec_of_nat i @ ''.qcow2'')"

definition machine_files :: "string set" where
  "machine_files = {machineRecordName, ''system.qcow2'', ''data.qcow2'', ''tpm'', ''efivars.fd''} \<union> extra_files"

definition machine_paths :: "string \<Rightarrow> string set" where
  "machine_paths dir = insert dir ((\<lambda>x. path_join [dir, x]) ` machine_files)"

lemma extra_files_plain: "x \<in> extra_files \<Longrightarrow> plain_comp x"
  using not_digit_sep [of "CHR ''/''"] by (auto simp: extra_files_def plain_comp_def)

lemma machine_files_plain: "x \<in> machine_files \<Longrightarrow> plain_comp x"
  unfolding machine_files_def by (elim UnE extra_files_plain) (auto simp: plain_comp_def machineRecordName_def)

lemma machine_paths_mem [simp]:
  "dir \<in> machine_paths dir" "path_join [dir, machineRecordName] \<in> machine_paths dir" "path_join [dir, ''system.qcow2''] \<in> machine_paths dir"
  "path_join [dir, ''data.qcow2''] \<in> machine_paths dir" "path_join [dir, ''tpm''] \<in> machine_paths dir"
  "path_join [dir, ''efivars.fd''] \<in> machine_paths dir" "path_join [dir, ''extra-'' @ dec_of_nat i @ ''.qcow2''] \<in> machine_paths dir"
  by (auto simp: machine_paths_def machine_files_def extra_files_def)

locale host_invariant =
  fixes e :: env and dir :: string and P :: "hostw \<Rightarrow> bool"
  assumes img: "P w \<Longrightarrow> p \<in> machine_paths dir \<Longrightarrow> e_qemu_img e p sz w = (r, w') \<Longrightarrow> P w'"
    and swtpm: "P w \<Longrightarrow> e_swtpm e (swtpm_argv e dir) w = (r, w') \<Longrightarrow> P w'"
    and qemu: "P w \<Longrightarrow> bi_dir bi = dir \<Longrightarrow> e_qemu e b (qemu_argv e pf m spec bi) w = (r, w') \<Longrightarrow> P w'"
    and signal: "P w \<Longrightarrow> P (e_signal e pid sg w)"
    and tick: "P w \<Longrightarrow> P (e_tick e w)"
    and shutdown: "P w \<Longrightarrow> e_shutdown e c ep w = (r, w') \<Longrightarrow> P w'"
    and writes: "P w \<Longrightarrow> p \<in> machine_paths dir \<Longrightarrow> P (w\<lparr>hw_files := (hw_files w)(p \<mapsto> b)\<rparr>)"
    and makes: "P w \<Longrightarrow> p \<in> machine_paths dir \<Longrightarrow> P (w\<lparr>hw_dirs := p # hw_dirs w\<rparr>)"
    and unlink: "P w \<Longrightarrow> P (w\<lparr>hw_files := (hw_files w)(swtpmSocketPath e dir := None)\<rparr>)"
begin

lemma write_file_inv: "P w \<Longrightarrow> p \<in> machine_paths dir \<Longrightarrow> write_file e w p b = (r, w') \<Longrightarrow> P w'"
  using writes by (auto simp: write_file_def split: if_splits)

lemma mkdir_all_inv: "P w \<Longrightarrow> p \<in> machine_paths dir \<Longrightarrow> mkdir_all e w p = (r, w') \<Longrightarrow> P w'"
  using makes by (auto simp: mkdir_all_def split: if_splits)

lemma waitGone_inv: "P w \<Longrightarrow> waitGone e n pid d w = (r, w') \<Longrightarrow> P w'"
proof (induction n arbitrary: w)
  case 0
  then show ?case by (auto simp: waitGone.simps split: if_splits)
next
  case (Suc n)
  then show ?case using tick by (subst (asm) (2) waitGone.simps) (auto split: if_splits)
qed

lemma halt_inv: "P w \<Longrightarrow> halt e pid d w = (r, w', t) \<Longrightarrow> P w'"
  by (auto simp: halt_def Let_def split: if_splits prod.splits wait_result.splits intro: signal dest!: waitGone_inv [rotated])

lemma shutdownGuest_inv: "P w \<Longrightarrow> shutdownGuest e m w = (r, w') \<Longrightarrow> P w'"
  using shutdown by (auto simp: shutdownGuest_def split: option.splits)

lemma Stop_inv: "P w \<Longrightarrow> Stop_hvf e m w = (r, w', t) \<Longrightarrow> P w'"
  by (auto simp: Stop_hvf_def Let_def split: if_splits sum.splits prod.splits option.splits wait_result.splits
      dest!: shutdownGuest_inv [rotated] waitGone_inv [rotated] halt_inv [rotated])

lemma ensureQcow2_inv: "P w \<Longrightarrow> p \<in> machine_paths dir \<Longrightarrow> ensureQcow2 e p sz w = (r, w') \<Longrightarrow> P w'"
  by (auto simp: ensureQcow2_def split: stat_result.splits prod.splits option.splits intro: img)

lemma ensure_extra_inv: "P w \<Longrightarrow> ensure_extra e dir i szs w = (r, w') \<Longrightarrow> P w'"
proof (induction szs arbitrary: i w r)
  case (Cons sz szs)
  then show ?case
    using ensureQcow2_inv [OF _ machine_paths_mem(7), of w i sz]
    by (auto simp: Let_def split: prod.splits option.splits sum.splits)
qed simp

lemma prepare_disks_inv: "P w \<Longrightarrow> prepare_disks e spec dir w = (r, w') \<Longrightarrow> P w'"
  by (auto simp: prepare_disks_def Let_def split: prod.splits option.splits sum.splits if_splits
      dest!: ensureQcow2_inv [rotated 2] ensure_extra_inv [rotated])

lemma await_file_inv: "P w \<Longrightarrow> await_file e n p w = (r, w') \<Longrightarrow> P w'"
  by (induction n arbitrary: w) (auto split: if_splits intro: tick)

lemma ensureSWTPM_inv: "P w \<Longrightarrow> ensureSWTPM e dir w = (r, w') \<Longrightarrow> P w'"
  by (auto simp: ensureSWTPM_def Let_def split: if_splits prod.splits option.splits bool.splits
      dest!: mkdir_all_inv [rotated 2] swtpm [rotated] await_file_inv [rotated] intro: unlink)

lemma prepare_firmware_inv: "P w \<Longrightarrow> prepare_firmware e p spec dir w = (r, w') \<Longrightarrow> P w'"
  by (auto simp: prepare_firmware_def ensureEFIVars_def Let_def split: if_splits prod.splits option.splits
      dest!: write_file_inv [rotated 2])

lemma launch_inv: "P w \<Longrightarrow> bi_dir bi = dir \<Longrightarrow> launch e p m spec bi w = (r, w') \<Longrightarrow> P w'"
  by (auto simp: launch_def Let_def split: if_splits prod.splits option.splits dest: qemu)

lemma create_prepared_inv: "P w \<Longrightarrow> create_prepared e p m spec dir i w = (r, w') \<Longrightarrow> P w'"
  by (auto simp: create_prepared_def split: if_splits prod.splits option.splits sum.splits
      dest!: prepare_disks_inv [rotated] ensureSWTPM_inv [rotated] prepare_firmware_inv [rotated] launch_inv [rotated 2])

lemma create_inv: "P w \<Longrightarrow> create e m dir w = (r, w') \<Longrightarrow> P w'"
  by (auto simp: create_def writeMachineRecord_def Let_def split: prod.splits option.splits sum.splits
      dest!: mkdir_all_inv [rotated 2] write_file_inv [rotated 2] create_prepared_inv [rotated])

lemma Create_inv: "P w \<Longrightarrow> dir_of e m = dir \<Longrightarrow> Create_hvf e m w = (r, w') \<Longrightarrow> P w'"
  by (auto simp: Create_hvf_def split: if_splits prod.splits sum.splits dest: create_inv)

end

end
