(* ===== verification/Driverkit_Fleet.thy ===== *)
theory Driverkit_Fleet
  imports Driverkit
begin

section \<open>The loop over all objects, on one host\<close>

text \<open>
  \<^verbatim>\<open>Run\<close> of \<^verbatim>\<open>src/driverkit/driverkit.go\<close>: every turn lists the objects and reconciles them one after the
  other over the one external world they share, then waits for the interval or for the end of the
  context. The answers of the API server, the end of the context and what happens during the wait are
  given turn by turn. \<open>fleet_step\<close> is the life of such a system with submissions, deletions, removals and
  outside events between the reconciliations; the locale \<open>fleet_contract\<close> adds to the driver contract
  that a verb on one machine gives no other machine a disk, and carries the garbage collection of one
  object over to a fleet.
\<close>

subsection \<open>Definitions\<close>

record 'w fleet =
  fl_objs :: "unit sys list"
  fl_ext :: 'w

text \<open>An object beside a world, and back.\<close>

definition place :: "'w \<Rightarrow> 'v sys \<Rightarrow> 'w sys" where
  "place w s = \<lparr>r_obj = r_obj s, r_deleting = r_deleting s, r_finalizers = r_finalizers s, r_generation = r_generation s,
     r_status = r_status s, r_present = r_present s, ext = w\<rparr>"

lemma place_simps [simp]:
  "r_obj (place w s) = r_obj s" "r_deleting (place w s) = r_deleting s" "r_finalizers (place w s) = r_finalizers s"
  "r_generation (place w s) = r_generation s" "r_present (place w s) = r_present s" "ext (place w s) = w"
  "place (ext s) (place v s) = s"
  by (simp_all add: place_def)

record Config =
  cfg_Finalizer :: string
  cfg_Interval :: int

text \<open>
  One turn: whether the list call succeeds, the server's answer to each patch of a named object, whether
  the context ends the wait, and otherwise what the wait does to the objects and the world.
\<close>

record 'w turn =
  t_listed :: bool
  t_api :: "string \<Rightarrow> api_patch \<Rightarrow> string option"
  t_done :: bool
  t_pause :: "int \<Rightarrow> 'w fleet \<Rightarrow> 'w fleet"

definition reconcile_item ::
  "(api_patch \<Rightarrow> string option) \<Rightarrow> string \<Rightarrow> 'w driver \<Rightarrow> unit sys \<Rightarrow> 'w \<Rightarrow> rec_error option \<times> unit sys \<times> 'w" where
  "reconcile_item api f d x w = (case reconcile api f d (place w x) of (err, s) \<Rightarrow> (err, place () s, ext s))"

text \<open>The inner loop: only objects the server still has are listed. An error is logged with the name and the loop goes on.\<close>

fun reconcile_items ::
  "(string \<Rightarrow> api_patch \<Rightarrow> string option) \<Rightarrow> string \<Rightarrow> 'w driver \<Rightarrow> unit sys list \<Rightarrow> 'w
    \<Rightarrow> unit sys list \<times> 'w \<times> (string \<times> rec_error) list" where
  "reconcile_items api f d [] w = ([], w, [])"
| "reconcile_items api f d (x # xs) w =
     (if \<not> r_present x then
        (case reconcile_items api f d xs w of (ys, w1, log) \<Rightarrow> (x # ys, w1, log))
      else
        (case reconcile_item (api (GetName (r_obj x))) f d x w of
           (err, y, w1) \<Rightarrow>
             (case reconcile_items api f d xs w1 of
                (ys, w2, log) \<Rightarrow> (y # ys, w2, (case err of None \<Rightarrow> [] | Some e \<Rightarrow> [(GetName (r_obj x), e)]) @ log))))"

definition run_turn :: "Config \<Rightarrow> 'w driver \<Rightarrow> 'w turn \<Rightarrow> 'w fleet \<Rightarrow> 'w fleet" where
  "run_turn cfg d t s =
     (if \<not> t_listed t then s
      else case reconcile_items (t_api t) (cfg_Finalizer cfg) d (fl_objs s) (fl_ext s) of
          (xs, w, log) \<Rightarrow> \<lparr>fl_objs = xs, fl_ext = w\<rparr>)"

text \<open>In nanoseconds.\<close>

definition run_interval :: "Config \<Rightarrow> int" where
  "run_interval cfg = (if cfg_Interval cfg = 0 then 10000000000 else cfg_Interval cfg)"

text \<open>The endless loop: it may never return.\<close>

partial_function (option) Run_loop ::
  "Config \<Rightarrow> 'w driver \<Rightarrow> (nat \<Rightarrow> 'w turn) \<Rightarrow> nat \<Rightarrow> 'w fleet \<Rightarrow> 'w fleet option" where
  "Run_loop cfg d turns i s =
     (if t_done (turns i) then Some (run_turn cfg d (turns i) s)
      else Run_loop cfg d turns (Suc i) (t_pause (turns i) (run_interval cfg) (run_turn cfg d (turns i) s)))"

datatype run_error = Bad_kubeconfig string | Bad_client string | Context_done

text \<open>\<^verbatim>\<open>build\<close> is \<^verbatim>\<open>clientcmd.BuildConfigFromFlags\<close>, \<^verbatim>\<open>client\<close> is \<^verbatim>\<open>dynamic.NewForConfig\<close>.\<close>

definition Run ::
  "(string \<Rightarrow> string + 'rc) \<Rightarrow> ('rc \<Rightarrow> string option) \<Rightarrow> string \<Rightarrow> Config \<Rightarrow> 'w driver \<Rightarrow> (nat \<Rightarrow> 'w turn) \<Rightarrow> 'w fleet
    \<Rightarrow> (run_error \<times> 'w fleet) option" where
  "Run build client kubeconfig cfg d turns s =
     (case build kubeconfig of
        Inl err \<Rightarrow> Some (Bad_kubeconfig err, s)
      | Inr rc \<Rightarrow>
          (case client rc of
             Some err \<Rightarrow> Some (Bad_client err, s)
           | None \<Rightarrow> map_option (Pair Context_done) (Run_loop cfg d turns 0 s)))"

subsection \<open>The loop ends by its context\<close>

text \<open>The state in which turn \<open>i\<close> starts.\<close>

primrec before_turn :: "Config \<Rightarrow> 'w driver \<Rightarrow> (nat \<Rightarrow> 'w turn) \<Rightarrow> 'w fleet \<Rightarrow> nat \<Rightarrow> 'w fleet" where
  "before_turn cfg d turns s 0 = s"
| "before_turn cfg d turns s (Suc i) =
     t_pause (turns i) (run_interval cfg) (run_turn cfg d (turns i) (before_turn cfg d turns s i))"

lemma Run_loop_returns:
  assumes "t_done (turns n)" "\<forall>j < n. \<not> t_done (turns j)" "i \<le> n"
  shows "Run_loop cfg d turns i (before_turn cfg d turns s i) = Some (run_turn cfg d (turns n) (before_turn cfg d turns s n))"
  using assms(3)
proof (induction rule: inc_induct)
  case base
  show ?case using assms(1) by (simp add: Run_loop.simps)
next
  case (step i)
  then show ?case using assms(2) by (simp add: Run_loop.simps [of _ _ _ i])
qed

lemma Run_loop_endless: "Run_loop cfg d turns i s = Some s' \<Longrightarrow> \<exists>n \<ge> i. t_done (turns n)"
  by (rule Run_loop.raw_induct [of "\<lambda>cfg d turns i s s'. \<exists>n \<ge> i. t_done (turns n)"]) (auto split: if_splits, meson Suc_leD)

lemma Run_loop_first:
  assumes "Run_loop cfg d turns 0 s = Some s'"
  obtains n where "t_done (turns n)" "\<forall>j < n. \<not> t_done (turns j)" "s' = run_turn cfg d (turns n) (before_turn cfg d turns s n)"
proof -
  define n where "n = (LEAST n. t_done (turns n))"
  have n: "t_done (turns n)" "\<forall>j < n. \<not> t_done (turns j)"
    using Run_loop_endless [OF assms] LeastI_ex [of "\<lambda>n. t_done (turns n)"] unfolding n_def by (blast dest: not_less_Least)+
  with Run_loop_returns [OF n, of 0 cfg d s] assms have "s' = run_turn cfg d (turns n) (before_turn cfg d turns s n)" by simp
  with n show ?thesis by (rule that)
qed

text \<open>
  C18. The loop ends by its context and not otherwise: \<^verbatim>\<open>Run\<close> returns at once when it cannot set up its client, it
  runs forever if the context never ends, and otherwise it returns the context's error in the first turn
  whose wait the context ends, after that turn and all the turns before it have been carried out to their
  end.
\<close>

theorem Run_returns:
  "Run build client kubeconfig cfg d turns s =
     (case build kubeconfig of
        Inl err \<Rightarrow> Some (Bad_kubeconfig err, s)
      | Inr rc \<Rightarrow>
          (case client rc of
             Some err \<Rightarrow> Some (Bad_client err, s)
           | None \<Rightarrow>
               if \<exists>n. t_done (turns n)
               then let n = (LEAST n. t_done (turns n))
                    in Some (Context_done, run_turn cfg d (turns n) (before_turn cfg d turns s n))
               else None))"
proof -
  have "Run_loop cfg d turns 0 s =
    (if \<exists>n. t_done (turns n)
     then let n = (LEAST n. t_done (turns n)) in Some (run_turn cfg d (turns n) (before_turn cfg d turns s n)) else None)"
  proof (cases "\<exists>n. t_done (turns n)")
    case True
    then have "t_done (turns (LEAST n. t_done (turns n)))" by (rule LeastI_ex)
    moreover have "\<forall>j < (LEAST n. t_done (turns n)). \<not> t_done (turns j)" by (blast dest: not_less_Least)
    ultimately have "Run_loop cfg d turns 0 (before_turn cfg d turns s 0) = Some (run_turn cfg d (turns (LEAST n. t_done (turns n)))
        (before_turn cfg d turns s (LEAST n. t_done (turns n))))"
      by (rule Run_loop_returns) simp
    with True show ?thesis by (simp add: Let_def)
  next
    case False
    then show ?thesis using Run_loop_endless [of cfg d turns 0 s] by (cases "Run_loop cfg d turns 0 s") auto
  qed
  then show ?thesis by (simp add: Run_def Let_def split: sum.split option.split)
qed

subsection \<open>The life of a fleet\<close>

text \<open>
  \<open>admit\<close> says which objects are submitted, \<open>same\<close> which edits of an object are made, \<open>crash\<close> what else
  happens to the world.
\<close>

inductive fleet_step ::
  "'w driver \<Rightarrow> ('w \<Rightarrow> 'w \<Rightarrow> bool) \<Rightarrow> ('w fleet \<Rightarrow> unit sys \<Rightarrow> bool) \<Rightarrow> (obj \<Rightarrow> obj \<Rightarrow> bool) \<Rightarrow> string \<Rightarrow> 'w fleet \<Rightarrow> 'w fleet \<Rightarrow> bool"
  for d crash admit same f where
  reconciled: "fl_objs s = xs @ x # ys \<Longrightarrow> r_present x \<Longrightarrow> reconcile_item api f d x (fl_ext s) = (err, y, w) \<Longrightarrow>
     fleet_step d crash admit same f s \<lparr>fl_objs = xs @ y # ys, fl_ext = w\<rparr>"
| submitted: "admit s x \<Longrightarrow> fleet_step d crash admit same f s (s\<lparr>fl_objs := fl_objs s @ [x]\<rparr>)"
| edited: "fl_objs s = xs @ x # ys \<Longrightarrow> same (r_obj x) m \<Longrightarrow>
     fleet_step d crash admit same f s (s\<lparr>fl_objs := xs @ x\<lparr>r_obj := m, r_generation := r_generation x + 1\<rparr> # ys\<rparr>)"
| deleted: "fl_objs s = xs @ x # ys \<Longrightarrow> fleet_step d crash admit same f s (s\<lparr>fl_objs := xs @ x\<lparr>r_deleting := True\<rparr> # ys\<rparr>)"
| released: "fl_objs s = xs @ x # ys \<Longrightarrow> r_deleting x \<Longrightarrow> r_finalizers x = [] \<Longrightarrow>
     fleet_step d crash admit same f s (s\<lparr>fl_objs := xs @ x\<lparr>r_present := False\<rparr> # ys\<rparr>)"
| disturbed: "crash (fl_ext s) w \<Longrightarrow> fleet_step d crash admit same f s (s\<lparr>fl_ext := w\<rparr>)"

inductive_cases fleet_stepE [consumes 1, case_names reconciled submitted edited deleted released disturbed]:
  "fleet_step d crash admit same f s s'"

text \<open>A turn of the loop is a sequence of such steps.\<close>

lemma reconcile_items_steps:
  assumes "reconcile_items api f d xs w = (ys, w', log)"
  shows "(fleet_step d crash admit same f)\<^sup>*\<^sup>* \<lparr>fl_objs = pre @ xs, fl_ext = w\<rparr> \<lparr>fl_objs = pre @ ys, fl_ext = w'\<rparr>"
  using assms
proof (induction xs arbitrary: pre w ys log)
  case (Cons x xs)
  show ?case
  proof (cases "r_present x")
    case False
    with Cons.prems obtain zs where "ys = x # zs" "reconcile_items api f d xs w = (zs, w', log)" by (auto split: prod.splits)
    with Cons.IH [of w zs log "pre @ [x]"] show ?thesis by simp
  next
    case True
    with Cons.prems obtain err y w1 zs log1 where one: "reconcile_item (api (GetName (r_obj x))) f d x w = (err, y, w1)"
      and rest: "reconcile_items api f d xs w1 = (zs, w', log1)" and ys: "ys = y # zs" by (auto split: prod.splits)
    have "fleet_step d crash admit same f \<lparr>fl_objs = pre @ x # xs, fl_ext = w\<rparr> \<lparr>fl_objs = pre @ y # xs, fl_ext = w1\<rparr>"
      by (rule reconciled [OF _ True, where api = "api (GetName (r_obj x))" and err = err]) (simp_all add: one)
    with Cons.IH [OF rest, of "pre @ [y]"] ys show ?thesis by (simp add: converse_rtranclp_into_rtranclp)
  qed
qed simp

lemma run_turn_steps: "(fleet_step d crash admit same (cfg_Finalizer cfg))\<^sup>*\<^sup>* s (run_turn cfg d t s)"
  using reconcile_items_steps [of "t_api t" "cfg_Finalizer cfg" d "fl_objs s" "fl_ext s" _ _ _ crash admit same "[]"]
  by (cases s) (auto simp: run_turn_def split: prod.split)

text \<open>So is all the loop does, if what happens during its waits is.\<close>

lemma before_turn_steps:
  assumes "\<And>i t. (fleet_step d crash admit same (cfg_Finalizer cfg))\<^sup>*\<^sup>* t (t_pause (turns i) (run_interval cfg) t)"
  shows "(fleet_step d crash admit same (cfg_Finalizer cfg))\<^sup>*\<^sup>* s (before_turn cfg d turns s i)"
proof (induction i)
  case (Suc i)
  from Suc run_turn_steps have "(fleet_step d crash admit same (cfg_Finalizer cfg))\<^sup>*\<^sup>* s (run_turn cfg d (turns i) (before_turn cfg d turns s i))"
    by (rule rtranclp_trans)
  with assms show ?case by (simp add: rtranclp_trans)
qed simp

subsection \<open>Machines that do not disturb each other\<close>

locale fleet_contract = driver_contract d state_of owns
  for d :: "'w driver" and state_of :: "obj \<Rightarrow> 'w \<Rightarrow> State" and owns :: "obj \<Rightarrow> bool" +
  fixes apart :: "obj \<Rightarrow> obj \<Rightarrow> bool" and same :: "obj \<Rightarrow> obj \<Rightarrow> bool"
  assumes create_apart: "apart m m' \<Longrightarrow> owns m' \<Longrightarrow> state_of m' w = Absent \<Longrightarrow> state_of m' (snd (Create d m w)) = Absent"
    and stop_apart: "apart m m' \<Longrightarrow> owns m' \<Longrightarrow> state_of m' w = Absent \<Longrightarrow> state_of m' (snd (Stop d m w)) = Absent"
    and destroy_apart: "apart m m' \<Longrightarrow> owns m' \<Longrightarrow> state_of m' w = Absent \<Longrightarrow> state_of m' (snd (Destroy d m w)) = Absent"
    and same_state: "same m m' \<Longrightarrow> owns m' = owns m \<and> state_of m' w = state_of m w"
    and same_apart: "same m m' \<Longrightarrow> apart m' n = apart m n \<and> apart n m' = apart n m"
begin

lemmas verbs_apart = create_apart stop_apart destroy_apart

lemma reconcile_apart:
  assumes "apart (r_obj s) m" "owns m" "state_of m (ext s) = Absent"
  shows "state_of m (ext (snd (reconcile api f d s))) = Absent"
proof -
  have "ext (snd (reconcile api f d s)) \<in> {ext s, snd (Create d (r_obj s) (ext s)), snd (Stop d (r_obj s) (ext s)), snd (Destroy d (r_obj s) (ext s))}"
    by (auto simp: reconcile_simps split: prod.splits option.splits sum.splits)
  with assms verbs_apart show ?thesis by auto
qed

definition collected :: "string \<Rightarrow> 'w \<Rightarrow> unit sys \<Rightarrow> bool" where
  "collected f w x = (owns (r_obj x) \<longrightarrow> gc_inv f (place w x))"

definition apart_all :: "obj list \<Rightarrow> bool" where
  "apart_all ms = (\<forall>i < length ms. \<forall>j < length ms. i \<noteq> j \<longrightarrow> apart (ms ! i) (ms ! j))"

definition fleet_inv :: "string \<Rightarrow> 'w fleet \<Rightarrow> bool" where
  "fleet_inv f s = ((\<forall>x \<in> set (fl_objs s). collected f (fl_ext s) x) \<and> apart_all (map r_obj (fl_objs s)))"

text \<open>A submitted object is a new one, apart from every object there ever was, with nothing behind it.\<close>

definition fresh :: "'w fleet \<Rightarrow> unit sys \<Rightarrow> bool" where
  "fresh s x = (r_finalizers x = [] \<and> r_present x \<and> (owns (r_obj x) \<longrightarrow> state_of (r_obj x) (fl_ext s) = Absent)
     \<and> (\<forall>y \<in> set (fl_objs s). apart (r_obj x) (r_obj y) \<and> apart (r_obj y) (r_obj x)))"

lemma apart_all_others:
  assumes "apart_all (map r_obj (xs @ x # ys))" "y \<in> set (xs @ ys)"
  shows "apart (r_obj x) (r_obj y)"
proof -
  let ?ms = "map r_obj (xs @ x # ys)"
  from assms(2) obtain j where j: "j < length ?ms" "j \<noteq> length xs" "?ms ! j = r_obj y"
  proof (cases "y \<in> set xs")
    case True
    then obtain j where "j < length xs" "xs ! j = y" by (auto simp: in_set_conv_nth)
    then show ?thesis by (intro that [of j]) (simp_all add: nth_append)
  next
    case False
    with assms(2) obtain j where "j < length ys" "ys ! j = y" by (auto simp: in_set_conv_nth)
    then show ?thesis by (intro that [of "length xs + Suc j"]) (simp_all add: nth_append)
  qed
  have "length xs < length ?ms" "?ms ! length xs = r_obj x" by (simp_all add: nth_append)
  with j assms(1) show ?thesis unfolding apart_all_def by metis
qed

lemma apart_all_update: "apart_all ms \<Longrightarrow> i < length ms \<Longrightarrow> same (ms ! i) m \<Longrightarrow> apart_all (ms[i := m])"
  by (auto simp: apart_all_def nth_list_update same_apart)

lemma apart_all_snoc: "apart_all ms \<Longrightarrow> \<forall>n \<in> set ms. apart m n \<and> apart n m \<Longrightarrow> apart_all (ms @ [m])"
  by (auto simp: apart_all_def nth_append less_Suc_eq)

lemma step_fleet:
  assumes "fleet_step d crash fresh same f s s'" "fleet_inv f s"
    and crash: "\<And>m w w'. owns m \<Longrightarrow> crash w w' \<Longrightarrow> state_of m w = Absent \<Longrightarrow> state_of m w' = Absent"
  shows "fleet_inv f s'"
  using assms(1)
proof (cases rule: fleet_stepE)
  case (reconciled xs x ys api err y w)
  let ?s = "place (fl_ext s) x"
  from reconciled have y: "y = place () (snd (reconcile api f d ?s))" "w = ext (snd (reconcile api f d ?s))"
    by (auto simp: reconcile_item_def split: prod.splits)
  have obj: "r_obj y = r_obj x" using reconcile_keeps_obj [of api f d ?s] y by simp
  have "collected f w y"
    using tick_gc [of f ?s api] reconciled(2,3) assms(2) obj y by (auto simp: fleet_inv_def collected_def)
  moreover have "collected f w z" if z: "z \<in> set (xs @ ys)" for z
  proof -
    have "apart (r_obj x) (r_obj z)" using assms(2) reconciled(2) apart_all_others [OF _ z] by (simp add: fleet_inv_def)
    moreover have "collected f (fl_ext s) z" using assms(2) reconciled(2) z by (auto simp: fleet_inv_def)
    ultimately show ?thesis
      using reconcile_apart [of ?s "r_obj z" api f] y by (auto simp: collected_def gc_inv_def)
  qed
  ultimately show ?thesis using assms(2) reconciled(1,2) obj by (auto simp: fleet_inv_def)
next
  case (submitted x)
  then show ?thesis
    using assms(2) apart_all_snoc [of "map r_obj (fl_objs s)" "r_obj x"]
    by (auto simp: fleet_inv_def fresh_def collected_def gc_inv_def)
next
  case (edited xs x ys m)
  have "apart_all ((map r_obj (fl_objs s))[length xs := m])"
    using assms(2) edited by (intro apart_all_update) (simp_all add: fleet_inv_def nth_append)
  then show ?thesis
    using assms(2) edited same_state [OF edited(3)]
    by (auto simp: fleet_inv_def collected_def gc_inv_def list_update_append)
next
  case (disturbed w)
  then show ?thesis using assms(2) crash by (auto simp: fleet_inv_def collected_def gc_inv_def)
qed (use assms(2) in \<open>auto simp: fleet_inv_def collected_def gc_inv_def\<close>)

lemma reachable_fleet:
  assumes "(fleet_step d crash fresh same f)\<^sup>*\<^sup>* s s'" "fleet_inv f s"
    and "\<And>m w w'. owns m \<Longrightarrow> crash w w' \<Longrightarrow> state_of m w = Absent \<Longrightarrow> state_of m w' = Absent"
  shows "fleet_inv f s'"
  using assms(1)
proof (induction rule: rtranclp_induct)
  case base
  then show ?case using assms(2) by simp
next
  case (step y z)
  then show ?case using step_fleet assms(3) by blast
qed

lemma removed_absent:
  "fleet_inv f s \<Longrightarrow> x \<in> set (fl_objs s) \<Longrightarrow> \<not> r_present x \<Longrightarrow> owns (r_obj x) \<Longrightarrow> state_of (r_obj x) (fl_ext s) = Absent"
  by (auto simp: fleet_inv_def collected_def gc_inv_def)

end

end
