(* ===== verification/Tinq_Fleet.thy ===== *)
theory Tinq_Fleet
  imports Tinq_Driver Tinq_Frame Driverkit_Fleet
begin

section \<open>Many machines on one host\<close>

text \<open>
  The QEMU driver under the loop of \<open>Driverkit_Fleet\<close>. The locale \<open>qemu_site\<close> adds to \<open>qemu_host\<close> that
  qemu-img makes no other system disk than the one it is asked for, and that neither qemu nor swtpm makes
  any. Then the verbs on one machine leave every other machine without a disk that was without one, the
  driver meets \<open>fleet_contract\<close>, and the controller of a whole site never leaks a machine. The last part
  shows the condition under which this holds to be needed: an edit that moves a machine's directory, or
  that turns it into hardware, leaves the old disk behind; and what a stopped machine still reports.
\<close>

definition lacks :: "string \<Rightarrow> hostw \<Rightarrow> bool" where
  "lacks q w = (hw_files w q = None \<and> q \<notin> set (hw_dirs w))"

text \<open>Neither directory is inside the other; hardware disturbs nobody.\<close>

definition hvf_apart :: "env \<Rightarrow> obj \<Rightarrow> obj \<Rightarrow> bool" where
  "hvf_apart e m m' =
     (isBaremetal m \<or> hvf_owns e m \<and> \<not> below (dir_of e m) (dir_of e m') \<and> \<not> below (dir_of e m') (dir_of e m))"

text \<open>The edits that keep a machine where it is.\<close>

definition hvf_same :: "env \<Rightarrow> obj \<Rightarrow> obj \<Rightarrow> bool" where
  "hvf_same e m m' = (dir_of e m' = dir_of e m \<and> isBaremetal m' = isBaremetal m)"

lemma state_file:
  assumes "hvf_owns e m" "plain_comp x"
  shows "path_join [dir_of e m, x] = dir_of e m @ ''/'' @ x"
proof -
  from assms(1) obtain cs where "dir_of e m = abs_path cs" "state_comps cs" by (auto simp: hvf_owns_def)
  with assms(2) show ?thesis
    using path_join_abs [of cs "[x]"] state_compsD [of cs] by (simp add: abs_path_def join_append)
qed

lemma machine_paths_below: "hvf_owns e m \<Longrightarrow> p \<in> machine_paths (dir_of e m) \<Longrightarrow> below (dir_of e m) p"
  by (auto simp: machine_paths_def state_file machine_files_plain below_def has_prefix_iff)

lemma other_disk:
  assumes "hvf_owns e m" "\<not> below d (dir_of e m)" "\<not> below (dir_of e m) d"
  shows "\<not> below d (system_disk e m)"
proof
  let ?D = "dir_of e m"
  assume b: "below d (system_disk e m)"
  have q: "system_disk e m = ?D @ ''/system.qcow2''" using state_file [OF assms(1)] by (simp add: system_disk_def plain_comp_def)
  with b consider "d = ?D @ ''/system.qcow2''" | r where "?D @ ''/system.qcow2'' = d @ CHR ''/'' # r"
    by (auto simp: below_def has_prefix_iff)
  then show False
  proof cases
    case 1
    with assms(3) show False by (auto simp: below_def has_prefix_iff)
  next
    case 2
    then obtain us where "?D = d @ us \<and> us @ ''/system.qcow2'' = CHR ''/'' # r \<or> ?D @ us = d \<and> ''/system.qcow2'' = us @ CHR ''/'' # r"
      unfolding append_eq_append_conv2 by blast
    with assms(2,3) show False by (cases us) (auto simp: below_def has_prefix_iff)
  qed
qed

lemma state_lacks: "hvf_state e m w = Absent \<longleftrightarrow> lacks (system_disk e m) w"
  by (simp add: hvf_state_def lacks_def)

locale qemu_site = qemu_host +
  assumes img_only: "lacks q w \<Longrightarrow> has_suffix q ''/system.qcow2'' \<Longrightarrow> q \<noteq> p \<Longrightarrow> e_qemu_img e p sz w = (r, w') \<Longrightarrow> lacks q w'"
    and swtpm_no_disk: "lacks q w \<Longrightarrow> has_suffix q ''/system.qcow2'' \<Longrightarrow> e_swtpm e (swtpm_argv e dir) w = (r, w') \<Longrightarrow> lacks q w'"
    and qemu_no_disk: "lacks q w \<Longrightarrow> has_suffix q ''/system.qcow2'' \<Longrightarrow> e_qemu e b (qemu_argv e pf m spec bi) w = (r, w') \<Longrightarrow> lacks q w'"
begin

lemma keeps_lacks: "keeps_files w w' \<Longrightarrow> has_suffix q ''/system.qcow2'' \<Longrightarrow> lacks q w \<Longrightarrow> lacks q w'"
  using keeps_there [of w w' q] by (simp add: there_def lacks_def)

lemma lacks_invariant:
  assumes "hvf_owns e m" "has_suffix q ''/system.qcow2''" "\<not> below (dir_of e m) q"
  shows "host_invariant e (dir_of e m) (lacks q)"
proof
  fix w p sz r w'
  assume "lacks q w" "p \<in> machine_paths (dir_of e m)" "e_qemu_img e p sz w = (r, w')"
  then show "lacks q w'" using img_only [of q w p] assms machine_paths_below by blast
next
  fix w p and b :: bytes
  assume "lacks q w" "p \<in> machine_paths (dir_of e m)"
  then show "lacks q (w\<lparr>hw_files := (hw_files w)(p \<mapsto> b)\<rparr>)" "lacks q (w\<lparr>hw_dirs := p # hw_dirs w\<rparr>)"
    using machine_paths_below [OF assms(1)] assms(3) by (auto simp: lacks_def)
next
  fix w c ep r w'
  assume "lacks q w" "e_shutdown e c ep w = (r, w')"
  then show "lacks q w'" using keeps_lacks [OF shutdown_keeps assms(2)] by (metis snd_conv)
next
  show "lacks q w \<Longrightarrow> lacks q (w\<lparr>hw_files := (hw_files w)(swtpmSocketPath e (dir_of e m) := None)\<rparr>)" for w by (simp add: lacks_def)
qed (use assms(2) in \<open>auto intro: swtpm_no_disk qemu_no_disk keeps_lacks signal_keeps tick_keeps\<close>)

lemma Destroy_apart:
  assumes "has_suffix q ''/system.qcow2''" "lacks q w" "Destroy_hvf e m w = (r, w', t)"
  shows "lacks q w'"
proof (cases "isBaremetal m")
  case False
  let ?dir = "dir_of e m"
  obtain w1 t1 where tpm: "destroy_swtpm e ?dir w = (w1, t1)" by fastforce
  obtain h w2 t2 where halt: "halt e (readPid e w1 ?dir) ?dir w1 = (h, w2, t2)" by (metis prod_cases3)
  have "lacks q w1"
    using tpm assms(2) keeps_lacks [OF signal_keeps assms(1)] by (auto simp: destroy_swtpm_def Let_def split: option.splits if_splits prod.splits)
  then have "lacks q w2" using keeps_lacks [OF halt_keeps [OF halt] assms(1)] by blast
  then show ?thesis
    using assms(3) False tpm halt
    by (auto simp: Destroy_hvf_def destroy_def remove_all_def remove_empty_def lacks_def split: if_splits)
qed (use assms in \<open>simp add: Destroy_hvf_def\<close>)

lemma Destroy_elsewhere:
  assumes "\<not> below (dir_of e m) q" "has_suffix q ''/system.qcow2''" "hw_files w q \<noteq> None" "Destroy_hvf e m w = (r, w', t)"
  shows "hw_files w' q \<noteq> None"
proof (cases "isBaremetal m")
  case False
  let ?dir = "dir_of e m"
  have kept: "keeps_files u v \<Longrightarrow> hw_files u q \<noteq> None \<Longrightarrow> hw_files v q \<noteq> None" for u v
    using assms(2) by (auto simp: keeps_files_def)
  obtain w1 t1 where tpm: "destroy_swtpm e ?dir w = (w1, t1)" by fastforce
  obtain h w2 t2 where halt: "halt e (readPid e w1 ?dir) ?dir w1 = (h, w2, t2)" by (metis prod_cases3)
  have "hw_files w1 q \<noteq> None"
    using tpm assms(3) kept [OF signal_keeps] by (auto simp: destroy_swtpm_def Let_def split: option.splits if_splits prod.splits)
  then have "hw_files w2 q \<noteq> None" using kept [OF halt_keeps [OF halt]] by blast
  then show ?thesis
    using assms(1,4) False tpm halt by (auto simp: Destroy_hvf_def destroy_def remove_all_def remove_empty_def split: if_splits)
qed (use assms in \<open>simp add: Destroy_hvf_def\<close>)

lemma Create_apart:
  assumes "hvf_apart e m m'" "hvf_owns e m'" "lacks (system_disk e m') w" "Create_hvf e m w = (r, w')"
  shows "lacks (system_disk e m') w'"
proof (cases "isBaremetal m")
  case False
  with assms(1) have "hvf_owns e m" "\<not> below (dir_of e m) (system_disk e m')"
    using other_disk [OF assms(2)] by (auto simp: hvf_apart_def)
  from host_invariant.Create_inv [OF lacks_invariant [OF this(1) system_disk_suffix [OF assms(2)] this(2)] assms(3) refl assms(4)]
  show ?thesis .
qed (use assms in \<open>simp add: Create_hvf_def\<close>)

lemma Stop_apart:
  assumes "hvf_apart e m m'" "hvf_owns e m'" "lacks (system_disk e m') w" "Stop_hvf e m w = (r, w', t)"
  shows "lacks (system_disk e m') w'"
proof (cases "isBaremetal m")
  case False
  with assms(1) have "hvf_owns e m" "\<not> below (dir_of e m) (system_disk e m')"
    using other_disk [OF assms(2)] by (auto simp: hvf_apart_def)
  from host_invariant.Stop_inv [OF lacks_invariant [OF this(1) system_disk_suffix [OF assms(2)] this(2)] assms(3,4)]
  show ?thesis .
qed (use assms in \<open>simp add: Stop_hvf_def\<close>)

end

sublocale qemu_site \<subseteq> site: fleet_contract "hvf_driver e" "hvf_state e" "hvf_owns e" "hvf_apart e" "hvf_same e"
proof
  fix m m' w
  assume apart: "hvf_apart e m m'" "hvf_owns e m'" "hvf_state e m' w = Absent"
  then have lacks: "lacks (system_disk e m') w" by (simp add: state_lacks)
  show "hvf_state e m' (snd (Create (hvf_driver e) m w)) = Absent"
    using Create_apart [OF apart(1,2) lacks] by (cases "Create_hvf e m w") (simp add: hvf_driver_def state_lacks)
  show "hvf_state e m' (snd (Stop (hvf_driver e) m w)) = Absent"
    using Stop_apart [OF apart(1,2) lacks] by (cases "Stop_hvf e m w") (simp add: hvf_driver_def state_lacks)
  show "hvf_state e m' (snd (Destroy (hvf_driver e) m w)) = Absent"
    using Destroy_apart [OF system_disk_suffix [OF apart(2)] lacks] by (cases "Destroy_hvf e m w") (simp add: hvf_driver_def state_lacks)
qed (auto simp: hvf_same_def hvf_owns_def hvf_state_def hvf_apart_def system_disk_def)

context qemu_site
begin

lemma is_fleet: "fleet_contract (hvf_driver e) (hvf_state e) (hvf_owns e) (hvf_apart e) (hvf_same e)"
  by (rule site.fleet_contract_axioms)

end

lemma ideal_qemu_no_disk:
  assumes "e_qemu ideal_env b as w = (r, w')" "has_suffix q ''/system.qcow2''" "lacks q w"
  shows "lacks q w'"
proof -
  have "\<not> has_suffix q ''/qemu.pid''" using assms(2) by (auto simp: has_suffix_iff)
  with assms(1,3) show ?thesis by (auto simp: ideal_env_def lacks_def list_all_iff split: if_splits)
qed

interpretation ideal_site: qemu_site ideal_env
proof (unfold_locales, goal_cases)
  case (3 q w b pf m spec bi r w')
  then show ?case by (blast intro: ideal_qemu_no_disk)
qed (auto simp: ideal_env_def quiet_env_def lacks_def)

subsection \<open>A site never leaks a machine\<close>

text \<open>What may be submitted: a new object, apart from all there ever were, with no disk behind it.\<close>

definition hvf_fresh :: "env \<Rightarrow> hostw fleet \<Rightarrow> unit sys \<Rightarrow> bool" where
  "hvf_fresh e s x = (r_finalizers x = [] \<and> r_present x \<and> (hvf_owns e (r_obj x) \<longrightarrow> hvf_state e (r_obj x) (fl_ext s) = Absent)
     \<and> (\<forall>y \<in> set (fl_objs s). hvf_apart e (r_obj x) (r_obj y) \<and> hvf_apart e (r_obj y) (r_obj x)))"

text \<open>
  C1. Deleting never leaks, on a host with any number of machines: from an API server without objects,
  whatever is submitted, edited in place, deleted and reconciled in whatever order, with whatever
  failures of the driver and of the API server, and whatever else happens that gives no machine a disk,
  an object the server has removed has no system disk on the host any more, and that stays so while the
  others go on.
\<close>

theorem hvf_fleet_no_leak:
  assumes "qemu_site e" "fl_objs s = []"
    and "\<And>m w w'. hvf_owns e m \<Longrightarrow> crash w w' \<Longrightarrow> hvf_state e m w = Absent \<Longrightarrow> hvf_state e m w' = Absent"
    and "(fleet_step (hvf_driver e) crash (hvf_fresh e) (hvf_same e) f)\<^sup>*\<^sup>* s s'"
    and "x \<in> set (fl_objs s')" "\<not> r_present x" "hvf_owns e (r_obj x)"
  shows "hvf_state e (r_obj x) (fl_ext s') = Absent"
proof -
  have c: "fleet_contract (hvf_driver e) (hvf_state e) (hvf_owns e) (hvf_apart e) (hvf_same e)"
    using assms(1) by (rule qemu_site.is_fleet)
  have fresh: "hvf_fresh e = fleet_contract.fresh (hvf_state e) (hvf_owns e) (hvf_apart e)"
    by (intro ext) (simp add: hvf_fresh_def fleet_contract.fresh_def [OF c])
  have "fleet_contract.fleet_inv (hvf_state e) (hvf_owns e) (hvf_apart e) f s"
    using assms(2) by (simp add: fleet_contract.fleet_inv_def [OF c] fleet_contract.apart_all_def [OF c])
  then have "fleet_contract.fleet_inv (hvf_state e) (hvf_owns e) (hvf_apart e) f s'"
    using fleet_contract.reachable_fleet [OF c assms(4) [unfolded fresh]] assms(3) by blast
  from fleet_contract.removed_absent [OF c this assms(5-7)] show ?thesis .
qed

definition lab_object :: "unit sys" where
  "lab_object = \<lparr>r_obj = lab_vm, r_deleting = False, r_finalizers = [], r_generation = 1, r_status = None, r_present = True, ext = ()\<rparr>"

definition empty_site :: "hostw fleet" where
  "empty_site = \<lparr>fl_objs = [], fl_ext = stocked_host None\<rparr>"

lemma empty_site_absent: "Observe_hvf ideal_env lab_vm (stocked_host None) = Inr (Absent, [])" "hvf_state ideal_env lab_vm (stocked_host None) = Absent"
proof -
  have "stat ideal_env (stocked_host None) ''/s/lab/u/system.qcow2'' = Not_there"
    by (simp add: stat_def stocked_host_def ideal_env_def quiet_env_def)
  moreover have "\<not> isBaremetal lab_vm" by (simp add: isBaremetal_iff lab_vm_def)
  ultimately show "Observe_hvf ideal_env lab_vm (stocked_host None) = Inr (Absent, [])"
    by (simp add: Observe_hvf_def lab_dir lab_state_file plain_comp_def)
  show "hvf_state ideal_env lab_vm (stocked_host None) = Absent"
    by (simp add: hvf_state_def system_disk_def lab_dir lab_state_file plain_comp_def stocked_host_def)
qed

lemma ideal_halts: "halt ideal_env pid dir w = (r, w', t) \<Longrightarrow> hw_cancelled w' = hw_cancelled w"
proof -
  have "waitGone ideal_env n pid dir (e_signal ideal_env pid sg w) = (Gone, e_signal ideal_env pid sg w)" for n sg
    by (subst waitGone.simps) (simp add: matches_def procs_of_def ProcessMatches_def ideal_env_def quiet_env_def)
  moreover have "hw_cancelled (e_signal ideal_env pid sg w) = hw_cancelled w" for sg by (simp add: ideal_env_def quiet_env_def)
  ultimately show "halt ideal_env pid dir w = (r, w', t) \<Longrightarrow> hw_cancelled w' = hw_cancelled w"
    by (auto simp: halt_def Let_def split: if_splits)
qed

lemma ideal_destroys: "\<not> hw_cancelled w \<Longrightarrow> \<exists>w'. Destroy (hvf_driver ideal_env) lab_vm w = (None, w')"
proof -
  assume live: "\<not> hw_cancelled w"
  obtain w1 t1 where tpm: "destroy_swtpm ideal_env ''/s/lab/u'' w = (w1, t1)" by fastforce
  obtain h w2 t2 where halt: "halt ideal_env (readPid ideal_env w1 ''/s/lab/u'') ''/s/lab/u'' w1 = (h, w2, t2)" by (metis prod_cases3)
  obtain r w' t where run: "destroy ideal_env ''/s/lab/u'' w = (r, w', t)" by (metis prod_cases3)
  have "hw_cancelled w1 = hw_cancelled w"
    using tpm by (auto simp: destroy_swtpm_def ideal_env_def quiet_env_def split: option.splits prod.splits if_splits)
  with live ideal_halts [OF halt] have "\<not> hw_cancelled w2" by simp
  moreover have "\<not> stuck ideal_env w2 d q" for d q by (simp add: stuck_def ideal_env_def quiet_env_def)
  ultimately have "r = None" using destroy_cases [OF run tpm halt] by metis
  moreover have "\<not> isBaremetal lab_vm" by (simp add: isBaremetal_iff lab_vm_def)
  ultimately show ?thesis using run by (simp add: hvf_driver_def Destroy_hvf_def lab_dir)
qed

text \<open>
  A machine that is submitted, gets its finalizer, is created with its disk, deleted, torn down and removed.
\<close>

lemma lab_life:
  fixes crash f
  defines "step \<equiv> fleet_step (hvf_driver ideal_env) crash (hvf_fresh ideal_env) (hvf_same ideal_env) f"
  obtains w w' where "step\<^sup>*\<^sup>* empty_site \<lparr>fl_objs = [lab_object\<lparr>r_finalizers := [f]\<rparr>], fl_ext = w\<rparr>"
    "hw_files w ''/s/lab/u/system.qcow2'' = Some ''''"
    "step\<^sup>*\<^sup>* empty_site \<lparr>fl_objs = [lab_object\<lparr>r_deleting := True, r_present := False\<rparr>], fl_ext = w'\<rparr>"
proof -
  let ?fin = "lab_object\<lparr>r_finalizers := [f]\<rparr>" and ?host = "stocked_host None"
  obtain w where create: "Create_hvf ideal_env lab_vm ?host = (None, w)" and live: "\<not> hw_cancelled w"
    and disk: "hw_files w ''/s/lab/u/system.qcow2'' = Some ''''"
    using lab_created [of None] by auto
  obtain w' where destroy: "Destroy (hvf_driver ideal_env) lab_vm w = (None, w')" using ideal_destroys [OF live] by blast
  have 1: "step empty_site (empty_site\<lparr>fl_objs := fl_objs empty_site @ [lab_object]\<rparr>)"
    unfolding step_def by (rule submitted) (simp add: hvf_fresh_def lab_object_def empty_site_def empty_site_absent)
  have tick: "step \<lparr>fl_objs = [x], fl_ext = v\<rparr> \<lparr>fl_objs = [y], fl_ext = v'\<rparr>"
    if "r_present x" "reconcile_item (\<lambda>_. None) f (hvf_driver ideal_env) x v = (err, y, v')" for x y v v' err
    unfolding step_def using reconciled [of "\<lparr>fl_objs = [x], fl_ext = v\<rparr>" "[]" x "[]"] that by simp
  have 2: "step \<lparr>fl_objs = [lab_object], fl_ext = ?host\<rparr> \<lparr>fl_objs = [?fin], fl_ext = ?host\<rparr>"
    by (rule tick [where err = None]) (simp_all add: reconcile_item_def reconcile_simps lab_object_def place_def)
  have "plan Absent (desiredPowerState lab_vm) = (True, False)" by (simp add: plan_def desiredPowerState_def Str_def lab_vm_def nested_string_def)
  then have 3: "step \<lparr>fl_objs = [?fin], fl_ext = ?host\<rparr> \<lparr>fl_objs = [?fin], fl_ext = w\<rparr>"
    by (intro tick [where err = None])
      (simp_all add: reconcile_item_def reconcile_simps lab_object_def place_def hvf_driver_def empty_site_absent create)
  have 4: "step \<lparr>fl_objs = [?fin], fl_ext = w\<rparr> \<lparr>fl_objs = [?fin\<lparr>r_deleting := True\<rparr>], fl_ext = w\<rparr>"
    unfolding step_def using deleted [of "\<lparr>fl_objs = [?fin], fl_ext = w\<rparr>" "[]" ?fin "[]"] by simp
  have 5: "step \<lparr>fl_objs = [?fin\<lparr>r_deleting := True\<rparr>], fl_ext = w\<rparr> \<lparr>fl_objs = [lab_object\<lparr>r_deleting := True\<rparr>], fl_ext = w'\<rparr>"
    by (rule tick [where err = None]) (use destroy in \<open>simp_all add: reconcile_item_def reconcile_simps lab_object_def place_def\<close>)
  have 6: "step \<lparr>fl_objs = [lab_object\<lparr>r_deleting := True\<rparr>], fl_ext = w'\<rparr> \<lparr>fl_objs = [lab_object\<lparr>r_deleting := True, r_present := False\<rparr>], fl_ext = w'\<rparr>"
    unfolding step_def using released [of "\<lparr>fl_objs = [lab_object\<lparr>r_deleting := True\<rparr>], fl_ext = w'\<rparr>" "[]" "lab_object\<lparr>r_deleting := True\<rparr>" "[]"]
    by (simp add: lab_object_def)
  have run: "step\<^sup>*\<^sup>* empty_site \<lparr>fl_objs = [?fin], fl_ext = w\<rparr>"
    using 1 2 3 by (simp add: empty_site_def converse_rtranclp_into_rtranclp)
  moreover have "step\<^sup>*\<^sup>* empty_site \<lparr>fl_objs = [lab_object\<lparr>r_deleting := True, r_present := False\<rparr>], fl_ext = w'\<rparr>"
    using run 4 5 6 by (meson rtranclp.rtrancl_into_rtrancl)
  ultimately show thesis using that disk by blast
qed

theorem hvf_fleet_no_leak_witness:
  "\<exists>w w'. (fleet_step (hvf_driver ideal_env) (\<lambda>_ _. False) (hvf_fresh ideal_env) (hvf_same ideal_env) ''f'')\<^sup>*\<^sup>*
       empty_site \<lparr>fl_objs = [lab_object\<lparr>r_finalizers := [''f'']\<rparr>], fl_ext = w\<rparr> \<and> hw_files w ''/s/lab/u/system.qcow2'' = Some ''''
     \<and> (fleet_step (hvf_driver ideal_env) (\<lambda>_ _. False) (hvf_fresh ideal_env) (hvf_same ideal_env) ''f'')\<^sup>*\<^sup>*
       empty_site \<lparr>fl_objs = [lab_object\<lparr>r_deleting := True, r_present := False\<rparr>], fl_ext = w'\<rparr> \<and> hvf_state ideal_env lab_vm w' = Absent"
proof -
  let ?gone = "lab_object\<lparr>r_deleting := True, r_present := False\<rparr>"
  obtain w w' where life: "(fleet_step (hvf_driver ideal_env) (\<lambda>_ _. False) (hvf_fresh ideal_env) (hvf_same ideal_env) ''f'')\<^sup>*\<^sup>*
       empty_site \<lparr>fl_objs = [lab_object\<lparr>r_finalizers := [''f'']\<rparr>], fl_ext = w\<rparr>" "hw_files w ''/s/lab/u/system.qcow2'' = Some ''''"
     and gone: "(fleet_step (hvf_driver ideal_env) (\<lambda>_ _. False) (hvf_fresh ideal_env) (hvf_same ideal_env) ''f'')\<^sup>*\<^sup>*
       empty_site \<lparr>fl_objs = [?gone], fl_ext = w'\<rparr>"
    using lab_life by blast
  from hvf_fleet_no_leak [OF ideal_site.qemu_site_axioms _ _ gone, of ?gone] lab_owns
  have "hvf_state ideal_env lab_vm w' = Absent" by (simp add: empty_site_def lab_object_def)
  with life gone show ?thesis by blast
qed

text \<open>
  The directory of a machine is made of \<^verbatim>\<open>spec.site\<close> and its UID, and nothing forbids editing the site of a
  machine that exists. After such an edit the teardown of a deleted object succeeds, the finalizer is
  released, and the disk in the old directory stays.
\<close>

lemma moved_machine_leaks:
  assumes "qemu_site e" "hvf_owns e m" "hvf_owns e (r_obj s)" "hvf_apart e (r_obj s) m" "r_deleting s"
    and "hw_files (ext s) (system_disk e m) \<noteq> None" "reconcile api f (hvf_driver e) s = (None, s')"
  shows "hvf_state e m (ext s') \<noteq> Absent \<and> r_finalizers s' = []"
proof -
  from assms(5,7) obtain w where d: "Destroy (hvf_driver e) (r_obj s) (ext s) = (None, w)" "ext s' = w" "r_finalizers s' = []"
    by (auto simp: reconcile_simps split: prod.splits option.splits)
  then obtain t where "Destroy_hvf e (r_obj s) (ext s) = (None, w, t)" by (auto simp: hvf_driver_def split: prod.splits)
  moreover have "\<not> below (dir_of e (r_obj s)) (system_disk e m)"
    using assms(2,3,4) other_disk by (auto simp: hvf_apart_def hvf_owns_def)
  ultimately have "hw_files w (system_disk e m) \<noteq> None"
    using qemu_site.Destroy_elsewhere [OF assms(1)] qemu_host.system_disk_suffix [OF qemu_site.axioms(1) [OF assms(1)] assms(2)] assms(6) by blast
  with d show ?thesis by (simp add: state_lacks lacks_def)
qed

text \<open>
  A machine that was stopped as asked reports \<^verbatim>\<open>Stopped\<close> beside the pid and the endpoint it had while it ran:
  \<^verbatim>\<open>Observe\<close> does not name them any more, and the merge patch keeps them.
\<close>

lemma stopped_machine_keeps_pid:
  assumes "\<not> r_deleting s" "f \<in> set (r_finalizers s)" "desiredPowerState (r_obj s) = ''Stopped''"
    and "Observe_hvf e (r_obj s) (ext s) = Inr (Stopped, st)" "reconcile api f (hvf_driver e) s = (None, s')"
    and "r_status s = Some b" "(k, v) \<in> set (s_fields b)" "k \<in> {''pid'', ''apiEndpoint''}"
  shows "\<exists>b'. r_status s' = Some b' \<and> s_powerState b' = ''Stopped'' \<and> (k, v) \<in> set (s_fields b')"
proof -
  have "k \<notin> fst ` set st" using assms(4,8) by (auto simp: Observe_hvf_def Let_def split: stat_result.splits if_splits)
  moreover have "Observe (hvf_driver e) (r_obj s) (ext s) = Inr (Stopped, st)" using assms(4) by (simp add: hvf_driver_def)
  moreover have "plan Stopped (desiredPowerState (r_obj s)) = (False, False)" using assms(3) by (simp add: plan_def)
  ultimately show ?thesis
    using status_key_lingers [OF assms(1,2) _ _ assms(5-7)] by (simp add: state_string_def)
qed

text \<open>
  Nothing forbids turning a virtual machine into hardware either. The deletion of the converted object
  forgets it: process, disk and directory stay, and the finalizer is released.
\<close>

lemma converted_machine_leaks:
  assumes "isBaremetal (r_obj s)" "r_deleting s" "reconcile api f (hvf_driver e) s = (None, s')"
  shows "ext s' = ext s \<and> r_finalizers s' = []"
  using assms by (auto simp: reconcile_simps hvf_driver_def Destroy_hvf_def split: prod.splits option.splits)

end
