(* ===== verification/Cluster_Frame.thy ===== *)
theory Cluster_Frame
  imports Cluster_Reconfigure Cluster_Storage Cluster_Nodeinfo
begin

section \<open>What the cluster's calls leave alone\<close>

text \<open>
  A property of the world that no single call to a node, to Kubernetes or to the clock breaks is kept by
  everything \<^verbatim>\<open>src/cluster\<close> does: the waits, the hooks behind \<open>Up\<close>, the installation of the storage class,
  \<open>Up\<close> and \<open>Reconfigure\<close>, however they end. The locale \<open>remote_calls\<close> has one assumption for each kind of
  call. The second half says which files of the state directory they write.
\<close>

definition spares :: "('w \<Rightarrow> bool) \<Rightarrow> ('w \<Rightarrow> 'a \<times> 'w) \<Rightarrow> bool" where
  "spares P f = (\<forall>w. P w \<longrightarrow> P (snd (f w)))"

named_theorems sparing \<open>calls that keep a property of the world\<close>

lemma sparesI: "(\<And>w r w'. P w \<Longrightarrow> f w = (r, w') \<Longrightarrow> P w') \<Longrightarrow> spares P f"
  unfolding spares_def by (metis prod.collapse)

lemma sparesD: "spares P f \<Longrightarrow> f w = (r, w') \<Longrightarrow> P w \<Longrightarrow> P w'"
  unfolding spares_def by (metis snd_conv)

lemma spares_pure [sparing]: "spares P (\<lambda>w. (x, w))"
  by (simp add: spares_def)

lemma spares_sum [sparing]:
  "(\<And>x. c = Inl x \<Longrightarrow> spares P (f x)) \<Longrightarrow> (\<And>y. c = Inr y \<Longrightarrow> spares P (g y)) \<Longrightarrow> spares P (\<lambda>w. case c of Inl x \<Rightarrow> f x w | Inr y \<Rightarrow> g y w)"
  by (cases c) auto

lemma spares_option [sparing]:
  "(c = None \<Longrightarrow> spares P f) \<Longrightarrow> (\<And>y. c = Some y \<Longrightarrow> spares P (g y)) \<Longrightarrow> spares P (\<lambda>w. case c of None \<Rightarrow> f w | Some y \<Rightarrow> g y w)"
  by (cases c) auto

lemma spares_if [sparing]: "(b \<Longrightarrow> spares P f) \<Longrightarrow> (\<not> b \<Longrightarrow> spares P g) \<Longrightarrow> spares P (\<lambda>w. if b then f w else g w)"
  by (cases b) simp_all

locale remote_calls =
  fixes api :: "'w talos_api" and P :: "'w \<Rightarrow> bool"
  assumes version [sparing]: "spares P (tl_version api cred ep d)"
    and stage [sparing]: "spares P (tl_stage api cred ep d)"
    and applying [sparing]: "spares P (tl_apply api cred ep mode cfg)"
    and bootstrapping [sparing]: "spares P (tl_bootstrap api cred ep d)"
    and fetching [sparing]: "spares P (tl_kubeconfig api cred ep d)"
    and nodes [sparing]: "spares P (kb_nodes api kc d)"
    and select: "spares P (c_select (tl_clock api) t)"
    and waiting: "P w \<Longrightarrow> P (c_done (tl_clock api) t w)"
begin

subsection \<open>The waits\<close>

lemma waitFor_loop_spares:
  "P w \<Longrightarrow> (\<And>d. spares P (probe d)) \<Longrightarrow> waitFor_loop c what probe deadline next prev w = (r, w', log) \<Longrightarrow> c = tl_clock api \<Longrightarrow> P w'"
proof (induction c what probe deadline "next" prev w arbitrary: r log rule: waitFor_loop.induct)
  case (1 c what probe deadline "next" prev w)
  obtain p w1 where p: "probe (min (c_now c w + probeAttempt) deadline) w = (p, w1)" by force
  note eq = "1.prems"(3) [unfolded waitFor_loop.simps [of c what probe deadline "next" prev w] p prod.case]
  have w1: "P w1" using sparesD [OF "1.prems"(2) p "1.prems"(1)] .
  show ?case
  proof (cases p)
    case (Retry err)
    obtain fin w2 where s: "c_select c next w1 = (fin, w2)" by force
    have "P w2" using sparesD [OF select _ w1] s "1.prems"(4) by blast
    with eq Retry s w1 show ?thesis
      using "1.IH" [OF p [symmetric] Retry refl _ s [symmetric]] "1.prems"(2,4) waiting
      by (auto simp: Let_def split: if_splits prod.splits)
  qed (use eq w1 in auto)
qed

lemma run_wait_spares [sparing]: "(\<And>d. spares P (probe d)) \<Longrightarrow> spares P (run_wait (tl_clock api) timeout what probe)"
  by (rule sparesI) (auto simp: run_wait_def waitFor_def split: prod.splits intro: waitFor_loop_spares)

lemma version_probe_spares [sparing]: "spares P (version_probe api cred ep d)"
  by (rule sparesI) (auto simp: version_probe_def split: prod.splits sum.splits dest: sparesD [OF version])

lemma stage_probe_spares [sparing]: "spares P (stage_probe api cred ep d)"
  by (rule sparesI) (auto simp: stage_probe_def split: prod.splits sum.splits option.splits dest: sparesD [OF stage])

lemma all_ready_probe_spares [sparing]: "spares P (all_ready_probe api kc d)"
  by (rule sparesI) (auto simp: all_ready_probe_def split: prod.splits sum.splits option.splits if_splits dest: sparesD [OF nodes])

lemma ready_at_probe_spares [sparing]: "spares P (ready_at_probe api kc addr d)"
  by (rule sparesI) (auto simp: ready_at_probe_def split: prod.splits sum.splits option.splits dest: sparesD [OF nodes])

lemma bootstrap_probe_spares [sparing]: "(\<And>d. spares P (call d)) \<Longrightarrow> spares P (bootstrap_probe call d)"
  by (rule sparesI) (auto simp: bootstrap_probe_def split: prod.splits option.splits dest: sparesD)

lemma kubeconfig_probe_spares [sparing]: "spares P (kubeconfig_probe api cred ep d)"
  by (rule sparesI) (auto simp: kubeconfig_probe_def split: prod.splits sum.splits dest: sparesD [OF fetching])

lemma installed_version_probe_spares [sparing]: "spares P (installed_version_probe api cred ep d)"
  by (rule sparesI) (auto simp: installed_version_probe_def split: prod.splits sum.splits dest: sparesD [OF version])

lemma WaitMaintenance_spares [sparing]: "spares P (WaitMaintenance api ep timeout)"
  unfolding WaitMaintenance_def [abs_def] by (intro sparing)

lemma WaitBootstrapReady_spares [sparing]: "spares P (WaitBootstrapReady api tc ep timeout)"
  unfolding WaitBootstrapReady_def [abs_def] by (intro sparing)

lemma kube_wait_spares [sparing]: "(\<And>d. spares P (probe d)) \<Longrightarrow> spares P (kube_wait api kc timeout what probe)"
  unfolding kube_wait_def [abs_def] by (intro sparing)

lemma WaitNodeReady_spares [sparing]: "spares P (WaitNodeReady api kc timeout)"
  unfolding WaitNodeReady_def [abs_def] by (intro sparing)

lemma WaitNodeReadyAt_spares [sparing]: "spares P (WaitNodeReadyAt api kc addr timeout)"
  unfolding WaitNodeReadyAt_def [abs_def] by (intro sparing)

lemma InstalledNodeVersion_spares [sparing]: "spares P (InstalledNodeVersion api tc ep timeout)"
  unfolding InstalledNodeVersion_def [abs_def] by (intro sparing)

lemma bootstrapEtcd_spares [sparing]: "spares P (bootstrapEtcd api tc ep)"
  unfolding bootstrapEtcd_def [abs_def] bootstrapWithRetry_def by (intro sparing)

lemma fetchKubeconfig_spares [sparing]: "spares P (fetchKubeconfig api tc ep)"
  unfolding fetchKubeconfig_def [abs_def] by (intro sparing)

lemma NodeVersion_spares [sparing]: "spares P (NodeVersion api ep)"
  by (rule sparesI) (auto simp: NodeVersion_def split: prod.splits sum.splits dest: sparesD [OF version])

lemma applyConfiguration_spares [sparing]: "spares P (applyConfiguration api ep cfg)"
  by (rule sparesI) (auto simp: applyConfiguration_def split: prod.splits sum.splits option.splits dest: sparesD [OF applying])

lemma applyToRunningNode_spares [sparing]: "spares P (applyToRunningNode api tc ep cfg)"
  by (rule sparesI) (auto simp: applyToRunningNode_def split: prod.splits sum.splits option.splits dest: sparesD [OF applying])

lemma ListDisks_spares [sparing]: "(\<And>cred ep. spares P (listing cred ep)) \<Longrightarrow> spares P (ListDisks api listing ep)"
  by (rule sparesI) (auto simp: ListDisks_def split: prod.splits sum.splits dest: sparesD)

lemma ListLinks_spares [sparing]: "(\<And>cred ep. spares P (listing cred ep)) \<Longrightarrow> spares P (ListLinks api listing ep)"
  by (rule sparesI) (auto simp: ListLinks_def split: prod.splits sum.splits dest: sparesD)

subsection \<open>Hooks\<close>

definition hooks_spare :: "'w upHooks \<Rightarrow> bool" where
  "hooks_spare h =
     ((\<forall>inp. spares P (h_generateConfig h inp)) \<and> (\<forall>ep t. spares P (h_waitMaintenance h ep t)) \<and> (\<forall>ep cfg. spares P (h_applyConfig h ep cfg))
      \<and> (\<forall>tc ep t. spares P (h_waitBootstrapReady h tc ep t)) \<and> (\<forall>kc a t. spares P (h_waitNodeReadyAt h kc a t))
      \<and> (\<forall>tc ep. spares P (h_bootstrap h tc ep)) \<and> (\<forall>tc ep. spares P (h_kubeconfig h tc ep))
      \<and> (\<forall>kc t. spares P (h_waitNodeReady h kc t)) \<and> (\<forall>kc. spares P (h_installStorage h kc)))"

lemma realHooks_spare: "(\<And>kc. spares P (storage kc)) \<Longrightarrow> hooks_spare (realHooks api g storage)"
  by (simp add: hooks_spare_def realHooks_def sparing)

lemma world_hook [keeping]: "spares P f \<Longrightarrow> keeps (\<lambda>s. P (r_world s)) (hook ev f)"
  unfolding keeps_def by (rule tripleI) (auto simp: hook_def split: prod.splits dest: sparesD)

lemma world_step [keeping]: "keeps (\<lambda>s. P (r_world s)) (step l)"
  unfolding keeps_def by (rule tripleI) (auto simp: step_def)

lemma world_write [keeping]: "keeps (\<lambda>s. P (r_world s)) (write_artifact e dir a)"
  unfolding keeps_def by (rule tripleI) (auto simp: write_artifact_def Let_def split: option.splits)

lemma world_write_all [keeping]: "keeps (\<lambda>s. P (r_world s)) (write_all e dir as)"
  by (induction "as") (auto intro!: keeping)

lemma world_writeArtifacts [keeping]: "keeps (\<lambda>s. P (r_world s)) (writeArtifacts e dir as)"
  by (simp add: writeArtifacts_def world_write_all)

lemma world_guard [keeping]: "keeps (\<lambda>s. P (r_world s)) (version_guard e opts)"
  unfolding version_guard_def by (auto intro!: keeping split: prod.split option.split bool.split)

lemma world_bootstrap_step [keeping]:
  assumes "spares P (h_bootstrap (ue_hooks e) tc ep)"
  shows "keeps (\<lambda>s. P (r_world s)) (bootstrap_step e tc ep)"
  unfolding keeps_def using assms
  by (intro tripleI)
    (auto simp: bootstrap_step_def hook_def then_do_def step_def give_def split: prod.splits sum.splits if_splits dest: sparesD)

lemma world_Up:
  assumes "hooks_spare (ue_hooks e)" "spares P (ue_boot e)"
  shows "keeps (\<lambda>s. P (r_world s)) (Up e opts)"
  unfolding up_parts Let_def using assms by (auto simp: hooks_spare_def intro!: keeping split: option.split)

lemma world_Reconfigure:
  assumes "ue_api e = api"
  shows "keeps (\<lambda>s. P (r_world s)) (Reconfigure e g opts)"
  unfolding Reconfigure_def regenerate_def assms by (auto intro!: keeping sparing split: option.split)

end

subsection \<open>The storage class\<close>

text \<open>\<open>InstallStorage\<close> as the hook of \<open>Up\<close>: the requests it made are not kept.\<close>

definition storage_hook :: "'w storage_api \<Rightarrow> bytes \<Rightarrow> (storage_error \<Rightarrow> string) \<Rightarrow> bytes \<Rightarrow> 'w \<Rightarrow> (string + unit) \<times> 'w" where
  "storage_hook st manifest text kubeconfig w =
     (case InstallStorage st manifest kubeconfig \<lparr>ir_world = w, ir_requests = []\<rparr> of (r, s) \<Rightarrow> (map_error text r, ir_world s))"

lemma storage_hook_spares:
  assumes "\<And>v k. spares P (st_mapping st v k)" "\<And>r n x b. spares P (st_patch st r n x b)"
  shows "spares P (storage_hook st manifest text kubeconfig)"
proof -
  have one: "keeps (\<lambda>s. P (ir_world s)) (apply_object st ob)" for ob
    unfolding keeps_def
    by (rule tripleI) (auto simp: apply_object_def Let_def split: prod.splits sum.splits option.splits dest: sparesD [OF assms(1)] sparesD [OF assms(2)])
  have "keeps (\<lambda>s. P (ir_world s)) (apply_objects st obs)" for obs
    by (induction obs) (auto intro!: keeping one)
  then have "keeps (\<lambda>s. P (ir_world s)) (InstallStorage st manifest kubeconfig)"
    unfolding InstallStorage_def by (auto intro!: keeping split: option.split)
  then have "P w \<Longrightarrow> InstallStorage st manifest kubeconfig \<lparr>ir_world = w, ir_requests = []\<rparr> = (r, s) \<Longrightarrow> P (ir_world s)" for w r s
    using keepsD [of "\<lambda>s. P (ir_world s)" "InstallStorage st manifest kubeconfig" "\<lparr>ir_world = w, ir_requests = []\<rparr>" r s] by simp
  then show ?thesis by (intro sparesI) (auto simp: storage_hook_def split: prod.splits)
qed

subsection \<open>The files that are written\<close>

definition artifacts :: "string set" where
  "artifacts = {''controlplane.yaml'', ''talosconfig'', ''secrets.yaml'', ''cluster-endpoint'', ''kubeconfig''}"

text \<open>Other files of the state directory are never written.\<close>

lemma files_Up:
  assumes "\<forall>as. set (ue_order e as) = set as" "\<forall>f \<in> artifacts. F (path_join [o_StateDir opts, f]) = None"
  shows "keeps (holds_files F) (Up e opts)"
  unfolding up_parts Let_def using assms
  by (auto simp: artifacts_def config_artifacts_def intro!: keeping split: option.split)

lemma files_Reconfigure:
  assumes "\<forall>as. set (ue_order e as) = set as" "\<forall>f \<in> artifacts. F (path_join [rc_StateDir opts, f]) = None"
  shows "keeps (holds_files F) (Reconfigure e g opts)"
  unfolding Reconfigure_def regenerate_def using assms
  by (auto simp: artifacts_def intro!: keeping split: option.split)

end
