(* ===== verification/Tinq_Command.thy ===== *)
theory Tinq_Command
  imports Tinq_Lifecycle Tinq_Fleet Cluster_Frame
begin

section \<open>The command line\<close>

text \<open>
  \<^verbatim>\<open>main\<close> and \<^verbatim>\<open>newRootCmd\<close> of \<^verbatim>\<open>cmd/tinq/main.go\<close>: the flags with their defaults, the verbs with the arguments
  they take, the driver a verb is given, and how its outcome becomes an exit status. Cobra's parser is a
  parameter: from the defaults and the words of the command line it makes a usage error, a request for
  help, or a verb with flags and arguments. The help texts are not modelled. Above that, the history of a
  host is a sequence of invocations with whatever else happens to it in between.
\<close>

subsection \<open>Flags, verbs and arguments\<close>

record flags =
  f_stateRoot :: string
  f_imageRoot :: string
  f_kubeconfig :: string
  f_interval :: int
  f_withJoiners :: bool
  f_force :: bool

definition default_flags :: "(string \<Rightarrow> string) \<Rightarrow> flags" where
  "default_flags getenv =
     \<lparr>f_stateRoot = path_join [getenv ''HOME'', ''.hvf''], f_imageRoot = path_join [getenv ''HOME'', ''.hvf'', ''images''],
      f_kubeconfig = getenv ''KUBECONFIG'', f_interval = 5000000000, f_withJoiners = False, f_force = False\<rparr>"

datatype arg_rule = ExactArgs nat | NoArgs

definition newRootCmd :: "(string \<times> arg_rule) list" where
  "newRootCmd =
     [(''apply'', ExactArgs 1), (''stop'', ExactArgs 1), (''destroy'', ExactArgs 1), (''up'', ExactArgs 1), (''adopt'', ExactArgs 1),
      (''reconfigure'', ExactArgs 1), (''controller'', NoArgs)]"

fun args_ok :: "arg_rule \<Rightarrow> string list \<Rightarrow> bool" where
  "args_ok (ExactArgs n) args = (length args = n)"
| "args_ok NoArgs args = (args = [])"

datatype parsed = Bad_usage string | Show_help | Subcommand string flags "string list"

subsection \<open>What an invocation runs with\<close>

text \<open>
  \<open>x_env\<close> is the host's programs, its two roots set by the flags; \<open>x_up\<close> the surroundings of a bring-up, its
  hooks set to the real ones; \<open>x_build\<close>, \<open>x_client\<close> and \<open>x_turns\<close> are what the controller meets.
\<close>

record ('c, 'i, 't, 'k, 'p, 'n, 'rc) tools =
  x_getenv :: "string \<Rightarrow> string"
  x_parse :: "flags \<Rightarrow> string list \<Rightarrow> parsed"
  x_env :: env
  x_join :: "'n join_ctx"
  x_members :: "'n membership_api"
  x_up :: "('c, hostw \<times> 'n) up_env"
  x_generator :: "('c, 'i, 't, 'k, 'p) generator"
  x_storage :: "(hostw \<times> 'n) storage_api"
  x_manifest :: bytes
  x_text :: "storage_error \<Rightarrow> string"
  x_lists :: "(hostw \<times> 'n) node_lists"
  x_build :: "string \<Rightarrow> string + 'rc"
  x_client :: "'rc \<Rightarrow> string option"
  x_turns :: "nat \<Rightarrow> hostw turn"

text \<open>The state: a host with its nodes, and the objects of the API server the controller watches.\<close>

record 'n shell =
  sh_life :: "'n life"
  sh_objs :: "unit sys list"

datatype command_error =
  C_usage string
| C_unknown string
| C_args string nat
| C_state_root string
| C_verb life_error
| C_run run_error

definition driver_env :: "('c, 'i, 't, 'k, 'p, 'n, 'rc) tools \<Rightarrow> flags \<Rightarrow> env" where
  "driver_env x fl = (x_env x)\<lparr>e_stateRoot := f_stateRoot fl, e_imageRoot := f_imageRoot fl\<rparr>"

definition newDriver :: "('c, 'i, 't, 'k, 'p, 'n, 'rc) tools \<Rightarrow> flags \<Rightarrow> 'n shell \<Rightarrow> (command_error + env) \<times> 'n shell" where
  "newDriver x fl s =
     (case mkdir_all (driver_env x fl) (lf_host (sh_life s)) (f_stateRoot fl) of
        (Some err, w) \<Rightarrow> (Inl (C_state_root err), s\<lparr>sh_life := (sh_life s)\<lparr>lf_host := w\<rparr>\<rparr>)
      | (None, w) \<Rightarrow> (Inr (driver_env x fl), s\<lparr>sh_life := (sh_life s)\<lparr>lf_host := w\<rparr>\<rparr>))"

definition real_up :: "('c, 'i, 't, 'k, 'p, 'n, 'rc) tools \<Rightarrow> ('c, hostw \<times> 'n) up_env" where
  "real_up x =
     (x_up x)\<lparr>ue_hooks := realHooks (ue_api (x_up x)) (x_generator x) (storage_hook (x_storage x) (x_manifest x) (x_text x))\<rparr>"

subsection \<open>Running a verb\<close>

text \<open>A verb on one machine file; \<^verbatim>\<open>runVerb\<close> is the last case.\<close>

definition run_verb :: "('c, 'i, 't, 'k, 'p, 'n, 'rc) tools \<Rightarrow> env \<Rightarrow> flags \<Rightarrow> string \<Rightarrow> string \<Rightarrow> ('n life, life_error, unit) effect" where
  "run_verb x e fl verb path =
     (let ue = real_up x; bring = up_verb e (x_join x) ue in
      if verb = ''destroy'' then
        destroyMachine e (real_ops (jc_api (x_join x)) (x_members x)) bring path \<lparr>withJoiners = f_withJoiners fl, force = f_force fl\<rparr>
      else if verb = ''adopt'' then on_run (adoptMachine e (x_join x) ue (x_lists x) path)
      else if verb = ''reconfigure'' then on_run (reconfigureMachine e (x_join x) ue (x_generator x) path)
      else standalone e bring path verb)"

definition controller_config :: "flags \<Rightarrow> Config" where
  "controller_config fl = \<lparr>cfg_Finalizer = ''machine.hvf.fleet.io/vm'', cfg_Interval = f_interval fl\<rparr>"

text \<open>The turns say when the context the command runs in ends; \<^verbatim>\<open>main\<close> passes none of its own.\<close>

definition run_controller :: "('c, 'i, 't, 'k, 'p, 'n, 'rc) tools \<Rightarrow> env \<Rightarrow> flags \<Rightarrow> 'n shell \<Rightarrow> ((command_error + unit) \<times> 'n shell) option" where
  "run_controller x e fl s =
     map_option (\<lambda>(err, s1). (Inl (C_run err), s\<lparr>sh_life := (sh_life s)\<lparr>lf_host := fl_ext s1\<rparr>, sh_objs := fl_objs s1\<rparr>))
       (Run (x_build x) (x_client x) (f_kubeconfig fl) (controller_config fl) (hvf_driver e) (x_turns x)
          \<lparr>fl_objs = sh_objs s, fl_ext = lf_host (sh_life s)\<rparr>)"

definition RunE :: "('c, 'i, 't, 'k, 'p, 'n, 'rc) tools \<Rightarrow> string \<Rightarrow> flags \<Rightarrow> string list \<Rightarrow> 'n shell \<Rightarrow> ((command_error + unit) \<times> 'n shell) option" where
  "RunE x verb fl args s =
     (case newDriver x fl s of
        (Inl err, s1) \<Rightarrow> Some (Inl err, s1)
      | (Inr e, s1) \<Rightarrow>
          if verb = ''controller'' then run_controller x e fl s1
          else case run_verb x e fl verb (args ! 0) (sh_life s1) of
              (r, l) \<Rightarrow> Some (map_error C_verb r, s1\<lparr>sh_life := l\<rparr>))"

definition Execute :: "('c, 'i, 't, 'k, 'p, 'n, 'rc) tools \<Rightarrow> string list \<Rightarrow> 'n shell \<Rightarrow> ((command_error + unit) \<times> 'n shell) option" where
  "Execute x argv s =
     (case x_parse x (default_flags (x_getenv x)) argv of
        Bad_usage err \<Rightarrow> Some (Inl (C_usage err), s)
      | Show_help \<Rightarrow> Some (Inr (), s)
      | Subcommand verb fl args \<Rightarrow>
          (case map_of newRootCmd verb of
             None \<Rightarrow> Some (Inl (C_unknown verb), s)
           | Some rule \<Rightarrow>
               if \<not> args_ok rule args then Some (Inl (C_args verb (length args)), s)
               else RunE x verb fl args s))"

text \<open>The exit status with what is printed for a failure, once, on standard error.\<close>

definition main :: "('c, 'i, 't, 'k, 'p, 'n, 'rc) tools \<Rightarrow> string list \<Rightarrow> 'n shell \<Rightarrow> ((nat \<times> command_error list) \<times> 'n shell) option" where
  "main x argv s =
     map_option (\<lambda>(r, s1). ((case r of Inl err \<Rightarrow> (1, [err]) | Inr _ \<Rightarrow> (0, [])), s1)) (Execute x argv s)"

text \<open>The host of a shell.\<close>

abbreviation sh_host :: "'n shell \<Rightarrow> hostw" where
  "sh_host s \<equiv> lf_host (sh_life s)"

subsection \<open>What keeps a disk\<close>

lemma hex_plain [simp]: "CHR ''/'' \<notin> set (hex b)"
proof -
  have "hex_digit d \<noteq> CHR ''/''" if "d < 16" for d
  proof
    assume "hex_digit d = CHR ''/''"
    then have "(of_char (hex_digit d) :: nat) = 47" by simp
    with that show False by (simp add: hex_digit_def split: if_splits)
  qed
  moreover have "(of_char c :: nat) div 16 < 16" for c by (simp add: less_mult_imp_div_less)
  ultimately have "CHR ''/'' \<noteq> hex_digit ((of_char c :: nat) div 16)" "CHR ''/'' \<noteq> hex_digit ((of_char c :: nat) mod 16)" for c
    by (metis mod_less_divisor zero_less_numeral)+
  then show ?thesis by (auto simp: hex_def)
qed

text \<open>No program that the driver runs removes the disk at \<open>p\<close>; writing into it is another matter.\<close>

definition has_file :: "string \<Rightarrow> hostw \<Rightarrow> bool" where
  "has_file p w = (hw_files w p \<noteq> None)"

locale disk_keeper =
  fixes e :: env and p :: string
  assumes disk: "has_suffix p ''.qcow2''"
    and img_keeps: "has_file p w \<Longrightarrow> e_qemu_img e q sz w = (r, w') \<Longrightarrow> has_file p w'"
    and swtpm_keeps: "has_file p w \<Longrightarrow> e_swtpm e (swtpm_argv e dir) w = (r, w') \<Longrightarrow> has_file p w'"
    and qemu_keeps: "has_file p w \<Longrightarrow> e_qemu e b (qemu_argv e pf m spec bi) w = (r, w') \<Longrightarrow> has_file p w'"
    and signal_keeps: "has_file p w \<Longrightarrow> has_file p (e_signal e pid sg w)"
    and tick_keeps: "has_file p w \<Longrightarrow> has_file p (e_tick e w)"
    and shutdown_keeps: "has_file p w \<Longrightarrow> e_shutdown e c ep w = (r, w') \<Longrightarrow> has_file p w'"
begin

lemma not_disk: "plain_comp f \<Longrightarrow> last f \<noteq> CHR ''2'' \<Longrightarrow> path_join [d, f] \<noteq> p"
proof
  assume f: "plain_comp f" "last f \<noteq> CHR ''2''" "path_join [d, f] = p"
  then obtain pre where "p = pre @ f" using path_join_last [of f d] by auto
  with f have "last p \<noteq> CHR ''2''" by (simp add: plain_comp_def)
  with disk show False by (auto simp: has_suffix_iff)
qed

lemma artifact_not_disk: "f \<in> artifacts \<Longrightarrow> path_join [d, f] \<noteq> p"
  by (rule not_disk) (auto simp: artifacts_def plain_comp_def)

lemma socket_not_disk: "swtpmSocketPath e d \<noteq> p"
  unfolding swtpmSocketPath_def by (rule not_disk) (simp_all add: plain_comp_def hex_plain)

end

sublocale disk_keeper \<subseteq> kept: host_invariant e dir "has_file p" for dir
proof (unfold_locales, goal_cases)
  case (9 w)
  then show ?case using socket_not_disk [of dir] by (simp add: has_file_def)
qed (erule img_keeps swtpm_keeps qemu_keeps shutdown_keeps, assumption | erule signal_keeps tick_keeps | simp add: has_file_def)+

text \<open>The roots a verb is given change nothing of this.\<close>

lemma disk_keeper_roots: "disk_keeper (e\<lparr>e_stateRoot := r, e_imageRoot := i\<rparr>) p \<longleftrightarrow> disk_keeper e p"
proof -
  have "swtpmSocketPath (e\<lparr>e_stateRoot := r, e_imageRoot := i\<rparr>) d = swtpmSocketPath e d" for d by (simp add: swtpmSocketPath_def)
  then have "swtpm_argv (e\<lparr>e_stateRoot := r, e_imageRoot := i\<rparr>) d = swtpm_argv e d" for d by (simp add: swtpm_argv_def)
  moreover have "qemu_argv (e\<lparr>e_stateRoot := r, e_imageRoot := i\<rparr>) pf m spec bi = qemu_argv e pf m spec bi" for pf m spec bi
    by (simp add: qemu_argv_def)
  ultimately show ?thesis by (simp add: disk_keeper_def)
qed

interpretation lab_calls: remote_calls lab_api "\<lambda>w. n \<le> w" for n
  by unfold_locales (auto simp: lab_api_simps spares_def split: if_splits)

subsection \<open>The verbs keep disks\<close>

definition host_has :: "string \<Rightarrow> 'n life \<Rightarrow> bool" where
  "host_has p s = has_file p (lf_host s)"

definition world_has :: "string \<Rightarrow> hostw \<times> 'n \<Rightarrow> bool" where
  "world_has p v = has_file p (fst v)"

lemma on_run_keeps:
  assumes "\<And>b. keeps (holds_files [p \<mapsto> b]) act" "keeps (\<lambda>s. world_has p (r_world s)) act"
  shows "keeps (host_has p) (on_run act)"
  unfolding keeps_def
proof (rule triple_both)
  fix s r s'
  assume has: "host_has p s" and run: "on_run act s = (r, s')"
  let ?s0 = "\<lparr>r_world = (lf_host s, lf_net s), r_files = hw_files (lf_host s), r_log = []\<rparr>"
  obtain r1 s1 where act: "act ?s0 = (r1, s1)" by fastforce
  from has obtain b where "hw_files (lf_host s) p = Some b" by (auto simp: host_has_def has_file_def)
  then have "holds_files [p \<mapsto> b] s1" using keepsD [OF assms(1) _ act] by (simp add: holds_files_def split: if_splits)
  moreover have "world_has p (r_world s1)" using keepsD [OF assms(2) _ act] has by (simp add: world_has_def host_has_def)
  ultimately show "host_has p s'"
    using run act by (auto simp: on_run_def host_has_def world_has_def has_file_def holds_files_def)
qed

context disk_keeper
begin

lemma create_one_keeps: "keeps (host_has p) (create_one e m)"
  unfolding keeps_def
  by (rule triple_both)
    (auto simp: create_one_def host_has_def split: prod.splits option.splits sum.splits dest: kept.Create_inv [OF _ refl])

lemma stop_one_keeps: "keeps (host_has p) (stop_one e m)"
  unfolding keeps_def
  by (rule triple_both)
    (auto simp: stop_one_def host_has_def split: prod.splits option.splits dest: kept.Stop_inv)

lemma standalone_keeps:
  assumes "verb \<noteq> ''destroy''" "\<And>m state status. keeps (host_has p) (bring m state status)"
  shows "keeps (host_has p) (standalone e bring path verb)"
  unfolding keeps_def
proof (rule triple_both)
  fix s r s'
  assume has: "host_has p s" and run: "standalone e bring path verb s = (r, s')"
  from run assms(1) consider "s' = s" | m where "stop_one e m s = (r, s')" | m where "create_one e m s = (r, s')"
    | m state status where "bring m state status s = (r, s')"
    by (auto simp: standalone_def give_def split: sum.splits option.splits prod.splits if_splits)
  then show "host_has p s'"
    by cases (use has stop_one_keeps create_one_keeps assms(2) in \<open>blast dest: keepsD\<close>)+
qed

lemma vm_boot_spares: "spares (world_has p) (vm_boot e m state status)"
  by (rule sparesI)
    (auto simp: vm_boot_def world_has_def split: if_splits prod.splits dest: kept.create_inv)

end

text \<open>Nor does any call to a node, to Kubernetes or to the clock.\<close>

locale careful_tools = disk_keeper "x_env x" p + remote_calls "ue_api (x_up x)" "world_has p"
  for x :: "('c, 'i, 't, 'k, 'p, 'n, 'rc) tools" and p +
  assumes disks_listed: "spares (world_has p) (nl_disks (x_lists x) cred ep)"
    and links_listed: "spares (world_has p) (nl_links (x_lists x) cred ep)"
    and mapped: "spares (world_has p) (st_mapping (x_storage x) v k)"
    and patched: "spares (world_has p) (st_patch (x_storage x) r ns nm b)"
    and ordered: "set (ue_order (x_up x) as) = set as"
begin

lemma roots: "disk_keeper (driver_env x fl) p"
  using disk_keeper_axioms by (simp add: driver_env_def disk_keeper_roots)

lemma hooks: "hooks_spare (ue_hooks (real_up x))"
  by (simp add: real_up_def realHooks_spare storage_hook_spares mapped patched)

lemma real_api: "ue_api (real_up x) = ue_api (x_up x)" "ue_order (real_up x) = ue_order (x_up x)"
  by (simp_all add: real_up_def)

lemma Up_world:
  assumes "spares (world_has p) boot"
  shows "keeps (\<lambda>s. world_has p (r_world s)) (Up ((real_up x)\<lparr>ue_boot := boot\<rparr>) opts)"
  using hooks assms by (intro world_Up) simp_all

lemma Up_files: "keeps (holds_files [p \<mapsto> b]) (Up ((real_up x)\<lparr>ue_boot := boot\<rparr>) opts)"
  by (rule files_Up) (use ordered artifact_not_disk in \<open>auto simp: real_api\<close>)

lemma bringUp_keeps: "keeps (host_has p) (up_verb (driver_env x fl) (x_join x) (real_up x) m state status)"
proof -
  let ?act = "bringUp (driver_env x fl) (x_join x) (real_up x) m state status"
  note boot = disk_keeper.vm_boot_spares [OF roots, of fl m state status]
  have "keeps (holds_files [p \<mapsto> b]) ?act" for b
    unfolding keeps_def
    by (rule triple_both)
      (auto simp: bringUp_def fails_as_def holds_files_def [of _ "_\<lparr>r_world := _\<rparr>"] split: prod.splits sum.splits
        dest!: keepsD [OF Up_files, rotated] simp: holds_files_def)
  moreover have "keeps (\<lambda>s. world_has p (r_world s)) ?act"
    unfolding keeps_def
    by (rule triple_both)
      (auto simp: bringUp_def fails_as_def world_has_def split: prod.splits sum.splits
        dest!: keepsD [OF Up_world [OF boot], rotated])
  ultimately show ?thesis unfolding up_verb_def by (rule on_run_keeps)
qed

lemma make_state_dir_keeps [keeping]:
  "keeps (holds_files F) (make_state_dir e d)" "keeps (\<lambda>s. world_has p (r_world s)) (make_state_dir e d)"
  unfolding keeps_def
  by (rule triple_both; auto simp: make_state_dir_def mkdir_all_def holds_files_def world_has_def has_file_def split: if_splits)+

lemma adopt_keeps: "keeps (host_has p) (on_run (adoptMachine e (x_join x) (real_up x) (x_lists x) path))"
proof -
  have calls: "spares (world_has p) (ListDisks (ue_api (x_up x)) (nl_disks (x_lists x)) ep)"
    "spares (world_has p) (ListLinks (ue_api (x_up x)) (nl_links (x_lists x)) ep)" for ep
    using disks_listed links_listed by (auto intro: sparing)
  have files: "keeps (holds_files [p \<mapsto> b]) (adopt_run e (real_up x) (x_lists x) m q)" for b m q
    unfolding adopt_run_def maintenance_preflight_def node_version_def
    by (auto intro!: keeping Up_files split: option.split)
  have world: "keeps (\<lambda>s. world_has p (r_world s)) (adopt_run e (real_up x) (x_lists x) m q)" for m q
    unfolding adopt_run_def maintenance_preflight_def node_version_def real_api
    by (auto intro!: keeping Up_world calls sparing split: option.split)
  show ?thesis
  proof (rule on_run_keeps)
    show "keeps (holds_files [p \<mapsto> b]) (adoptMachine e (x_join x) (real_up x) (x_lists x) path)" for b
      unfolding keeps_def
      by (rule triple_both) (auto simp: adoptMachine_def split: sum.splits dest!: keepsD [OF files, rotated])
    show "keeps (\<lambda>s. world_has p (r_world s)) (adoptMachine e (x_join x) (real_up x) (x_lists x) path)"
      unfolding keeps_def
      by (rule triple_both) (auto simp: adoptMachine_def split: sum.splits dest!: keepsD [OF world, rotated])
  qed
qed

lemma reconfigure_keeps: "keeps (host_has p) (on_run (reconfigureMachine e (x_join x) (real_up x) g path))"
proof -
  have files: "keeps (holds_files [p \<mapsto> b]) (Reconfigure (real_up x) g opts)" for b opts
    by (rule files_Reconfigure) (use ordered artifact_not_disk in \<open>auto simp: real_api\<close>)
  have world: "keeps (\<lambda>s. world_has p (r_world s)) (Reconfigure (real_up x) g opts)" for opts
    by (rule world_Reconfigure) (simp add: real_api)
  show ?thesis
  proof (rule on_run_keeps)
    show "keeps (holds_files [p \<mapsto> b]) (reconfigureMachine e (x_join x) (real_up x) g path)" for b
      unfolding keeps_def
      by (rule triple_both)
        (auto simp: reconfigureMachine_def split: sum.splits prod.splits reconfigure_error.splits dest!: keepsD [OF files, rotated])
    show "keeps (\<lambda>s. world_has p (r_world s)) (reconfigureMachine e (x_join x) (real_up x) g path)"
      unfolding keeps_def
      by (rule triple_both)
        (auto simp: reconfigureMachine_def split: sum.splits prod.splits reconfigure_error.splits dest!: keepsD [OF world, rotated])
  qed
qed

lemma run_verb_keeps: "verb \<noteq> ''destroy'' \<Longrightarrow> keeps (host_has p) (run_verb x (driver_env x fl) fl verb path)"
  unfolding run_verb_def Let_def
  by (auto intro: adopt_keeps reconfigure_keeps disk_keeper.standalone_keeps [OF roots] bringUp_keeps)

end

subsection \<open>What destroy takes\<close>

text \<open>The machines a \<^verbatim>\<open>destroy\<close> of \<open>m\<close> may destroy: \<open>m\<close>, and with \<^verbatim>\<open>--with-joiners\<close> those found through it.\<close>

definition targets :: "env \<Rightarrow> destroyOptions \<Rightarrow> hostw \<Rightarrow> obj \<Rightarrow> obj list" where
  "targets e opts w m =
     m # (if withJoiners opts then (case allJoinersOf e w m of Some (Inr found) \<Rightarrow> map fst found | _ \<Rightarrow> []) else [])"

context disk_keeper
begin

lemma destroy_one_elsewhere:
  assumes "\<not> below (dir_of e m) p"
  shows "keeps (host_has p) (destroy_one e m)"
  unfolding keeps_def
proof (rule triple_both)
  fix s :: "'n life" and r s'
  assume has: "host_has p s" and run: "destroy_one e m s = (r, s')"
  obtain d w' t where des: "Destroy_hvf e m (lf_host s) = (d, w', t)" by (metis prod_cases3)
  have "has_file p w'"
  proof (cases "isBaremetal m")
    case False
    let ?dir = "dir_of e m"
    obtain w1 t1 where tpm: "destroy_swtpm e ?dir (lf_host s) = (w1, t1)" by fastforce
    obtain h w2 t2 where halt: "halt e (readPid e w1 ?dir) ?dir w1 = (h, w2, t2)" by (metis prod_cases3)
    have "has_file p w1"
      using tpm has signal_keeps by (auto simp: host_has_def destroy_swtpm_def Let_def split: option.splits if_splits prod.splits)
    then have "has_file p w2" using kept.halt_inv [OF _ halt] by blast
    then show ?thesis
      using des False tpm halt assms
      by (auto simp: Destroy_hvf_def destroy_def remove_all_def remove_empty_def has_file_def split: if_splits)
  qed (use des has in \<open>simp add: Destroy_hvf_def host_has_def\<close>)
  with run des show "host_has p s'" by (auto simp: destroy_one_def host_has_def split: option.splits)
qed

lemma leave_keeps: "keeps (host_has p) (leaveCluster e ops m forced)"
  unfolding keeps_def by (rule triple_both) (auto simp: host_has_def dest: leaveCluster_host)

lemma take_down_elsewhere:
  assumes "\<forall>j \<in> set js. \<not> below (dir_of e (fst j)) p"
  shows "keeps (host_has p) (take_down e ops whole forced js)"
  using assms
proof (induction js)
  case (Cons j js)
  then show ?case by (simp add: keeps_then leave_keeps destroy_one_elsewhere keeps_give)
qed (simp add: keeps_give)

lemma destroyMachine_elsewhere:
  fixes s :: "'n life"
  assumes read: "readMachine (host_fs e (lf_host s)) (e_unmarshal e) path = Inr m" and alone: "leaves_alone e path"
    and away: "\<forall>m' \<in> set (targets e opts (lf_host s) m). \<not> below (dir_of e m') p"
    and has: "host_has p s" and run: "destroyMachine e ops bring path opts s = (r, s')"
  shows "host_has p s'"
proof -
  define ok where "ok = (\<lambda>s1 :: 'n life. host_has p s1 \<and> still_names e path m s1)"
  have "m \<in> set (targets e opts (lf_host s) m)" unfolding targets_def by (rule list.set_intros)
  then have m: "\<not> below (dir_of e m) p" using away by blast
  have last1: "host_has p s2" if "ok s1" "standalone e bring path ''destroy'' s1 = (r1, s2)" for s1 r1 s2
  proof -
    have "s2 = s1 \<or> destroy_one e m s1 = (r1, s2)"
      using that by (auto simp: ok_def standalone_def still_names_def give_def split: sum.splits option.splits prod.splits if_splits)
    with that(1) keepsD [OF destroy_one_elsewhere [OF m]] show ?thesis by (auto simp: ok_def)
  qed
  have start: "ok s" using has read by (simp add: ok_def still_names_def)
  have first: "ok s1" if j: "joiners_first e ops opts m s = (r1, s1)" for r1 s1
  proof -
    from j consider "s1 = s" | found where "withJoiners opts" "allJoinersOf e (lf_host s) m = Some (Inr found)"
        "take_down e ops (joins_of m = []) (force opts) (rev found) s = (r1, s1)"
      by (auto simp: joiners_first_def split: sum.splits if_splits option.splits)
    then show ?thesis
    proof cases
      case 2
      then have "\<forall>j \<in> set (rev found). \<not> below (dir_of e (fst j)) p" using away by (auto simp: targets_def)
      from keepsD [OF take_down_elsewhere [OF this] has 2(3)] keepsD [OF still_take_down [OF alone] _ 2(3)] start
      show ?thesis by (simp add: ok_def)
    qed (simp add: start)
  qed
  have leave: "ok s2" if "ok s1" "leaveCluster e ops m (force opts) s1 = (r1, s2)" for s1 r1 s2
    using that keepsD [OF leave_keeps _ that(2)] keepsD [OF still_leave _ that(2)] by (simp add: ok_def)
  show ?thesis
  proof (cases "isBaremetal m")
    case True
    with run read last1 [OF start] show ?thesis by (simp add: destroyMachine_def)
  next
    case False
    with run read show ?thesis
      by (auto simp: destroyMachine_def then_do_eq give_def ok_def split: if_splits dest!: first dest: leave last1)
  qed
qed

end

subsection \<open>Histories\<close>

text \<open>
  An invocation that cannot cost the disk at \<open>p\<close>, judged where it starts: not the controller, and if it is
  a \<^verbatim>\<open>destroy\<close>, of machines none of whose directories has the disk.
\<close>

definition harmless :: "('c, 'i, 't, 'k, 'p, 'n, 'rc) tools \<Rightarrow> string \<Rightarrow> string list \<Rightarrow> 'n shell \<Rightarrow> bool" where
  "harmless x p argv s =
     (case x_parse x (default_flags (x_getenv x)) argv of
        Subcommand verb fl args \<Rightarrow>
          (let e = driver_env x fl; w = sh_host (snd (newDriver x fl s)) in
           verb \<noteq> ''controller'' \<and>
           (verb = ''destroy'' \<longrightarrow> leaves_alone e (args ! 0) \<and>
             (\<forall>m. readMachine (host_fs e w) (e_unmarshal e) (args ! 0) = Inr m \<longrightarrow>
               (\<forall>m' \<in> set (targets e \<lparr>withJoiners = f_withJoiners fl, force = f_force fl\<rparr> w m). \<not> below (dir_of e m') p))))
      | _ \<Rightarrow> True)"

text \<open>Invocations one after the other, with whatever else happens to the host in between.\<close>

inductive history ::
  "('c, 'i, 't, 'k, 'p, 'n, 'rc) tools \<Rightarrow> ('n shell \<Rightarrow> 'n shell \<Rightarrow> bool) \<Rightarrow> (string list \<Rightarrow> 'n shell \<Rightarrow> bool) \<Rightarrow> string list list
    \<Rightarrow> 'n shell \<Rightarrow> 'n shell \<Rightarrow> bool" for x between allowed where
  quiet: "history x between allowed [] s s"
| invoked: "allowed argv s \<Longrightarrow> main x argv s = Some (out, s1) \<Longrightarrow> history x between allowed argvs s1 s2 \<Longrightarrow>
    history x between allowed (argv # argvs) s s2"
| meanwhile: "between s s1 \<Longrightarrow> history x between allowed argvs s1 s2 \<Longrightarrow> history x between allowed argvs s s2"

inductive_simps history_done [simp]: "history x (\<lambda>_ _. False) allowed [] s s'"

lemma history_invariant:
  assumes "history x between allowed argvs s s'" "P s"
    and "\<And>argv s out s1. allowed argv s \<Longrightarrow> main x argv s = Some (out, s1) \<Longrightarrow> P s \<Longrightarrow> P s1"
    and "\<And>s s1. between s s1 \<Longrightarrow> P s \<Longrightarrow> P s1"
  shows "P s'"
  using assms(1,2)
proof (induction rule: history.induct)
  case (invoked argv s out s1 argvs s2)
  then show ?case using assms(3) by blast
next
  case (meanwhile s s1 argvs s2)
  then show ?case using assms(4) by blast
qed

text \<open>A verb on a machine file always comes to an end, with a status and at most one message.\<close>

lemma main_returns:
  assumes "\<And>fl args. x_parse x (default_flags (x_getenv x)) argv \<noteq> Subcommand ''controller'' fl args"
  shows "\<exists>status errs s'. main x argv s = Some ((status, errs), s') \<and> (status = 0 \<longleftrightarrow> errs = []) \<and> length errs = status"
proof -
  have "\<exists>r s'. Execute x argv s = Some (r, s')"
    using assms by (auto simp: Execute_def RunE_def split: parsed.split option.split sum.split prod.split)
  then obtain r s' where "Execute x argv s = Some (r, s')" by blast
  then show ?thesis by (cases r) (auto simp: main_def)
qed

text \<open>A command line that is refused changes nothing, not even the state root.\<close>

lemma Execute_refused:
  "Execute x argv s = Some (Inl err, s') \<Longrightarrow> err \<in> range C_usage \<union> range C_unknown \<union> {err. \<exists>v n. err = C_args v n} \<Longrightarrow> s' = s"
  by (auto simp: Execute_def RunE_def newDriver_def run_controller_def result_simps split: parsed.splits option.splits sum.splits prod.splits if_splits)

lemma newDriver_host: "newDriver x fl s = (r, s1) \<Longrightarrow> hw_files (sh_host s1) = hw_files (sh_host s) \<and> (\<forall>e. r = Inr e \<longrightarrow> e = driver_env x fl)"
  by (auto simp: newDriver_def mkdir_all_def split: prod.splits option.splits if_splits)

context careful_tools
begin

lemma destroy_keeps:
  assumes "harmless x p argv s" "x_parse x (default_flags (x_getenv x)) argv = Subcommand ''destroy'' fl args"
    and "newDriver x fl s = (Inr e, s1)" "run_verb x e fl ''destroy'' (args ! 0) (sh_life s1) = (r, l)" "host_has p (sh_life s1)"
  shows "host_has p l"
proof -
  have e: "e = driver_env x fl" using newDriver_host [OF assms(3)] by blast
  let ?opts = "\<lparr>withJoiners = f_withJoiners fl, force = f_force fl\<rparr>"
  have run: "destroyMachine e (real_ops (jc_api (x_join x)) (x_members x)) (up_verb e (x_join x) (real_up x)) (args ! 0) ?opts (sh_life s1) = (r, l)"
    using assms(4) by (simp add: run_verb_def Let_def)
  show ?thesis
  proof (cases "readMachine (host_fs e (sh_host s1)) (e_unmarshal e) (args ! 0)")
    case (Inl err)
    with run assms(5) show ?thesis by (simp add: destroyMachine_def)
  next
    case (Inr m)
    with assms(1-3) e have "leaves_alone e (args ! 0)" "\<forall>m' \<in> set (targets e ?opts (sh_host s1) m). \<not> below (dir_of e m') p"
      by (simp_all add: harmless_def Let_def)
    from disk_keeper.destroyMachine_elsewhere [OF roots [of fl, folded e] Inr this assms(5) run] show ?thesis .
  qed
qed

lemma main_keeps:
  assumes "harmless x p argv s" "main x argv s = Some (out, s')" "has_file p (sh_host s)"
  shows "has_file p (sh_host s')"
proof -
  from assms(2) obtain r where run: "Execute x argv s = Some (r, s')" by (auto simp: main_def)
  show ?thesis
  proof (cases "x_parse x (default_flags (x_getenv x)) argv")
    case (Subcommand verb fl args)
    obtain d s1 where drv: "newDriver x fl s = (d, s1)" by fastforce
    have s1: "host_has p (sh_life s1)" using newDriver_host [OF drv] assms(3) by (simp add: host_has_def has_file_def)
    have verb: "verb \<noteq> ''controller''" using assms(1) Subcommand by (simp add: harmless_def Let_def)
    have "s' = s \<or> RunE x verb fl args s = Some (r, s')"
      using run Subcommand by (auto simp: Execute_def split: option.splits if_splits)
    moreover have "s' = s1 \<or> (\<exists>r1 l. d = Inr (driver_env x fl) \<and> run_verb x (driver_env x fl) fl verb (args ! 0) (sh_life s1) = (r1, l)
        \<and> s' = s1\<lparr>sh_life := l\<rparr>)" if "RunE x verb fl args s = Some (r, s')"
      using that drv verb newDriver_host [OF drv] by (cases d) (auto simp: RunE_def split: prod.splits)
    ultimately consider "s' = s" | "s' = s1"
      | r1 l where "d = Inr (driver_env x fl)" "run_verb x (driver_env x fl) fl verb (args ! 0) (sh_life s1) = (r1, l)" "s' = s1\<lparr>sh_life := l\<rparr>"
      by blast
    then show ?thesis
    proof cases
      case 3
      then have "host_has p l"
        using destroy_keeps [OF assms(1), of fl args _ s1 r1 l] Subcommand drv s1 keepsD [OF run_verb_keeps s1 3(2)]
        by (cases "verb = ''destroy''") simp_all
      with 3 show ?thesis by (simp add: host_has_def)
    qed (use assms(3) s1 in \<open>simp_all add: host_has_def\<close>)
  qed (use run assms(3) in \<open>auto simp: Execute_def\<close>)
qed

end

subsection \<open>A host at work, for the witnesses\<close>

definition lab_parse :: "flags \<Rightarrow> string list \<Rightarrow> parsed" where
  "lab_parse fl argv = (case argv of [verb, path] \<Rightarrow> Subcommand verb (fl\<lparr>f_stateRoot := ''/s''\<rparr>) [path] | _ \<Rightarrow> Show_help)"

definition lab_tools :: "(nat, unit, nat, string, unit, nat, unit) tools" where
  "lab_tools =
     \<lparr>x_getenv = (\<lambda>_. ''/home''), x_parse = lab_parse, x_env = ideal_lab, x_join = duo_ctx,
      x_members = \<lparr>mb_leave = (\<lambda>_ _ _ n. (None, n)), mb_list = (\<lambda>_ _ _ n. (Inr [], n)), mb_remove = (\<lambda>_ _ _ _ n. (None, n)),
        mb_delete_node = (\<lambda>_ _ _ n. (None, n)), mb_url = (\<lambda>_. None)\<rparr>,
      x_up = bench_up, x_generator = lab_generator,
      x_storage = \<lparr>st_mount_point = ''/var/mnt'', st_read = (\<lambda>m. ([m], None)), st_unmarshal = (\<lambda>_. Inr []), st_marshal = (\<lambda>_. Inr []),
        st_mapping = (\<lambda>_ _ v. (Inl [], v)), st_patch = (\<lambda>_ _ _ _ v. (None, v)), st_parse = (\<lambda>_. True), st_dynamic = (\<lambda>_. None),
        st_discovery = (\<lambda>_. None)\<rparr>,
      x_manifest = [], x_text = (\<lambda>_. []), x_lists = bench_lists, x_build = (\<lambda>_. Inr ()), x_client = (\<lambda>_. None),
      x_turns = (\<lambda>_. \<lparr>t_listed = True, t_api = (\<lambda>_ _. None), t_done = True, t_pause = (\<lambda>_ s. s)\<rparr>)\<rparr>"

definition lab_shell :: "nat shell" where
  "lab_shell = \<lparr>sh_life = lab_start, sh_objs = []\<rparr>"

interpretation lab_disk: disk_keeper ideal_lab "''/s/lab/u/system.qcow2''"
  by unfold_locales (auto simp: ideal_lab_def ideal_env_def quiet_env_def has_suffix_def has_file_def split: if_splits)

interpretation lab: careful_tools lab_tools "''/s/lab/u/system.qcow2''"
proof (intro careful_tools.intro careful_tools_axioms.intro)
  show "disk_keeper (x_env lab_tools) ''/s/lab/u/system.qcow2''" using lab_disk.disk_keeper_axioms by (simp add: lab_tools_def)
  show "remote_calls (ue_api (x_up lab_tools)) (world_has ''/s/lab/u/system.qcow2'')"
    by unfold_locales (simp_all add: lab_tools_def bench_up_def bench_api_def spares_def)
qed (simp_all add: lab_tools_def bench_lists_def bench_up_def spares_def)

end
