(* ===== verification/Spec2Isabelle.thy ===== *)
theory Spec2Isabelle
  imports Platform_Image Platform_Firmware Platform_Host Platform_Process Tinq_Driver Cluster_Nodeinfo
    Cluster_Reconfigure Cluster_Membership Cluster_Storage Tinq_Verbs Tinq_Lifecycle Tinq_Command
begin

text \<open>
  A verification library for tinq, which boots Talos Linux in QEMU virtual machines (or adopts a machine
  that runs it), installs it, and keeps the machine in the state its file or its Kubernetes object asks
  for.

  \<^bold>\<open>The program and its parts.\<close> A machine is a YAML object. The command line (\<^verbatim>\<open>src/cmd/tinq\<close>) reads it and
  runs a verb: \<^verbatim>\<open>apply\<close>, \<^verbatim>\<open>stop\<close>, \<^verbatim>\<open>destroy\<close>, \<^verbatim>\<open>up\<close>, \<^verbatim>\<open>adopt\<close> or \<^verbatim>\<open>reconfigure\<close>; the verb \<^verbatim>\<open>controller\<close> reads objects from
  an API server instead. Under them is a hypervisor driver
  with Observe, Create, Stop and Destroy over the state directory of each machine; the same driver stands
  behind a reconcile loop (\<^verbatim>\<open>src/driverkit\<close>). \<^verbatim>\<open>src/platform\<close> tells it what the host is and which processes
  are its own. \<^verbatim>\<open>src/cluster\<close> turns a booted machine into a Kubernetes node: it generates a config with the
  Talos machinery, applies it, bootstraps etcd or joins an existing cluster, and can later change the config
  of a running node. Machines of a site share a network segment, on which one machine may join another's
  cluster.

  \<^bold>\<open>Theories and sources.\<close>
    \<^item> \<^verbatim>\<open>Go_Prelude\<close>, \<^verbatim>\<open>Go_Filepath\<close>, \<^verbatim>\<open>Go_Strings\<close>, \<^verbatim>\<open>Go_Value\<close>, \<^verbatim>\<open>Go_Netip\<close>, \<^verbatim>\<open>Go_Effect\<close>: what the code uses of Go and
      its library: byte strings and slices, results as sums, path cleaning and glob matching, splitting, the
      values of unstructured objects, addresses and prefixes on words, and functions that change a state and
      may fail, with triples over them. The locale \<open>segment\<close> of \<^verbatim>\<open>Go_Netip\<close> holds the arithmetic of a prefix.
    \<^item> \<^verbatim>\<open>Platform_Image\<close>, \<^verbatim>\<open>Platform_Firmware\<close>, \<^verbatim>\<open>Platform_Host\<close>, \<^verbatim>\<open>Platform_Process\<close>: \<^verbatim>\<open>platform/image.go\<close>, \<^verbatim>\<open>firmware.go\<close>,
      \<^verbatim>\<open>platform.go\<close> with \<^verbatim>\<open>accel.go\<close>, and \<^verbatim>\<open>process.go\<close>. Reading an ISO never panics and reads a version label back;
      the registry scan equals a reference reading; Detect succeeds on exactly the hosts it should; a machine
      never takes another's process for its own.
    \<^item> \<^verbatim>\<open>Tinq_Machine\<close>, \<^verbatim>\<open>Tinq_Clusternet\<close>, \<^verbatim>\<open>Tinq_Baremetal\<close>: the readers of a machine (\<^verbatim>\<open>main.go\<close>, \<^verbatim>\<open>clusternet.go\<close>,
      \<^verbatim>\<open>adopt.go\<close>). An accepted network block is well formed, and the collision check of a site is exact.
    \<^item> \<^verbatim>\<open>Driverkit\<close>, \<^verbatim>\<open>Driverkit_Fleet\<close>: \<^verbatim>\<open>driverkit.go\<close>, the tick on one object over an API server, and \<^verbatim>\<open>Run\<close>, the endless
      loop over all of them on one host. The locale \<open>driver_contract\<close> is what the loop relies on of a driver,
      \<open>fleet_contract\<close> adds that machines do not disturb each other. The loop converges, deletes without a leak,
      releases its finalizer only after a destroy, and ends by its context only.
    \<^item> \<^verbatim>\<open>Tinq_Host\<close>, \<^verbatim>\<open>Tinq_Frame\<close>, \<^verbatim>\<open>Tinq_Driver\<close>, \<^verbatim>\<open>Tinq_Fleet\<close>: the driver over a host of files, directories and
      processes (\<open>hostw\<close>) and an environment of programs (\<open>env\<close>). Signals go only to the machine's own process, a
      destroy sweeps everything or leaves a live machine alone, and a create formats no disk that is there.
      The locale \<open>host_invariant\<close> carries a property of the host through Create and Stop; the locales \<open>qemu_host\<close> and \<open>qemu_site\<close>, what the driver relies on of
      qemu, give the contracts of the loop, for one machine and for a site.
    \<^item> \<^verbatim>\<open>Cluster_Documents\<close>, \<^verbatim>\<open>Cluster_Network\<close>, \<^verbatim>\<open>Cluster_Identity\<close>, \<^verbatim>\<open>Cluster_Nodeinfo\<close>, \<^verbatim>\<open>Cluster_Client\<close>,
      \<^verbatim>\<open>Cluster_Config\<close>: the documents of a config, \<^verbatim>\<open>network.go\<close>, \<^verbatim>\<open>version.go\<close> with \<^verbatim>\<open>nodeidentity.go\<close>, \<^verbatim>\<open>nodeinfo.go\<close>,
      \<^verbatim>\<open>client.go\<close>, \<^verbatim>\<open>config.go\<close>. Waits end within their budget and reach a node that answers in time; a config pins
      what was asked for.
    \<^item> \<^verbatim>\<open>Cluster_Up\<close>, \<^verbatim>\<open>Cluster_Reconfigure\<close>, \<^verbatim>\<open>Cluster_Membership\<close>, \<^verbatim>\<open>Cluster_Storage\<close>, \<^verbatim>\<open>Cluster_Frame\<close>: \<^verbatim>\<open>up.go\<close>,
      \<^verbatim>\<open>reconfigure.go\<close>, \<^verbatim>\<open>membership.go\<close>, \<^verbatim>\<open>storage.go\<close>, over a run of world, files and log (\<open>run\<close>). No config is sent without its
      credentials on disk, a node is installed once, nothing happens before the guards, a reconfigure never sends
      what partitioning decided and records only what the node took, an etcd member that is reported gone is
      gone, and the storage manifest is applied whole and in order. The locale \<open>remote_calls\<close> of \<^verbatim>\<open>Cluster_Frame\<close> carries
      what every remote call keeps of the world through a bring-up and a reconfigure, and bounds the files
      they write.
    \<^item> \<^verbatim>\<open>Tinq_Segment\<close>, \<^verbatim>\<open>Tinq_Capacity\<close>, \<^verbatim>\<open>Tinq_Join\<close>, \<^verbatim>\<open>Tinq_Members\<close>: \<^verbatim>\<open>segment.go\<close>, \<^verbatim>\<open>capacity.go\<close>, \<^verbatim>\<open>join.go\<close> and the
      searches of \<^verbatim>\<open>lifecycle.go\<close>. The ARP exchange reads back, the memory margin is exact, a joiner rests on its
      owner's files, and the search for the members of a cluster ends with each of them once, in an order they
      can be taken down in (locale \<open>member_search\<close>).
    \<^item> \<^verbatim>\<open>Tinq_Verbs\<close>, \<^verbatim>\<open>Tinq_Lifecycle\<close>: the verbs, composed of all of the above (\<^verbatim>\<open>bringUp\<close> and \<^verbatim>\<open>upOptions\<close> of \<^verbatim>\<open>main.go\<close>,
      \<^verbatim>\<open>adoptMachine\<close>, \<^verbatim>\<open>reconfigureMachine\<close>, \<^verbatim>\<open>standalone\<close>, \<^verbatim>\<open>destroyMachine\<close>). A joiner is configured from its owner and
      never bootstraps; adopt surveys a node before it overwrites it and resumes on one it knows; a
      reconfigure of an unedited file without pins repeats the bring-up; apply, stop and destroy refine three power states;
      nobody is destroyed while etcd counts on it.
    \<^item> \<^verbatim>\<open>Tinq_Command\<close>: \<^verbatim>\<open>main\<close> and \<^verbatim>\<open>newRootCmd\<close>, the flags, verbs and exit status, and the history of a host as a sequence
      of invocations. The locales \<open>disk_keeper\<close> and \<open>careful_tools\<close> say that no program and no remote call removes
      a given disk; then no verb but a destroy that names its machine does.
    \<^item> This theory: what holds of the whole program. Only destroy takes disks.

  \<^bold>\<open>How code is modelled.\<close> Structs are records and errors are constructors that carry what their text quotes.
  A Go panic is the outer \<^term>\<open>None\<close> where the code indexes. Integers are \<^typ>\<open>int\<close> with the wrap-around of 64 bits
  written out, or words. Loops are recursive functions: the ladders of \<open>waitGone\<close> count polls of 100 ms (1800
  for a graceful stop, 50 after a signal), a file is awaited for 50 polls, the waits of \<^verbatim>\<open>client.go\<close> end by
  their deadline in milliseconds, and the search for members is a partial function shown to end on every host
  with finitely many files. A turn of the loop lists the objects once and nobody else changes them before its wait, so
  each is reconciled as it was listed; the log of a bring-up holds the calls that were made, their answers are in the
  result and in the world. \<^verbatim>\<open>strings.ToLower\<close> is read on ASCII letters, a float keeps its integral part, and
  the line limit of the scanner over \<^verbatim>\<open>/proc/meminfo\<close> is left out. The loop of \<^verbatim>\<open>Run\<close> is a partial function too,
  with the case in which it never returns told exactly. What is not in \<^verbatim>\<open>src\<close> is a parameter: the machinery's generator, patcher and version
  contract, the gRPC, etcd and Kubernetes clients, YAML and JSON, \<^verbatim>\<open>url.Parse\<close>, SHA-256, qemu, qemu-img and
  swtpm, the clock, cobra's parser, the API server's answers in each turn of the loop, and the order in which Go
  ranges over a map.

  \<^bold>\<open>Not modelled.\<close> The help texts of the command line; its parser is cobra's and a parameter. The wording of
  errors, of log lines and of the steps of \<^verbatim>\<open>up\<close>, and the layout of the disk and link tables. The embedded
  storage manifest's bytes, which are data. The test files, scripts, examples, the resource definition and
  the documents.
\<close>

section \<open>Properties of the whole program\<close>

text \<open>
  C2. Only destroy takes disks. Over any history of invocations of the command line and whatever else
  happens to the host between them that takes no disk, a system disk that was there at the start is there
  at the end, as long as the controller is not run and no \<^verbatim>\<open>destroy\<close> names its machine, directly or as a
  joiner. It holds for every outcome of every invocation: a failed, repeated or refused \<^verbatim>\<open>apply\<close>, \<^verbatim>\<open>stop\<close>, \<^verbatim>\<open>up\<close>,
  \<^verbatim>\<open>adopt\<close> or \<^verbatim>\<open>reconfigure\<close> of this machine or of another costs no disk.
\<close>

theorem disks_survive:
  assumes "careful_tools x p"
    and "history x between (harmless x p) argvs s s'"
    and "\<And>t t'. between t t' \<Longrightarrow> has_file p (sh_host t) \<Longrightarrow> has_file p (sh_host t')"
    and "has_file p (sh_host s)"
  shows "has_file p (sh_host s')"
  using assms(2,4)
  by (rule history_invariant [where P = "\<lambda>t. has_file p (sh_host t)"])
    (blast intro: careful_tools.main_keeps [OF assms(1)] assms(3))+

theorem disks_survive_witness:
  "\<exists>s'. history lab_tools (\<lambda>_ _. False) (harmless lab_tools ''/s/lab/u/system.qcow2'') [[''stop'', ''/lab.yaml''], [''apply'', ''/lab.yaml'']] lab_shell s'
     \<and> has_file ''/s/lab/u/system.qcow2'' (sh_host s')"
proof -
  let ?p = "''/s/lab/u/system.qcow2''"
  have parse: "x_parse lab_tools (default_flags (x_getenv lab_tools)) [verb, path]
      = Subcommand verb ((default_flags (x_getenv lab_tools))\<lparr>f_stateRoot := ''/s''\<rparr>) [path]" for verb path
    by (simp add: lab_tools_def lab_parse_def)
  have ok: "harmless lab_tools ?p [verb, path] s" if "verb \<notin> {''controller'', ''destroy''}" for verb path s
    using that by (simp add: harmless_def parse Let_def)
  have ends: "\<exists>out s'. main lab_tools [verb, path] s = Some (out, s')" if "verb \<noteq> ''controller''" for verb path s
    using main_returns [of lab_tools "[verb, path]" s] that by (auto simp: parse)
  obtain o1 s1 where "main lab_tools [''stop'', ''/lab.yaml''] lab_shell = Some (o1, s1)" using ends [of "''stop''"] by fastforce
  moreover obtain o2 s2 where "main lab_tools [''apply'', ''/lab.yaml''] s1 = Some (o2, s2)" using ends [of "''apply''"] by fastforce
  ultimately have h: "history lab_tools (\<lambda>_ _. False) (harmless lab_tools ?p) [[''stop'', ''/lab.yaml''], [''apply'', ''/lab.yaml'']] lab_shell s2"
    by (auto intro!: history.invoked history.quiet ok)
  have "has_file ?p (sh_host lab_shell)" by (simp add: has_file_def lab_shell_def lab_start_def running_host_def)
  with disks_survive [OF lab.careful_tools_axioms h] h show ?thesis by blast
qed

end
